theory Spec2Isabelle
  imports Complex_Main "HOL-Library.Log_Nat"
begin

section \<open>Distributed index ranges computed in \<open>setup\<close>\<close>

text \<open>
  \<open>TacsSolver.setup\<close>, \<open>TacsFunctions.setup\<close> and \<open>PrescribedLoad.setup\<close> all compute the
  index range of the calling rank in the same way:
  \<^verbatim>\<open>
      s_list = self.comm.allgather(state_size)
      irank  = self.comm.rank
      s1 = np.sum(s_list[:irank])
      s2 = np.sum(s_list[:irank+1])
      ... src_indices=np.arange(s1, s2, dtype=int)
  \<close>
  \<open>allgather\<close> returns the list of the local sizes of all ranks, ordered by rank id. The
  sizes are array sizes, hence natural numbers.
\<close>

definition np_sum :: "nat list \<Rightarrow> nat" where
  "np_sum xs = sum_list xs"

definition np_arange :: "nat \<Rightarrow> nat \<Rightarrow> nat list" where
  "np_arange a b = [a..<b]"

text \<open>\<open>s_list[:irank]\<close> is \<open>take irank s_list\<close>; the pair is \<open>(s1, s2)\<close>.\<close>

definition rank_range :: "nat list \<Rightarrow> nat \<Rightarrow> nat \<times> nat" where
  "rank_range s_list irank =
     (np_sum (take irank s_list), np_sum (take (irank + 1) s_list))"

definition src_indices :: "nat list \<Rightarrow> nat \<Rightarrow> nat list" where
  "src_indices s_list irank =
     (case rank_range s_list irank of (s1, s2) \<Rightarrow> np_arange s1 s2)"

section \<open>The structural engine as a parameter\<close>

text \<open>
  The finite-element engine (\<open>tacs\<close>, its matrix, preconditioner and GMRES solver) is an
  external library. The adapter reaches it through a fixed set of calls; each call is a
  parameter of the model. The engine object carries the design variables, the node
  coordinates and the state variables last pushed into it (\<open>setDesignVars\<close>, \<open>setNodes\<close>,
  \<open>setVariables\<close>); a call that fills an output buffer is modelled by the function that
  returns the buffer's new contents from the engine object and the call's arguments.
  \<open>'m\<close> is the type of the assembled matrix, \<open>'p\<close> of the factored preconditioner.
\<close>

type_synonym vec = "real list"

datatype py_error = ValueError | IndexError | KeyError | ZeroDivisionError

datatype func = StructuralMass | OtherFunction nat

record tacs_state =
  design_vars :: vec
  node_vec :: vec
  variables :: vec

record ('m, 'p) engine =
  createVec_size :: nat
  createNodeVec_size :: nat
  applyBCs :: "vec \<Rightarrow> vec"
  assembleRes :: "tacs_state \<Rightarrow> vec"
  assembleJacobian :: "tacs_state \<Rightarrow> 'm"
  mat_mult :: "'m \<Rightarrow> vec \<Rightarrow> vec"
  pc_factor :: "'m \<Rightarrow> 'p"
  gmres_solve :: "'m \<Rightarrow> 'p \<Rightarrow> vec \<Rightarrow> vec"
  evalFunctions :: "tacs_state \<Rightarrow> func list \<Rightarrow> vec"
  evalDVSens :: "tacs_state \<Rightarrow> func \<Rightarrow> nat \<Rightarrow> vec"
  evalXptSens :: "tacs_state \<Rightarrow> func \<Rightarrow> vec"
  evalSVSens :: "tacs_state \<Rightarrow> func \<Rightarrow> vec"
  evalAdjointResProduct :: "tacs_state \<Rightarrow> vec \<Rightarrow> nat \<Rightarrow> vec"
  evalAdjointResXptSensProduct :: "tacs_state \<Rightarrow> vec \<Rightarrow> vec"

section \<open>Arrays and framework vectors\<close>

text \<open>
  The framework allocates every variable with the shape declared in \<open>setup\<close>, and the
  engine's buffers have the sizes the engine reports, so the operands of an elementwise
  numpy operation below have equal sizes; \<open>a[:] = b\<close> copies \<open>b\<close>, \<open>a[:] = 0.0\<close> keeps the
  size of \<open>a\<close>. The one place where indices are computed by the adapter itself is the loop
  of \<open>apply_linear\<close>, which is modelled with numpy's bounds checks.
\<close>

definition vadd :: "vec \<Rightarrow> vec \<Rightarrow> vec" where
  "vadd xs ys = map2 (+) xs ys"

definition vsub :: "vec \<Rightarrow> vec \<Rightarrow> vec" where
  "vsub xs ys = map2 (-) xs ys"

definition zeros :: "nat \<Rightarrow> vec" where
  "zeros n = replicate n 0"

text \<open>The nonlinear vectors hold every declared variable; the derivative vectors of a
  reverse pass hold only the relevant ones, and the code asks \<open>'u_s' in d_residuals\<close>.\<close>

record inputs_S =
  dv_struct :: vec
  x_s0 :: vec
  f_s :: vec

record outputs_S =
  u_s :: vec

type_synonym dvecs = "string \<rightharpoonup> vec"

section \<open>\<open>TacsSolver\<close>\<close>

text \<open>
  The fields of the component that its methods read or write. \<open>rank\<close> is \<open>self.comm.rank\<close>,
  \<open>stdout\<close> collects what \<open>print\<close> writes and \<open>files\<close> the names of the files written.
\<close>

record ('m, 'p) TacsSolver =
  tacs :: tacs_state
  mat :: 'm
  pc :: 'p
  res :: vec
  force :: vec
  ans :: vec
  struct_rhs :: vec
  psi_s :: vec
  xpt_sens :: vec
  ndof :: nat
  rank :: nat
  write_f5 :: bool
  check_partials :: bool
  stdout :: "string list"
  files :: "string list"

text \<open>\<open>_update_internal(self, inputs, outputs=None)\<close>: the node coordinates are pushed
  twice, the Jacobian is assembled and factored before the state is pushed.\<close>

definition update_internal ::
  "('m, 'p) engine \<Rightarrow> ('m, 'p) TacsSolver \<Rightarrow> inputs_S \<Rightarrow> outputs_S option
   \<Rightarrow> ('m, 'p) TacsSolver" where
  "update_internal E self inputs outputs =
     (let t1 = (tacs self)\<lparr>design_vars := dv_struct inputs\<rparr>;
          t2 = t1\<lparr>node_vec := x_s0 inputs\<rparr>;
          t3 = t2\<lparr>node_vec := x_s0 inputs\<rparr>;
          m = assembleJacobian E t3;
          s1 = self\<lparr>tacs := t3, mat := m, pc := pc_factor E m\<rparr>
      in case outputs of
           None \<Rightarrow> s1
         | Some out \<Rightarrow>
             (let a = applyBCs E (u_s out)
              in s1\<lparr>ans := a, tacs := (tacs s1)\<lparr>variables := a\<rparr>\<rparr>))"

text \<open>\<open>apply_nonlinear(self, inputs, outputs, residuals)\<close>.\<close>

definition apply_nonlinear ::
  "('m, 'p) engine \<Rightarrow> ('m, 'p) TacsSolver \<Rightarrow> inputs_S \<Rightarrow> outputs_S \<Rightarrow> dvecs
   \<Rightarrow> ('m, 'p) TacsSolver \<times> dvecs" where
  "apply_nonlinear E self inputs outputs residuals =
     (let s1 = update_internal E self inputs (Some outputs);
          r0 = zeros (length (res s1));
          r1 = assembleRes E (tacs s1);
          r2 = vsub r1 (f_s inputs);
          r3 = applyBCs E r2
      in (s1\<lparr>res := r3\<rparr>, residuals(''u_s'' \<mapsto> r3)))"

text \<open>\<open>solve_nonlinear(self, inputs, outputs)\<close>.\<close>

definition solve_nonlinear ::
  "('m, 'p) engine \<Rightarrow> ('m, 'p) TacsSolver \<Rightarrow> inputs_S \<Rightarrow> outputs_S
   \<Rightarrow> ('m, 'p) TacsSolver \<times> outputs_S" where
  "solve_nonlinear E self inputs outputs =
     (let s1 = update_internal E self inputs None;
          fo = applyBCs E (f_s inputs);
          a = gmres_solve E (mat s1) (pc s1) fo;
          s2 = s1\<lparr>force := fo, ans := a, tacs := (tacs s1)\<lparr>variables := a\<rparr>\<rparr>;
          s3 = (if write_f5 s2 then s2\<lparr>files := files s2 @ [''wing.f5'']\<rparr> else s2)
      in (s3, outputs\<lparr>u_s := a\<rparr>))"

text \<open>\<open>solve_linear(self, d_outputs, d_residuals, mode)\<close>. In forward mode the method
  prints and returns when \<open>check_partials\<close> is set, and raises otherwise.\<close>

definition solve_linear ::
  "('m, 'p) engine \<Rightarrow> ('m, 'p) TacsSolver \<Rightarrow> dvecs \<Rightarrow> dvecs \<Rightarrow> string
   \<Rightarrow> py_error + (('m, 'p) TacsSolver \<times> dvecs)" where
  "solve_linear E self d_outputs d_residuals mode =
     (case (if mode = ''fwd''
            then (if check_partials self
                  then Inr (self\<lparr>stdout := stdout self @ [''solver fwd'']\<rparr>)
                  else Inl ValueError)
            else Inr self) of
        Inl e \<Rightarrow> Inl e
      | Inr s1 \<Rightarrow>
          if mode = ''rev'' then
            (case d_outputs ''u_s'' of
               None \<Rightarrow> Inl KeyError
             | Some seed \<Rightarrow>
                 (let r = applyBCs E seed;
                      psi = gmres_solve E (mat s1) (pc s1) r
                  in Inr (s1\<lparr>res := r, psi_s := psi\<rparr>, d_residuals(''u_s'' \<mapsto> psi))))
          else Inr (s1, d_residuals))"

text \<open>
  The loop of \<open>apply_linear\<close> that fills the buffer \<open>res_array\<close> from the seed:
  \<^verbatim>\<open>
      for i in range(int(inputs['x_s0'].size/3)):
          for j in range(3):
              res_array[self.ndof*i+j] = d_residuals['u_s'][3*i+j]
  \<close>
  Both arrays are numpy arrays, so an index past the end raises \<open>IndexError\<close>; the indices
  are never negative.
\<close>

fun load_seed_inner :: "nat \<Rightarrow> nat \<Rightarrow> vec \<Rightarrow> nat list \<Rightarrow> vec \<Rightarrow> py_error + vec" where
  "load_seed_inner nd i seed [] res_array = Inr res_array"
| "load_seed_inner nd i seed (j # js) res_array =
     (if 3 * i + j < length seed \<and> nd * i + j < length res_array
      then load_seed_inner nd i seed js (res_array[nd * i + j := seed ! (3 * i + j)])
      else Inl IndexError)"

fun load_seed_loop :: "nat \<Rightarrow> vec \<Rightarrow> nat list \<Rightarrow> vec \<Rightarrow> py_error + vec" where
  "load_seed_loop nd seed [] res_array = Inr res_array"
| "load_seed_loop nd seed (i # ns) res_array =
     (case load_seed_inner nd i seed [0..<3] res_array of
        Inl e \<Rightarrow> Inl e
      | Inr r \<Rightarrow> load_seed_loop nd seed ns r)"

text \<open>The block \<open>if 'u_s' in d_outputs\<close>: the raw state is pushed into the engine, and the
  product of the matrix with it, after the boundary conditions, is added to the seed.\<close>

definition rev_d_outputs ::
  "('m, 'p) engine \<Rightarrow> ('m, 'p) TacsSolver \<Rightarrow> outputs_S \<Rightarrow> dvecs
   \<Rightarrow> ('m, 'p) TacsSolver \<times> dvecs" where
  "rev_d_outputs E self outputs d_outputs =
     (case d_outputs ''u_s'' of
        None \<Rightarrow> (self, d_outputs)
      | Some old \<Rightarrow>
          (let a = u_s outputs;
               s1 = self\<lparr>ans := a, tacs := (tacs self)\<lparr>variables := a\<rparr>\<rparr>;
               r0 = zeros (length (res s1));
               r1 = mat_mult E (mat s1) a;
               r2 = applyBCs E r1
           in (s1\<lparr>res := r2\<rparr>, d_outputs(''u_s'' \<mapsto> vadd old r2))))"

text \<open>The block \<open>if 'f_s' in d_inputs\<close>.\<close>

definition rev_f_s ::
  "('m, 'p) engine \<Rightarrow> ('m, 'p) TacsSolver \<Rightarrow> inputs_S \<Rightarrow> vec \<Rightarrow> dvecs
   \<Rightarrow> py_error + (('m, 'p) TacsSolver \<times> dvecs)" where
  "rev_f_s E self inputs seed d_inputs =
     (case d_inputs ''f_s'' of
        None \<Rightarrow> Inr (self, d_inputs)
      | Some old \<Rightarrow>
          (case load_seed_loop (ndof self) seed [0..<length (x_s0 inputs) div 3]
                  (zeros (length (res self))) of
             Inl e \<Rightarrow> Inl e
           | Inr r1 \<Rightarrow>
               (let r2 = applyBCs E r1
                in Inr (self\<lparr>res := r2\<rparr>, d_inputs(''f_s'' \<mapsto> vsub old r2)))))"

text \<open>The block \<open>if 'x_s0' in d_inputs\<close>.\<close>

definition rev_x_s0 ::
  "('m, 'p) engine \<Rightarrow> ('m, 'p) TacsSolver \<Rightarrow> vec \<Rightarrow> dvecs
   \<Rightarrow> ('m, 'p) TacsSolver \<times> dvecs" where
  "rev_x_s0 E self seed d_inputs =
     (case d_inputs ''x_s0'' of
        None \<Rightarrow> (self, d_inputs)
      | Some old \<Rightarrow>
          (let s1 = self\<lparr>ans := seed\<rparr>;
               xs = evalAdjointResXptSensProduct E (tacs s1) (ans s1)
           in (s1\<lparr>xpt_sens := xs\<rparr>, d_inputs(''x_s0'' \<mapsto> vadd old xs))))"

text \<open>The block \<open>if 'dv_struct' in d_inputs\<close>: the product is added on rank 0 only.\<close>

definition rev_dv_struct ::
  "('m, 'p) engine \<Rightarrow> ('m, 'p) TacsSolver \<Rightarrow> vec \<Rightarrow> dvecs
   \<Rightarrow> ('m, 'p) TacsSolver \<times> dvecs" where
  "rev_dv_struct E self seed d_inputs =
     (case d_inputs ''dv_struct'' of
        None \<Rightarrow> (self, d_inputs)
      | Some old \<Rightarrow>
          (let s1 = self\<lparr>psi_s := seed\<rparr>;
               adj_res_product = evalAdjointResProduct E (tacs s1) (psi_s s1) (length old)
           in if rank s1 = 0
              then (s1, d_inputs(''dv_struct'' \<mapsto> vadd old adj_res_product))
              else (s1, d_inputs)))"

text \<open>\<open>apply_linear(self, inputs, outputs, d_inputs, d_outputs, d_residuals, mode)\<close>; the
  result holds the component, \<open>d_inputs\<close> and \<open>d_outputs\<close>.\<close>

definition apply_linear ::
  "('m, 'p) engine \<Rightarrow> ('m, 'p) TacsSolver \<Rightarrow> inputs_S \<Rightarrow> outputs_S \<Rightarrow> dvecs \<Rightarrow> dvecs
   \<Rightarrow> dvecs \<Rightarrow> string \<Rightarrow> py_error + (('m, 'p) TacsSolver \<times> dvecs \<times> dvecs)" where
  "apply_linear E self inputs outputs d_inputs d_outputs d_residuals mode =
     (let s0 = update_internal E self inputs (Some outputs)
      in if mode = ''fwd'' \<and> \<not> check_partials s0 then Inl ValueError
         else if mode = ''rev'' then
           (case d_residuals ''u_s'' of
              None \<Rightarrow> Inr (s0, d_inputs, d_outputs)
            | Some seed \<Rightarrow>
                (case rev_d_outputs E s0 outputs d_outputs of
                   (s1, d_outputs1) \<Rightarrow>
                     (case rev_f_s E s1 inputs seed d_inputs of
                        Inl e \<Rightarrow> Inl e
                      | Inr (s2, d_inputs2) \<Rightarrow>
                          (case rev_x_s0 E s2 seed d_inputs2 of
                             (s3, d_inputs3) \<Rightarrow>
                               (case rev_dv_struct E s3 seed d_inputs3 of
                                  (s4, d_inputs4) \<Rightarrow> Inr (s4, d_inputs4, d_outputs1))))))
         else Inr (s0, d_inputs, d_outputs))"

section \<open>\<open>TacsFunctions\<close>\<close>

text \<open>
  The fields and the input vector of \<open>TacsFunctions\<close> carry the suffix \<open>_F\<close>, since
  \<open>TacsSolver\<close> has fields of the same names. The outputs \<open>f_struct\<close> and \<open>mass\<close> exist only
  when \<open>setup\<close> declared them, and the code asks \<open>'mass' in outputs\<close>.
\<close>

record inputs_F =
  dv_struct_F :: vec
  x_s0_F :: vec
  u_s_F :: vec

record ('m, 'p) TacsFunctions =
  tacs_F :: tacs_state
  mat_F :: 'm
  pc_F :: 'p
  ans_F :: vec
  xpt_sens_F :: vec
  mass :: bool
  func_list :: "func list"
  check_partials_F :: bool

text \<open>The loop of \<open>setup\<close> that takes the mass function out of the function list:
  \<open>m\<close> is \<open>self.mass\<close>, \<open>acc\<close> is \<open>func_no_mass\<close>.\<close>

fun split_mass :: "func list \<Rightarrow> bool \<Rightarrow> func list \<Rightarrow> bool \<times> func list" where
  "split_mass [] m acc = (m, acc)"
| "split_mass (f # fs) m acc =
     (case f of
        StructuralMass \<Rightarrow> split_mass fs True acc
      | OtherFunction k \<Rightarrow> split_mass fs m (acc @ [f]))"

text \<open>\<open>setup\<close>, from what \<open>tacs_func_setup\<close> returns: the component (with \<open>self.mass = False\<close>
  and \<open>self.check_partials = True\<close> from \<open>initialize\<close>) and the outputs it declares.\<close>

definition setup_F ::
  "('m, 'p) engine \<Rightarrow> tacs_state \<Rightarrow> 'm \<Rightarrow> 'p \<Rightarrow> func list
   \<Rightarrow> ('m, 'p) TacsFunctions \<times> dvecs" where
  "setup_F E t0 m0 p0 funcs =
     (case split_mass funcs False [] of
        (m, func_no_mass) \<Rightarrow>
          (let o1 = (if m then [''mass'' \<mapsto> [0]] else Map.empty);
               o2 = (if length func_no_mass > 0
                     then o1(''f_struct'' \<mapsto> zeros (length func_no_mass)) else o1)
           in (\<lparr>tacs_F = t0, mat_F = m0, pc_F = p0,
                ans_F = zeros (createVec_size E), xpt_sens_F = zeros (createNodeVec_size E),
                mass = m, func_list = func_no_mass, check_partials_F = True\<rparr>, o2)))"

text \<open>\<open>_update_internal(self, inputs)\<close> of \<open>TacsFunctions\<close>.\<close>

definition update_internal_F ::
  "('m, 'p) engine \<Rightarrow> ('m, 'p) TacsFunctions \<Rightarrow> inputs_F \<Rightarrow> ('m, 'p) TacsFunctions" where
  "update_internal_F E self inputs =
     (let t1 = (tacs_F self)\<lparr>design_vars := dv_struct_F inputs\<rparr>;
          t2 = t1\<lparr>node_vec := x_s0_F inputs\<rparr>;
          t3 = t2\<lparr>node_vec := x_s0_F inputs\<rparr>;
          m = assembleJacobian E t3;
          a = applyBCs E (u_s_F inputs)
      in self\<lparr>tacs_F := t3\<lparr>variables := a\<rparr>, mat_F := m, pc_F := pc_factor E m,
              ans_F := a\<rparr>)"

text \<open>\<open>compute(self, inputs, outputs)\<close>.\<close>

definition compute ::
  "('m, 'p) engine \<Rightarrow> ('m, 'p) TacsFunctions \<Rightarrow> inputs_F \<Rightarrow> dvecs
   \<Rightarrow> ('m, 'p) TacsFunctions \<times> dvecs" where
  "compute E self inputs outputs =
     (let s1 = (if check_partials_F self then update_internal_F E self inputs else self);
          o1 = (if ''f_struct'' \<in> dom outputs
                then outputs(''f_struct'' \<mapsto> evalFunctions E (tacs_F s1) (func_list s1))
                else outputs);
          o2 = (if ''mass'' \<in> dom o1
                then o1(''mass'' \<mapsto> evalFunctions E (tacs_F s1) [StructuralMass])
                else o1)
      in (s1, o2))"

text \<open>
  Products of \<open>compute_jacvec_product\<close>: \<open>d_outputs['mass']\<close> is an array of size 1, which
  numpy broadcasts over the sensitivity; \<open>d_outputs['f_struct'][ifunc]\<close> is a scalar, read
  with numpy's bounds check.
\<close>

definition np_mul :: "vec \<Rightarrow> vec \<Rightarrow> vec" where
  "np_mul xs ys =
     (if length ys = 1 then map (\<lambda>x. x * hd ys) xs
      else if length xs = 1 then map (\<lambda>y. hd xs * y) ys
      else map2 (*) xs ys)"

definition scale :: "vec \<Rightarrow> real \<Rightarrow> vec" where
  "scale xs c = map (\<lambda>x. x * c) xs"

definition getitem :: "vec \<Rightarrow> nat \<Rightarrow> py_error + real" where
  "getitem xs i = (if i < length xs then Inr (xs ! i) else Inl IndexError)"

text \<open>The block \<open>if 'mass' in d_outputs\<close>.\<close>

definition rev_mass ::
  "('m, 'p) engine \<Rightarrow> ('m, 'p) TacsFunctions \<Rightarrow> dvecs \<Rightarrow> dvecs
   \<Rightarrow> ('m, 'p) TacsFunctions \<times> dvecs" where
  "rev_mass E self d_inputs d_outputs =
     (case d_outputs ''mass'' of
        None \<Rightarrow> (self, d_inputs)
      | Some seed \<Rightarrow>
          (let d1 = (case d_inputs ''dv_struct'' of
                       None \<Rightarrow> d_inputs
                     | Some old \<Rightarrow>
                         d_inputs(''dv_struct'' \<mapsto> vadd old
                           (np_mul (evalDVSens E (tacs_F self) StructuralMass (length old)) seed)))
           in case d1 ''x_s0'' of
                None \<Rightarrow> (self, d1)
              | Some old \<Rightarrow>
                  (let xs = evalXptSens E (tacs_F self) StructuralMass
                   in (self\<lparr>xpt_sens_F := xs\<rparr>,
                       d1(''x_s0'' \<mapsto> vadd old (np_mul xs seed))))))"

text \<open>The body of the loop \<open>for ifunc, func in enumerate(self.func_list)\<close>, with its three
  blocks for \<open>dv_struct\<close>, \<open>x_s0\<close> and \<open>u_s\<close>.\<close>

definition rev_func_dv ::
  "('m, 'p) engine \<Rightarrow> ('m, 'p) TacsFunctions \<Rightarrow> vec \<Rightarrow> nat \<Rightarrow> func \<Rightarrow> dvecs
   \<Rightarrow> py_error + dvecs" where
  "rev_func_dv E self seed ifunc f d_inputs =
     (case d_inputs ''dv_struct'' of
        None \<Rightarrow> Inr d_inputs
      | Some old \<Rightarrow>
          (case getitem seed ifunc of
             Inl e \<Rightarrow> Inl e
           | Inr c \<Rightarrow>
               Inr (d_inputs(''dv_struct'' \<mapsto>
                      vadd old (scale (evalDVSens E (tacs_F self) f (length old)) c)))))"

definition rev_func_x ::
  "('m, 'p) engine \<Rightarrow> ('m, 'p) TacsFunctions \<Rightarrow> vec \<Rightarrow> nat \<Rightarrow> func \<Rightarrow> dvecs
   \<Rightarrow> py_error + (('m, 'p) TacsFunctions \<times> dvecs)" where
  "rev_func_x E self seed ifunc f d_inputs =
     (case d_inputs ''x_s0'' of
        None \<Rightarrow> Inr (self, d_inputs)
      | Some old \<Rightarrow>
          (let xs = evalXptSens E (tacs_F self) f
           in case getitem seed ifunc of
                Inl e \<Rightarrow> Inl e
              | Inr c \<Rightarrow>
                  Inr (self\<lparr>xpt_sens_F := xs\<rparr>, d_inputs(''x_s0'' \<mapsto> vadd old (scale xs c)))))"

definition rev_func_u ::
  "('m, 'p) engine \<Rightarrow> ('m, 'p) TacsFunctions \<Rightarrow> vec \<Rightarrow> nat \<Rightarrow> func \<Rightarrow> dvecs
   \<Rightarrow> py_error + dvecs" where
  "rev_func_u E self seed ifunc f d_inputs =
     (case d_inputs ''u_s'' of
        None \<Rightarrow> Inr d_inputs
      | Some old \<Rightarrow>
          (case getitem seed ifunc of
             Inl e \<Rightarrow> Inl e
           | Inr c \<Rightarrow>
               Inr (d_inputs(''u_s'' \<mapsto> vadd old (scale (evalSVSens E (tacs_F self) f) c)))))"

definition rev_func_step ::
  "('m, 'p) engine \<Rightarrow> vec \<Rightarrow> nat \<Rightarrow> func \<Rightarrow> ('m, 'p) TacsFunctions \<times> dvecs
   \<Rightarrow> py_error + (('m, 'p) TacsFunctions \<times> dvecs)" where
  "rev_func_step E seed ifunc f sd =
     (case sd of (self, d_inputs) \<Rightarrow>
        (case rev_func_dv E self seed ifunc f d_inputs of
           Inl e \<Rightarrow> Inl e
         | Inr d1 \<Rightarrow>
             (case rev_func_x E self seed ifunc f d1 of
                Inl e \<Rightarrow> Inl e
              | Inr (s2, d2) \<Rightarrow>
                  (case rev_func_u E s2 seed ifunc f d2 of
                     Inl e \<Rightarrow> Inl e
                   | Inr d3 \<Rightarrow> Inr (s2, d3)))))"

text \<open>The loop over \<open>enumerate(self.func_list)\<close>; the list is not changed by the loop.\<close>

fun rev_func_loop ::
  "('m, 'p) engine \<Rightarrow> vec \<Rightarrow> (nat \<times> func) list \<Rightarrow> ('m, 'p) TacsFunctions \<times> dvecs
   \<Rightarrow> py_error + (('m, 'p) TacsFunctions \<times> dvecs)" where
  "rev_func_loop E seed [] sd = Inr sd"
| "rev_func_loop E seed ((ifunc, f) # fs) sd =
     (case rev_func_step E seed ifunc f sd of
        Inl e \<Rightarrow> Inl e
      | Inr sd1 \<Rightarrow> rev_func_loop E seed fs sd1)"

text \<open>\<open>compute_jacvec_product(self, inputs, d_inputs, d_outputs, mode)\<close>.\<close>

definition compute_jacvec_product ::
  "('m, 'p) engine \<Rightarrow> ('m, 'p) TacsFunctions \<Rightarrow> inputs_F \<Rightarrow> dvecs \<Rightarrow> dvecs \<Rightarrow> string
   \<Rightarrow> py_error + (('m, 'p) TacsFunctions \<times> dvecs)" where
  "compute_jacvec_product E self inputs d_inputs d_outputs mode =
     (if mode = ''fwd'' \<and> \<not> check_partials_F self then Inl ValueError
      else if mode = ''rev'' then
        (let s1 = (if check_partials_F self then update_internal_F E self inputs else self)
         in case rev_mass E s1 d_inputs d_outputs of
              (s2, d2) \<Rightarrow>
                (case d_outputs ''f_struct'' of
                   None \<Rightarrow> Inr (s2, d2)
                 | Some seed \<Rightarrow> rev_func_loop E seed (enumerate 0 (func_list s2)) (s2, d2)))
      else Inr (self, d_inputs))"

section \<open>The number of degrees of freedom per node\<close>

text \<open>
  \<open>TacsSolver.setup\<close> and \<open>PrescribedLoad.setup\<close> derive it with
  \<^verbatim>\<open>
      self.ndof = int(state_size / ( node_size / 3 ))
  \<close>
  under \<open>from __future__ import division\<close>: both divisions are divisions of double-precision
  floats, and \<open>int\<close> truncates. A double is modelled by the rational number it denotes.
  \<open>fl\<close> rounds a rational to the nearest double, ties to even, with 53 significant bits;
  array sizes are far from the overflow and underflow thresholds, which are left out.
\<close>

definition round_half_even :: "rat \<Rightarrow> int" where
  "round_half_even q =
     (let f = \<lfloor>q\<rfloor>; d = q - of_int f
      in if d < 1 / 2 then f else if 1 / 2 < d then f + 1 else if even f then f else f + 1)"

definition pow2 :: "int \<Rightarrow> rat" where
  "pow2 e = (if 0 \<le> e then 2 ^ nat e else 1 / 2 ^ nat (- e))"

text \<open>The binary exponent of a positive rational \<open>q\<close>: the \<open>e\<close> with \<open>2^e \<le> q < 2^(e+1)\<close>.\<close>

definition exponent :: "rat \<Rightarrow> int" where
  "exponent q =
     (case quotient_of q of (a, b) \<Rightarrow>
        (let d = bitlen a - bitlen b in if pow2 d \<le> q then d else d - 1))"

definition fl :: "rat \<Rightarrow> rat" where
  "fl q =
     (if q = 0 then 0
      else (let a = \<bar>q\<bar>; u = pow2 (exponent a - 52)
            in sgn q * of_int (round_half_even (a / u)) * u))"

text \<open>\<open>node_size / 3\<close> is the correctly rounded quotient of two integers; dividing the
  integer \<open>state_size\<close> by the float converts it first. A float divisor equal to zero
  raises \<open>ZeroDivisionError\<close>.\<close>

definition py_ndof :: "nat \<Rightarrow> nat \<Rightarrow> py_error + nat" where
  "py_ndof state_size node_size =
     (let d = fl (of_nat node_size / 3)
      in if d = 0 then Inl ZeroDivisionError
         else Inr (nat \<lfloor>fl (fl (of_nat state_size) / d)\<rfloor>))"

text \<open>\<open>TacsSolver.setup\<close>, from what \<open>tacs_solver_setup\<close> returns and the lists that the two
  \<open>allgather\<close> calls return: the component, with the flags set in \<open>initialize\<close>, and the
  \<open>src_indices\<close> of \<open>x_s0\<close> and \<open>f_s\<close>.\<close>

definition setup_S ::
  "('m, 'p) engine \<Rightarrow> tacs_state \<Rightarrow> 'm \<Rightarrow> 'p \<Rightarrow> nat list \<Rightarrow> nat list \<Rightarrow> nat
   \<Rightarrow> py_error + (('m, 'p) TacsSolver \<times> nat list \<times> nat list)" where
  "setup_S E t0 m0 p0 s_list n_list irank =
     (let state_size = createVec_size E;
          node_size = createNodeVec_size E
      in case py_ndof state_size node_size of
           Inl e \<Rightarrow> Inl e
         | Inr nd \<Rightarrow>
             Inr (\<lparr>tacs = t0, mat = m0, pc = p0,
                   res = zeros state_size, force = zeros state_size, ans = zeros state_size,
                   struct_rhs = zeros state_size, psi_s = zeros state_size,
                   xpt_sens = zeros node_size, ndof = nd, rank = irank,
                   write_f5 = True, check_partials = True, stdout = [], files = []\<rparr>,
                  src_indices n_list irank, src_indices s_list irank))"

section \<open>\<open>PrescribedLoad\<close>\<close>

record PrescribedLoad =
  ndof_P :: nat

text \<open>\<open>PrescribedLoad.setup\<close>: the component and the \<open>src_indices\<close> of \<open>x_s0\<close>.\<close>

definition setup_P ::
  "('m, 'p) engine \<Rightarrow> nat list \<Rightarrow> nat \<Rightarrow> py_error + (PrescribedLoad \<times> nat list)" where
  "setup_P E n_list irank =
     (let node_size = createNodeVec_size E;
          state_size = createVec_size E
      in case py_ndof state_size node_size of
           Inl e \<Rightarrow> Inl e
         | Inr nd \<Rightarrow> Inr (\<lparr>ndof_P = nd\<rparr>, src_indices n_list irank))"

text \<open>\<open>compute\<close>: the load is the user's \<open>load_function\<close> of the nodes and \<open>self.ndof\<close>.\<close>

definition compute_P :: "(vec \<Rightarrow> nat \<Rightarrow> vec) \<Rightarrow> PrescribedLoad \<Rightarrow> vec \<Rightarrow> vec" where
  "compute_P load_function self x = load_function x (ndof_P self)"

section \<open>Reading the result of a reverse-mode call\<close>

text \<open>\<open>d_inputs[k]\<close> and \<open>d_outputs[k]\<close> after a call of \<open>apply_linear\<close>; nothing when
  the call raised or the key is absent.\<close>

definition d_inputs_after ::
  "py_error + ('s \<times> dvecs \<times> dvecs) \<Rightarrow> string \<Rightarrow> vec option" where
  "d_inputs_after r k = (case r of Inl e \<Rightarrow> None | Inr (s, d_in, d_out) \<Rightarrow> d_in k)"

definition d_outputs_after ::
  "py_error + ('s \<times> dvecs \<times> dvecs) \<Rightarrow> string \<Rightarrow> vec option" where
  "d_outputs_after r k = (case r of Inl e \<Rightarrow> None | Inr (s, d_in, d_out) \<Rightarrow> d_out k)"

section \<open>The load seed as the specification words it\<close>

text \<open>
  This definition follows the specification, not the code: the identity on the owned
  degrees of freedom, carried from an ordering with 3 entries per node into the solver's
  ordering with \<open>nd\<close> entries per node. Entry \<open>nd * i + j\<close> of the result, for a node
  \<open>i < n\<close> and \<open>j < 3\<close>, is entry \<open>3 * i + j\<close> of the seed; the other entries of the
  result, of size \<open>m\<close>, are zero. It is compared with the loop of \<open>apply_linear\<close> below.
\<close>

definition permute_3_to_ndof :: "nat \<Rightarrow> nat \<Rightarrow> nat \<Rightarrow> vec \<Rightarrow> vec" where
  "permute_3_to_ndof nd n m seed =
     map (\<lambda>k. if k mod nd < 3 \<and> k div nd < n then seed ! (3 * (k div nd) + k mod nd) else 0)
       [0..<m]"

text \<open>\<open>d_inputs[k]\<close> after a call of \<open>compute_jacvec_product\<close>.\<close>

definition d_inputs_after_F :: "py_error + ('s \<times> dvecs) \<Rightarrow> string \<Rightarrow> vec option" where
  "d_inputs_after_F r k = (case r of Inl e \<Rightarrow> None | Inr (s, d_in) \<Rightarrow> d_in k)"

section \<open>Two reverse-mode calls in a row\<close>

text \<open>
  The framework calls a reverse-mode entry point once for every seed it propagates, on
  the same \<open>d_inputs\<close>, which collects the contributions. The second call starts from the
  component and the vectors that the first call left; an exception of the first call ends
  the pass.
\<close>

definition apply_linear_twice ::
  "('m, 'p) engine \<Rightarrow> ('m, 'p) TacsSolver \<Rightarrow> inputs_S \<Rightarrow> outputs_S \<Rightarrow> dvecs \<Rightarrow> dvecs
   \<Rightarrow> dvecs \<Rightarrow> dvecs \<Rightarrow> py_error + (('m, 'p) TacsSolver \<times> dvecs \<times> dvecs)" where
  "apply_linear_twice E self inputs outputs d_inputs d_outputs d_residuals1 d_residuals2 =
     (case apply_linear E self inputs outputs d_inputs d_outputs d_residuals1 ''rev'' of
        Inl e \<Rightarrow> Inl e
      | Inr (s1, d_inputs1, d_outputs1) \<Rightarrow>
          apply_linear E s1 inputs outputs d_inputs1 d_outputs1 d_residuals2 ''rev'')"

definition compute_jacvec_product_twice ::
  "('m, 'p) engine \<Rightarrow> ('m, 'p) TacsFunctions \<Rightarrow> inputs_F \<Rightarrow> dvecs \<Rightarrow> dvecs \<Rightarrow> dvecs
   \<Rightarrow> py_error + (('m, 'p) TacsFunctions \<times> dvecs)" where
  "compute_jacvec_product_twice E self inputs d_inputs d_outputs1 d_outputs2 =
     (case compute_jacvec_product E self inputs d_inputs d_outputs1 ''rev'' of
        Inl e \<Rightarrow> Inl e
      | Inr (s1, d_inputs1) \<Rightarrow>
          compute_jacvec_product E s1 inputs d_inputs1 d_outputs2 ''rev'')"

text \<open>A partial seed \<open>z\<close> that a sibling branch has already added to \<open>d_inputs\<close>:
  \<open>with_partial_seed d z\<close> is \<open>d\<close> with \<open>z\<close> added entry by entry.\<close>

definition add_partial_seed :: "vec option \<Rightarrow> vec option \<Rightarrow> vec option" where
  "add_partial_seed x w =
     (case x of
        None \<Rightarrow> None
      | Some old \<Rightarrow> (case w of None \<Rightarrow> Some old | Some w' \<Rightarrow> Some (vadd old w')))"

definition with_partial_seed :: "dvecs \<Rightarrow> dvecs \<Rightarrow> dvecs" where
  "with_partial_seed d z = (\<lambda>k. add_partial_seed (d k) (z k))"

text \<open>The sizes the engine's calls are taken to respect: a vector keeps its size under
  the boundary conditions, and a sensitivity with respect to the design variables has
  the size of the array it is written to.\<close>

definition engine_shapes :: "('m, 'p) engine \<Rightarrow> bool" where
  "engine_shapes E \<longleftrightarrow>
     (\<forall>v. length (applyBCs E v) = length v) \<and>
     (\<forall>t psi n. length (evalAdjointResProduct E t psi n) = n) \<and>
     (\<forall>t f n. length (evalDVSens E t f n) = n)"

section \<open>Contributions to the seeds\<close>

text \<open>
  A reverse-mode call changes an entry of \<open>d_inputs\<close> only by adding a vector to it. The
  definitions of this section name the vectors that a call adds, so that two calls can be
  compared; the last section shows that \<open>apply_linear\<close> and \<open>compute_jacvec_product\<close> add
  exactly these.

  A contribution map gives, for a key and the size of the entry under that key, the vector
  to add, or nothing. \<open>add_contrib C d\<close> adds the contributions to the entries that \<open>d\<close> has,
  with the elementwise sum \<open>vadd\<close> of the code.
\<close>

definition add_contrib :: "(string \<Rightarrow> nat \<Rightarrow> vec option) \<Rightarrow> dvecs \<Rightarrow> dvecs" where
  "add_contrib C d =
     (\<lambda>k. map_option (\<lambda>old. case C k (length old) of None \<Rightarrow> old | Some c \<Rightarrow> vadd old c) (d k))"

text \<open>The sum of an entry and an optional contribution.\<close>

definition add1 :: "vec \<Rightarrow> vec option \<Rightarrow> vec" where
  "add1 old c = (case c of None \<Rightarrow> old | Some c' \<Rightarrow> vadd old c')"

text \<open>The contributions of the adapter depend on the size of the entry only under
  \<open>dv_struct\<close>, where the product is written to a buffer of that size.\<close>

definition shaped :: "(string \<Rightarrow> nat \<Rightarrow> vec option) \<Rightarrow> bool" where
  "shaped C \<longleftrightarrow>
     (\<forall>n c. C ''dv_struct'' n = Some c \<longrightarrow> length c = n) \<and>
     (\<forall>k n. k \<noteq> ''dv_struct'' \<longrightarrow> C k n = C k 0)"

text \<open>A partial seed \<open>z\<close> fits \<open>d\<close> when its entry \<open>dv_struct\<close> is not shorter than the one of
  \<open>d\<close>, so that adding it keeps the size of the entry.\<close>

definition fits :: "dvecs \<Rightarrow> dvecs \<Rightarrow> bool" where
  "fits d z \<longleftrightarrow>
     (\<forall>old w. d ''dv_struct'' = Some old \<and> z ''dv_struct'' = Some w \<longrightarrow> length old \<le> length w)"

text \<open>One contribution, under one key.\<close>

definition contrib_at :: "string \<Rightarrow> (nat \<Rightarrow> vec) \<Rightarrow> string \<Rightarrow> nat \<Rightarrow> vec option" where
  "contrib_at key v k L = (if k = key then Some (v L) else None)"

text \<open>
  \<open>apply_linear\<close> in reverse mode. \<open>T_of\<close> is the engine state that the blocks for \<open>x_s0\<close> and
  \<open>dv_struct\<close> read: \<open>_update_internal\<close> has pushed the state after the boundary conditions,
  and the block \<open>if 'u_s' in d_outputs\<close> pushes the raw state again. \<open>m_of\<close> is the size of
  \<open>res_array\<close> when the loop over the nodes starts, \<open>d_out_update\<close> what the call does to
  \<open>d_outputs\<close>, and \<open>seed_update\<close> what it does to \<open>d_inputs\<close> when the loop has filled the
  buffer \<open>buf\<close>.
\<close>

definition T_of :: "('m, 'p) engine \<Rightarrow> inputs_S \<Rightarrow> outputs_S \<Rightarrow> dvecs \<Rightarrow> tacs_state" where
  "T_of E i out d_out =
     \<lparr>design_vars = dv_struct i, node_vec = x_s0 i,
      variables = (if d_out ''u_s'' = None then applyBCs E (u_s out) else u_s out)\<rparr>"

definition m_of ::
  "('m, 'p) engine \<Rightarrow> ('m, 'p) TacsSolver \<Rightarrow> inputs_S \<Rightarrow> outputs_S \<Rightarrow> dvecs \<Rightarrow> nat" where
  "m_of E s i out d_out =
     (if d_out ''u_s'' = None then length (res s)
      else length (applyBCs E (mat_mult E
             (assembleJacobian E ((tacs s)\<lparr>design_vars := dv_struct i, node_vec := x_s0 i\<rparr>))
             (u_s out))))"

definition d_out_update ::
  "('m, 'p) engine \<Rightarrow> ('m, 'p) TacsSolver \<Rightarrow> inputs_S \<Rightarrow> outputs_S \<Rightarrow> dvecs \<Rightarrow> dvecs" where
  "d_out_update E s i out d_out =
     (\<lambda>k. if k = ''u_s''
          then map_option (\<lambda>old. vadd old (applyBCs E (mat_mult E
             (assembleJacobian E ((tacs s)\<lparr>design_vars := dv_struct i, node_vec := x_s0 i\<rparr>))
             (u_s out)))) (d_out k)
          else d_out k)"

definition seed_update ::
  "('m, 'p) engine \<Rightarrow> tacs_state \<Rightarrow> nat \<Rightarrow> vec \<Rightarrow> vec \<Rightarrow> dvecs \<Rightarrow> dvecs" where
  "seed_update E T rk buf seed d =
     (\<lambda>k. if k = ''f_s'' then map_option (\<lambda>old. vsub old (applyBCs E buf)) (d k)
          else if k = ''x_s0''
            then map_option (\<lambda>old. vadd old (evalAdjointResXptSensProduct E T seed)) (d k)
          else if k = ''dv_struct''
            then map_option (\<lambda>old. if rk = 0
                   then vadd old (evalAdjointResProduct E T seed (length old)) else old) (d k)
          else d k)"

text \<open>The same update as a contribution map, the contributions of a call with the vector
  \<open>d_residuals\<close>, and the condition under which the loop over the nodes raises.\<close>

definition solver_contrib ::
  "('m, 'p) engine \<Rightarrow> tacs_state \<Rightarrow> nat \<Rightarrow> nat \<Rightarrow> nat \<Rightarrow> nat \<Rightarrow> vec
   \<Rightarrow> string \<Rightarrow> nat \<Rightarrow> vec option" where
  "solver_contrib E T rk nd n m seed k L =
     (if k = ''f_s''
      then (case load_seed_loop nd seed [0..<n] (zeros m) of
              Inl e \<Rightarrow> None
            | Inr buf \<Rightarrow> Some (map uminus (applyBCs E buf)))
      else if k = ''x_s0'' then Some (evalAdjointResXptSensProduct E T seed)
      else if k = ''dv_struct'' \<and> rk = 0 then Some (evalAdjointResProduct E T seed L)
      else None)"

definition solver_contribs ::
  "('m, 'p) engine \<Rightarrow> tacs_state \<Rightarrow> nat \<Rightarrow> nat \<Rightarrow> nat \<Rightarrow> nat \<Rightarrow> dvecs
   \<Rightarrow> (string \<Rightarrow> nat \<Rightarrow> vec option) list" where
  "solver_contribs E T rk nd n m r =
     (case r ''u_s'' of None \<Rightarrow> [] | Some seed \<Rightarrow> [solver_contrib E T rk nd n m seed])"

definition solver_bad :: "nat \<Rightarrow> nat \<Rightarrow> nat \<Rightarrow> dvecs \<Rightarrow> dvecs \<Rightarrow> bool" where
  "solver_bad nd n m r d =
     (case r ''u_s'' of
        None \<Rightarrow> False
      | Some seed \<Rightarrow> d ''f_s'' \<noteq> None \<and> isl (load_seed_loop nd seed [0..<n] (zeros m)))"

text \<open>
  \<open>compute_jacvec_product\<close> in reverse mode. \<open>TF_of\<close> is the engine state that the
  sensitivities are evaluated at. The block for \<open>mass\<close> adds two contributions, every pass
  of the loop over the functions adds three, scaled by \<open>d_outputs['f_struct'][ifunc]\<close>; the
  loop raises when \<open>d_inputs\<close> has one of the three keys and an index is past the end of
  the seed.
\<close>

definition TF_of :: "('m, 'p) engine \<Rightarrow> ('m, 'p) TacsFunctions \<Rightarrow> inputs_F \<Rightarrow> tacs_state" where
  "TF_of E c iF =
     (if check_partials_F c
      then \<lparr>design_vars = dv_struct_F iF, node_vec = x_s0_F iF,
            variables = applyBCs E (u_s_F iF)\<rparr>
      else tacs_F c)"

definition mass_contribs ::
  "('m, 'p) engine \<Rightarrow> tacs_state \<Rightarrow> dvecs \<Rightarrow> (string \<Rightarrow> nat \<Rightarrow> vec option) list" where
  "mass_contribs E T d_outputs =
     (case d_outputs ''mass'' of
        None \<Rightarrow> []
      | Some seed \<Rightarrow>
          [contrib_at ''dv_struct'' (\<lambda>L. np_mul (evalDVSens E T StructuralMass L) seed),
           contrib_at ''x_s0'' (\<lambda>L. np_mul (evalXptSens E T StructuralMass) seed)])"

definition step_contribs ::
  "('m, 'p) engine \<Rightarrow> tacs_state \<Rightarrow> real \<Rightarrow> func \<Rightarrow> (string \<Rightarrow> nat \<Rightarrow> vec option) list" where
  "step_contribs E T c f =
     [contrib_at ''dv_struct'' (\<lambda>L. scale (evalDVSens E T f L) c),
      contrib_at ''x_s0'' (\<lambda>L. scale (evalXptSens E T f) c),
      contrib_at ''u_s'' (\<lambda>L. scale (evalSVSens E T f) c)]"

definition loop_contribs ::
  "('m, 'p) engine \<Rightarrow> tacs_state \<Rightarrow> vec \<Rightarrow> (nat \<times> func) list
   \<Rightarrow> (string \<Rightarrow> nat \<Rightarrow> vec option) list" where
  "loop_contribs E T seed fs = concat (map (\<lambda>(i, f). step_contribs E T (seed ! i) f) fs)"

definition has_keys :: "dvecs \<Rightarrow> bool" where
  "has_keys d \<longleftrightarrow> d ''dv_struct'' \<noteq> None \<or> d ''x_s0'' \<noteq> None \<or> d ''u_s'' \<noteq> None"

definition loop_bad :: "vec \<Rightarrow> (nat \<times> func) list \<Rightarrow> dvecs \<Rightarrow> bool" where
  "loop_bad seed fs d \<longleftrightarrow> has_keys d \<and> list_ex (\<lambda>(i, f). \<not> i < length seed) fs"

definition functions_contribs ::
  "('m, 'p) engine \<Rightarrow> tacs_state \<Rightarrow> func list \<Rightarrow> dvecs
   \<Rightarrow> (string \<Rightarrow> nat \<Rightarrow> vec option) list" where
  "functions_contribs E T fns d_outputs =
     mass_contribs E T d_outputs @
     (case d_outputs ''f_struct'' of
        None \<Rightarrow> []
      | Some seed \<Rightarrow> loop_contribs E T seed (enumerate 0 fns))"

definition functions_bad :: "func list \<Rightarrow> dvecs \<Rightarrow> dvecs \<Rightarrow> bool" where
  "functions_bad fns d_outputs d =
     (case d_outputs ''f_struct'' of
        None \<Rightarrow> False
      | Some seed \<Rightarrow> loop_bad seed (enumerate 0 fns) d)"

section \<open>An engine to run the adapter on\<close>

text \<open>
  A small engine on which the definitions above can be evaluated: the matrix is
  diagonal with the design variables on its diagonal, the first degree of freedom is
  clamped, the solver divides by the diagonal, the mass is the sum of the design
  variables and every other function is the sum of the state variables.
\<close>

definition demo_engine :: "nat \<Rightarrow> nat \<Rightarrow> (vec, unit) engine" where
  "demo_engine state_size node_size =
     \<lparr>createVec_size = state_size,
      createNodeVec_size = node_size,
      applyBCs = (\<lambda>v. v[0 := 0]),
      assembleRes = (\<lambda>t. map2 (*) (design_vars t) (variables t)),
      assembleJacobian = (\<lambda>t. design_vars t),
      mat_mult = (\<lambda>m v. map2 (*) m v),
      pc_factor = (\<lambda>m. ()),
      gmres_solve = (\<lambda>m p b. map2 (/) b m),
      evalFunctions = (\<lambda>t fs. map (\<lambda>f. case f of
          StructuralMass \<Rightarrow> sum_list (design_vars t)
        | OtherFunction k \<Rightarrow> sum_list (variables t)) fs),
      evalDVSens = (\<lambda>t f n. case f of
          StructuralMass \<Rightarrow> replicate n 1
        | OtherFunction k \<Rightarrow> replicate n 0),
      evalXptSens = (\<lambda>t f. map (\<lambda>x. 0) (node_vec t)),
      evalSVSens = (\<lambda>t f. case f of
          StructuralMass \<Rightarrow> map (\<lambda>x. 0) (variables t)
        | OtherFunction k \<Rightarrow> map (\<lambda>x. 1) (variables t)),
      evalAdjointResProduct = (\<lambda>t psi n. replicate n (sum_list (map2 (*) psi (variables t)))),
      evalAdjointResXptSensProduct = (\<lambda>t psi. map (\<lambda>x. 0) (node_vec t))\<rparr>"

text \<open>
  A second engine, whose matrix couples the two degrees of freedom: the row of the
  clamped degree of freedom is the identity row, the other row is full. The solver
  substitutes forward.
\<close>

definition coupled_engine :: "(vec list, unit) engine" where
  "coupled_engine =
     \<lparr>createVec_size = 2,
      createNodeVec_size = 3,
      applyBCs = (\<lambda>v. v[0 := 0]),
      assembleRes = (\<lambda>t. map (\<lambda>row. sum_list (map2 (*) row (variables t))) [[1, 0], [1, 1]]),
      assembleJacobian = (\<lambda>t. [[1, 0], [1, 1]]),
      mat_mult = (\<lambda>m v. map (\<lambda>row. sum_list (map2 (*) row v)) m),
      pc_factor = (\<lambda>m. ()),
      gmres_solve = (\<lambda>m p b. case b of [b0, b1] \<Rightarrow> [b0, b1 - b0] | _ \<Rightarrow> b),
      evalFunctions = (\<lambda>t fs. map (\<lambda>f. 0) fs),
      evalDVSens = (\<lambda>t f n. replicate n 0),
      evalXptSens = (\<lambda>t f. map (\<lambda>x. 0) (node_vec t)),
      evalSVSens = (\<lambda>t f. map (\<lambda>x. 0) (variables t)),
      evalAdjointResProduct = (\<lambda>t psi n. replicate n 0),
      evalAdjointResXptSensProduct = (\<lambda>t psi. map (\<lambda>x. 0) (node_vec t))\<rparr>"

definition coupled_solver :: "(vec list, unit) TacsSolver" where
  "coupled_solver =
     \<lparr>tacs = \<lparr>design_vars = [1], node_vec = [0, 0, 0], variables = [0, 0]\<rparr>,
      mat = [[1, 0], [1, 1]], pc = (),
      res = [0, 0], force = [0, 0], ans = [0, 0], struct_rhs = [0, 0], psi_s = [0, 0],
      xpt_sens = [0, 0, 0], ndof = 2, rank = 0,
      write_f5 = True, check_partials = True, stdout = [], files = []\<rparr>"

definition demo_solver :: "nat \<Rightarrow> (vec, unit) TacsSolver" where
  "demo_solver r =
     \<lparr>tacs = \<lparr>design_vars = [2, 4], node_vec = [0, 0, 0], variables = [0, 0]\<rparr>,
      mat = [2, 4], pc = (),
      res = [0, 0], force = [0, 0], ans = [0, 0], struct_rhs = [0, 0], psi_s = [0, 0],
      xpt_sens = [0, 0, 0], ndof = 2, rank = r,
      write_f5 = True, check_partials = True, stdout = [], files = []\<rparr>"

text \<open>The component of a mesh of 3 nodes with 2 degrees of freedom per node, on one
  process: the state vectors have 6 entries and the node vectors 9.\<close>

definition three_node_solver :: "(vec, unit) TacsSolver" where
  "three_node_solver =
     \<lparr>tacs = \<lparr>design_vars = [1, 1, 1, 1, 1, 1], node_vec = [0, 0, 0, 0, 0, 0, 0, 0, 0],
               variables = [0, 0, 0, 0, 0, 0]\<rparr>,
      mat = [1, 1, 1, 1, 1, 1], pc = (),
      res = [0, 0, 0, 0, 0, 0], force = [0, 0, 0, 0, 0, 0], ans = [0, 0, 0, 0, 0, 0],
      struct_rhs = [0, 0, 0, 0, 0, 0], psi_s = [0, 0, 0, 0, 0, 0],
      xpt_sens = [0, 0, 0, 0, 0, 0, 0, 0, 0], ndof = 2, rank = 0,
      write_f5 = True, check_partials = True, stdout = [], files = []\<rparr>"

section \<open>Index ranges partition the global vector\<close>

lemma rank_range_fst: "fst (rank_range ss r) = sum_list (take r ss)"
  by (simp add: rank_range_def np_sum_def)

lemma rank_range_snd:
  "r < length ss \<Longrightarrow> snd (rank_range ss r) = sum_list (take r ss) + ss ! r"
  by (simp add: rank_range_def np_sum_def take_Suc_conv_app_nth)

lemma sum_list_take_mono:
  "i \<le> j \<Longrightarrow> sum_list (take i ss) \<le> sum_list (take j (ss :: nat list))"
proof (induction ss arbitrary: i j)
  case Nil
  then show ?case by simp
next
  case (Cons a ss)
  show ?case
  proof (cases i)
    case 0
    then show ?thesis by simp
  next
    case (Suc i')
    with Cons.prems obtain j' where j: "j = Suc j'" and "i' \<le> j'"
      by (cases j) auto
    with Cons.IH [of i' j'] Suc show ?thesis by simp
  qed
qed

lemma src_indices_set:
  "r < length ss \<Longrightarrow>
   set (src_indices ss r) = {sum_list (take r ss) ..< sum_list (take r ss) + ss ! r}"
  by (simp add: src_indices_def rank_range_def np_sum_def np_arange_def
      take_Suc_conv_app_nth)

lemma src_indices_disjoint:
  assumes "r < r'" "r' < length ss"
  shows "set (src_indices ss r) \<inter> set (src_indices ss r') = {}"
proof -
  from assms have r: "r < length ss" by simp
  have "sum_list (take (Suc r) ss) \<le> sum_list (take r' ss)"
    using assms by (intro sum_list_take_mono) simp
  then have "sum_list (take r ss) + ss ! r \<le> sum_list (take r' ss)"
    using r by (simp add: take_Suc_conv_app_nth)
  then show ?thesis
    using r assms(2) by (auto simp: src_indices_set)
qed

lemma concat_src_indices_upto:
  "n \<le> length ss \<Longrightarrow>
   concat (map (src_indices ss) [0..<n]) = [0..<sum_list (take n ss)]"
proof (induction n)
  case 0
  then show ?case by simp
next
  case (Suc n)
  then have n: "n < length ss" by simp
  have "src_indices ss n = [sum_list (take n ss) ..< sum_list (take (Suc n) ss)]"
    by (simp add: src_indices_def rank_range_def np_sum_def np_arange_def)
  moreover have "sum_list (take (Suc n) ss) = sum_list (take n ss) + ss ! n"
    using n by (simp add: take_Suc_conv_app_nth)
  moreover have "[0..<sum_list (take n ss) + ss ! n]
      = [0..<sum_list (take n ss)] @ [sum_list (take n ss)..<sum_list (take n ss) + ss ! n]"
    by (rule upt_add_eq_append) simp
  ultimately show ?case
    using Suc n by simp
qed

text \<open>
  C1. For every number of ranks and every list of local sizes, the \<open>(start, end)\<close> pairs
  computed in \<open>setup\<close> are contiguous ranges of the local size, start at 0 on rank 0, each
  begin where the range of the previous rank ends, are pairwise disjoint, and, read in the
  order of the rank ids, enumerate \<open>[0, sum of the sizes)\<close>, every index exactly once.
\<close>

theorem setup_ranges_partition:
  "(\<forall>r < length ss.
      fst (rank_range ss r) \<le> snd (rank_range ss r) \<and>
      snd (rank_range ss r) - fst (rank_range ss r) = ss ! r \<and>
      length (src_indices ss r) = ss ! r) \<and>
   fst (rank_range ss 0) = 0 \<and>
   (\<forall>r. Suc r < length ss \<longrightarrow> fst (rank_range ss (Suc r)) = snd (rank_range ss r)) \<and>
   (\<forall>r < length ss. \<forall>r' < length ss. r \<noteq> r' \<longrightarrow>
      set (src_indices ss r) \<inter> set (src_indices ss r') = {}) \<and>
   concat (map (src_indices ss) [0..<length ss]) = [0..<np_sum ss] \<and>
   (\<Union>r < length ss. set (src_indices ss r)) = {0..<np_sum ss}"
proof (intro conjI allI impI)
  fix r assume r: "r < length ss"
  show "fst (rank_range ss r) \<le> snd (rank_range ss r)"
    using r by (simp add: rank_range_fst rank_range_snd)
  show "snd (rank_range ss r) - fst (rank_range ss r) = ss ! r"
    using r by (simp add: rank_range_fst rank_range_snd)
  show "length (src_indices ss r) = ss ! r"
    using r by (simp add: src_indices_def rank_range_def np_sum_def np_arange_def
        take_Suc_conv_app_nth)
next
  show "fst (rank_range ss 0) = 0"
    by (simp add: rank_range_fst)
next
  fix r assume "Suc r < length ss"
  then show "fst (rank_range ss (Suc r)) = snd (rank_range ss r)"
    by (simp add: rank_range_fst rank_range_snd take_Suc_conv_app_nth)
next
  fix r r' assume "r < length ss" "r' < length ss" "r \<noteq> r'"
  then consider "r < r'" | "r' < r" by linarith
  then show "set (src_indices ss r) \<inter> set (src_indices ss r') = {}"
  proof cases
    case 1
    then show ?thesis using \<open>r' < length ss\<close> by (rule src_indices_disjoint)
  next
    case 2
    then have "set (src_indices ss r') \<inter> set (src_indices ss r) = {}"
      using \<open>r < length ss\<close> by (rule src_indices_disjoint)
    then show ?thesis by blast
  qed
next
  show c: "concat (map (src_indices ss) [0..<length ss]) = [0..<np_sum ss]"
    using concat_src_indices_upto [of "length ss" ss] by (simp add: np_sum_def)
  have "(\<Union>r < length ss. set (src_indices ss r))
        = set (concat (map (src_indices ss) [0..<length ss]))"
    by auto
  then show "(\<Union>r < length ss. set (src_indices ss r)) = {0..<np_sum ss}"
    by (simp only: c set_upt)
qed

theorem setup_ranges_partition_witness:
  "rank_range [2, 0, 3] 0 = (0, 2) \<and> rank_range [2, 0, 3] 1 = (2, 2) \<and>
   rank_range [2, 0, 3] 2 = (2, 5) \<and>
   set (src_indices [2, 0, 3] 0) \<inter> set (src_indices [2, 0, 3] 2) = {} \<and>
   concat (map (src_indices [2, 0, 3]) [0..<length [2, 0, 3 :: nat]]) = [0, 1, 2, 3, 4]"
proof -
  have d: "(0::nat) < length [2, 0, 3 :: nat]" "(2::nat) < length [2, 0, 3 :: nat]"
    "(0::nat) \<noteq> 2"
    by simp_all
  have "set (src_indices [2, 0, 3] 0) \<inter> set (src_indices [2, 0, 3] 2) = {}"
    using setup_ranges_partition [of "[2, 0, 3]"] d by blast
  moreover have "concat (map (src_indices [2, 0, 3]) [0..<length [2, 0, 3 :: nat]])
      = [0..<np_sum [2, 0, 3]]"
    using setup_ranges_partition [of "[2, 0, 3]"] by blast
  moreover have "[0..<np_sum [2, 0, 3]] = [0, 1, 2, 3, 4]"
    by (simp add: np_sum_def upt_rec)
  moreover have "rank_range [2, 0, 3] 0 = (0, 2)" "rank_range [2, 0, 3] 1 = (2, 2)"
    "rank_range [2, 0, 3] 2 = (2, 5)"
    by (simp_all add: rank_range_def np_sum_def)
  ultimately show ?thesis by simp
qed

section \<open>Rounding to double precision and the degrees of freedom per node\<close>

lemma round_half_even_of_int [simp]: "round_half_even (of_int m) = m"
  by (simp add: round_half_even_def)

lemma pow2_pos [simp]: "0 < pow2 e"
  by (simp add: pow2_def)


lemma exponent_of_int_le:
  assumes "0 < m" "m < 2 ^ 53"
  shows "exponent (of_int m) \<le> 52"
proof -
  have "2 ^ nat (bitlen m - 1) \<le> m" using bitlen_bounds [OF assms(1)] by simp
  with assms(2) have "(2::int) ^ nat (bitlen m - 1) < 2 ^ 53" by linarith
  then have "nat (bitlen m - 1) < 53"
    by (rule power_less_imp_less_exp [rotated]) simp
  then have "bitlen m - 1 \<le> 52" by linarith
  moreover have "bitlen 1 = 1" by (simp add: bitlen_alt_def)
  ultimately show ?thesis
    by (simp add: exponent_def Let_def)
qed

lemma fl_of_int:
  assumes "0 \<le> m" "m < 2 ^ 53"
  shows "fl (of_int m) = of_int m"
proof (cases "m = 0")
  case True
  then show ?thesis by (simp add: fl_def)
next
  case False
  with assms have pos: "0 < m" by simp
  define k where "k = nat (52 - exponent (of_int m))"
  have e: "exponent (of_int m) - 52 \<le> 0"
    using exponent_of_int_le [OF pos assms(2)] by simp
  have u: "pow2 (exponent (of_int m) - 52) = 1 / 2 ^ k"
  proof (cases "exponent (of_int m) - 52 = 0")
    case True
    then show ?thesis by (simp add: pow2_def k_def)
  next
    case False
    with e have "exponent (of_int m) - 52 < 0" by simp
    then show ?thesis by (simp add: pow2_def k_def)
  qed
  have "of_int m / (1 / 2 ^ k) = (of_int (m * 2 ^ k) :: rat)" by simp
  then have r: "round_half_even (of_int m / (1 / 2 ^ k)) = m * 2 ^ k"
    by (simp only: round_half_even_of_int)
  have a: "\<bar>of_int m :: rat\<bar> = of_int m" using pos by simp
  have s: "sgn (of_int m :: rat) = 1" using pos by simp
  have nz: "(of_int m :: rat) \<noteq> 0" using pos by simp
  show ?thesis
    unfolding fl_def Let_def a u r s using nz by simp
qed

lemma fl_of_nat: "n < 2 ^ 53 \<Longrightarrow> fl (of_nat n) = of_nat n"
  using fl_of_int [of "int n"] by simp


lemma pow2_powi: "pow2 e = power_int 2 e"
  by (simp add: pow2_def power_int_def inverse_eq_divide power_one_over)

lemma exponent_lower:
  assumes "0 < q"
  shows "pow2 (exponent q) \<le> q"
proof -
  obtain a b where ab: "quotient_of q = (a, b)" by (cases "quotient_of q")
  then have b: "0 < b" by (rule quotient_of_denom_pos)
  have q: "q = of_int a / of_int b" using ab by (rule quotient_of_div)
  with assms b have a: "0 < a" by (simp add: zero_less_divide_iff)
  define d where "d = bitlen a - bitlen b"
  show ?thesis
  proof (cases "pow2 d \<le> q")
    case True
    then show ?thesis by (simp add: exponent_def ab d_def Let_def)
  next
    case False
    then have e: "exponent q = d - 1" by (simp add: exponent_def ab d_def Let_def)
    have la: "1 \<le> bitlen a" and lb: "1 \<le> bitlen b"
      using a b by (simp_all add: bitlen_alt_def)
    have "(2::int) ^ nat (bitlen a - 1) \<le> a" using bitlen_bounds [OF a] by simp
    then have "(of_int ((2::int) ^ nat (bitlen a - 1)) :: rat) \<le> of_int a"
      by (simp only: of_int_le_iff)
    then have 1: "pow2 (bitlen a - 1) \<le> of_int a" using la by (simp add: pow2_def)
    have "b < 2 ^ nat (bitlen b)" using bitlen_bounds [OF b] by simp
    then have "(of_int b :: rat) < of_int ((2::int) ^ nat (bitlen b))"
      by (simp only: of_int_less_iff)
    then have 2: "of_int b \<le> pow2 (bitlen b)" using lb by (simp add: pow2_def)
    have "pow2 (d - 1) = pow2 (bitlen a - 1) / pow2 (bitlen b)"
      by (simp add: pow2_powi d_def power_int_diff [symmetric] algebra_simps)
    also have "\<dots> \<le> of_int a / pow2 (bitlen b)"
      using 1 by (rule divide_right_mono) (rule less_imp_le [OF pow2_pos])
    also have "\<dots> \<le> of_int a / of_int b"
      using 2 a b by (simp add: divide_left_mono)
    finally show ?thesis using e q by simp
  qed
qed

lemma round_half_even_ge: "\<lfloor>q\<rfloor> \<le> round_half_even q"
  by (simp add: round_half_even_def Let_def)

lemma fl_pos:
  assumes "0 < q"
  shows "0 < fl q"
proof -
  define e where "e = exponent q"
  have "pow2 e \<le> q" unfolding e_def using assms by (rule exponent_lower)
  then have "pow2 e / pow2 (e - 52) \<le> q / pow2 (e - 52)"
    by (rule divide_right_mono) (rule less_imp_le [OF pow2_pos])
  moreover have "pow2 e / pow2 (e - 52) = 2 ^ 52"
    by (simp add: pow2_powi power_int_diff [symmetric])
  ultimately have "(2::rat) ^ 52 \<le> q / pow2 (e - 52)" by (simp only:)
  moreover have "(1::rat) \<le> 2 ^ 52" by simp
  ultimately have "(1::rat) \<le> q / pow2 (e - 52)" by (rule order_trans [rotated])
  then have "1 \<le> \<lfloor>q / pow2 (e - 52)\<rfloor>" by (simp add: le_floor_iff)
  with round_half_even_ge [of "q / pow2 (e - 52)"]
  have "0 < round_half_even (q / pow2 (e - 52))" by linarith
  then show ?thesis
    using assms by (simp add: fl_def Let_def e_def)
qed

lemma py_ndof_error_iff:
  "py_ndof state_size node_size = Inl err \<longleftrightarrow> err = ZeroDivisionError \<and> node_size = 0"
proof (cases "node_size = 0")
  case True
  then show ?thesis by (auto simp: py_ndof_def fl_def)
next
  case False
  then have "0 < fl (of_nat node_size / 3)" by (intro fl_pos) simp
  with False show ?thesis by (simp add: py_ndof_def Let_def)
qed

lemma py_ndof_exact:
  assumes "3 dvd node_size" "0 < node_size" "(node_size div 3) dvd state_size"
    and "state_size < 2 ^ 53" "node_size < 2 ^ 53"
  shows "py_ndof state_size node_size = Inr (state_size div (node_size div 3))"
proof -
  from assms(1) obtain k where k: "node_size = 3 * k" by (elim dvdE)
  with assms(2) have kpos: "0 < k" by simp
  from assms(3) k obtain j where j: "state_size = k * j" by (auto elim: dvdE)
  have klt: "k < 2 ^ 53" using k assms(5) by simp
  have jlt: "j < 2 ^ 53"
  proof -
    have "j \<le> k * j" using kpos by simp
    also have "\<dots> < 2 ^ 53" using j assms(4) by (simp only:)
    finally show ?thesis .
  qed
  have d: "fl (of_nat node_size / 3) = of_nat k"
    using fl_of_nat [OF klt] by (simp add: k)
  have s: "fl (of_nat state_size) = of_nat state_size"
    using assms(4) by (rule fl_of_nat)
  have "(of_nat state_size :: rat) / of_nat k = of_nat j"
    using kpos by (simp add: j)
  then have "fl (fl (of_nat state_size) / fl (of_nat node_size / 3)) = of_nat j"
    using fl_of_nat [OF jlt] by (simp add: d s)
  moreover have "state_size div (node_size div 3) = j"
    using kpos by (simp add: j k)
  ultimately show ?thesis
    using kpos by (simp add: py_ndof_def Let_def d)
qed

text \<open>
  C3, as the code has it. \<open>PrescribedLoad.setup\<close> has no check of the sizes: it fails only
  when the node size is 0, with the \<open>ZeroDivisionError\<close> of the float division, and
  otherwise sets \<open>ndof\<close> to the truncated double-precision quotient
  \<open>int(state_size / (node_size / 3))\<close>, whether or not the sizes divide. When the node size is
  a positive multiple of 3 and a third of it divides the state size (both sizes below
  \<open>2^53\<close>), that quotient is exactly \<open>state_size / (node_size / 3)\<close>.
\<close>

theorem setup_P_ndof:
  "setup_P E n_list irank =
     (if createNodeVec_size E = 0 then Inl ZeroDivisionError
      else Inr (\<lparr>ndof_P = nat \<lfloor>fl (fl (of_nat (createVec_size E))
                                  / fl (of_nat (createNodeVec_size E) / 3))\<rfloor>\<rparr>,
                src_indices n_list irank)) \<and>
   (3 dvd createNodeVec_size E \<and> 0 < createNodeVec_size E \<and>
    (createNodeVec_size E div 3) dvd createVec_size E \<and>
    createVec_size E < 2 ^ 53 \<and> createNodeVec_size E < 2 ^ 53 \<longrightarrow>
    setup_P E n_list irank =
      Inr (\<lparr>ndof_P = createVec_size E div (createNodeVec_size E div 3)\<rparr>,
           src_indices n_list irank))"
proof (intro conjI impI)
  show "setup_P E n_list irank =
     (if createNodeVec_size E = 0 then Inl ZeroDivisionError
      else Inr (\<lparr>ndof_P = nat \<lfloor>fl (fl (of_nat (createVec_size E))
                                  / fl (of_nat (createNodeVec_size E) / 3))\<rfloor>\<rparr>,
                src_indices n_list irank))"
  proof (cases "createNodeVec_size E = 0")
    case True
    then show ?thesis by (simp add: setup_P_def py_ndof_def fl_def)
  next
    case False
    then have "0 < fl (of_nat (createNodeVec_size E) / 3)" by (intro fl_pos) simp
    with False show ?thesis by (simp add: setup_P_def py_ndof_def Let_def)
  qed
next
  assume "3 dvd createNodeVec_size E \<and> 0 < createNodeVec_size E \<and>
    (createNodeVec_size E div 3) dvd createVec_size E \<and>
    createVec_size E < 2 ^ 53 \<and> createNodeVec_size E < 2 ^ 53"
  then have "py_ndof (createVec_size E) (createNodeVec_size E)
      = Inr (createVec_size E div (createNodeVec_size E div 3))"
    by (intro py_ndof_exact) simp_all
  then show "setup_P E n_list irank =
      Inr (\<lparr>ndof_P = createVec_size E div (createNodeVec_size E div 3)\<rparr>,
           src_indices n_list irank)"
    by (simp add: setup_P_def)
qed

theorem setup_P_ndof_witness:
  "setup_P (demo_engine 18 9) [9] 0 = Inr (\<lparr>ndof_P = 6\<rparr>, [0, 1, 2, 3, 4, 5, 6, 7, 8])"
proof -
  have "3 dvd createNodeVec_size (demo_engine 18 9) \<and>
    0 < createNodeVec_size (demo_engine 18 9) \<and>
    (createNodeVec_size (demo_engine 18 9) div 3) dvd createVec_size (demo_engine 18 9) \<and>
    createVec_size (demo_engine 18 9) < 2 ^ 53 \<and>
    createNodeVec_size (demo_engine 18 9) < 2 ^ 53"
    by (simp add: demo_engine_def)
  with setup_P_ndof [of "demo_engine 18 9" "[9]" 0]
  have "setup_P (demo_engine 18 9) [9] 0 =
      Inr (\<lparr>ndof_P = createVec_size (demo_engine 18 9)
                 div (createNodeVec_size (demo_engine 18 9) div 3)\<rparr>,
           src_indices [9] 0)"
    by blast
  moreover have "src_indices [9] 0 = [0, 1, 2, 3, 4, 5, 6, 7, 8]"
    by (simp add: src_indices_def rank_range_def np_sum_def np_arange_def upt_rec)
  ultimately show ?thesis by (simp add: demo_engine_def)
qed

text \<open>The claim of C3 fails at node size 10 and state size 20: 10 is not a multiple of 3,
  and \<open>setup\<close> completes with \<open>ndof = 6\<close>. At node size 7 and state size 35, where the exact
  quotient is 15, the double-precision quotient is truncated to 14.\<close>

theorem setup_P_no_configuration_error:
  "\<not> 3 dvd (10::nat) \<and>
   setup_P (demo_engine 20 10) [10] 0 = Inr (\<lparr>ndof_P = 6\<rparr>, [0, 1, 2, 3, 4, 5, 6, 7, 8, 9]) \<and>
   setup_P (demo_engine 35 7) [7] 0 = Inr (\<lparr>ndof_P = 14\<rparr>, [0, 1, 2, 3, 4, 5, 6])"
proof -
  have a: "py_ndof 20 10 = Inr 6" by code_simp
  have b: "py_ndof 35 7 = Inr 14" by code_simp
  have c: "src_indices [10] 0 = [0, 1, 2, 3, 4, 5, 6, 7, 8, 9]"
    "src_indices [7] 0 = [0, 1, 2, 3, 4, 5, 6]"
    by (simp_all add: src_indices_def rank_range_def np_sum_def np_arange_def upt_rec)
  show ?thesis
    by (simp add: setup_P_def demo_engine_def a b c)
qed

section \<open>Forward mode\<close>

lemma setup_S_demo:
  "setup_S (demo_engine 2 3)
      \<lparr>design_vars = [2, 4], node_vec = [0, 0, 0], variables = [0, 0]\<rparr> [2, 4] () [2] [3] 0
    = Inr (demo_solver 0, [0, 1, 2], [0, 1])"
proof -
  have a: "py_ndof 2 3 = Inr 2" by code_simp
  have c: "src_indices [3] 0 = [0, 1, 2]" "src_indices [2] 0 = [0, 1]"
    by (simp_all add: src_indices_def rank_range_def np_sum_def np_arange_def upt_rec)
  have z: "zeros 2 = [0, 0]" "zeros 3 = [0, 0, 0]"
    by (simp_all add: zeros_def numeral_2_eq_2 numeral_3_eq_3)
  show ?thesis
    by (simp add: setup_S_def demo_engine_def demo_solver_def a c z)
qed

text \<open>
  C4, as the code has it. A forward-mode call raises (\<open>ValueError\<close>, "forward mode requested
  but not implemented") only when the flag \<open>check_partials\<close> of the component is off. With
  the flag on, which is what \<open>initialize\<close> sets, the call returns without a derivative:
  \<open>solve_linear\<close> prints \<open>solver fwd\<close> and leaves \<open>d_residuals\<close> as it was, \<open>apply_linear\<close>
  refreshes the engine and leaves \<open>d_inputs\<close> and \<open>d_outputs\<close> as they were, and
  \<open>compute_jacvec_product\<close> changes nothing.
\<close>

theorem forward_mode_gated:
  "solve_linear E s d_out d_res ''fwd'' =
     (if check_partials s then Inr (s\<lparr>stdout := stdout s @ [''solver fwd'']\<rparr>, d_res)
      else Inl ValueError) \<and>
   apply_linear E s i out d_in d_out d_res ''fwd'' =
     (if check_partials s then Inr (update_internal E s i (Some out), d_in, d_out)
      else Inl ValueError) \<and>
   compute_jacvec_product E c iF d_in d_out ''fwd'' =
     (if check_partials_F c then Inr (c, d_in) else Inl ValueError)"
  by (simp add: solve_linear_def apply_linear_def compute_jacvec_product_def
      update_internal_def Let_def)

theorem forward_mode_gated_witness:
  "solve_linear (demo_engine 2 3) ((demo_solver 0)\<lparr>check_partials := False\<rparr>)
      [''u_s'' \<mapsto> [1, 1]] Map.empty ''fwd'' = Inl ValueError \<and>
   apply_linear (demo_engine 2 3) ((demo_solver 0)\<lparr>check_partials := False\<rparr>)
      \<lparr>dv_struct = [2, 4], x_s0 = [0, 0, 0], f_s = [6, 8]\<rparr> \<lparr>u_s = [0, 2]\<rparr>
      [''f_s'' \<mapsto> [0, 0]] [''u_s'' \<mapsto> [1, 1]] [''u_s'' \<mapsto> [1, 1]] ''fwd'' = Inl ValueError"
  using forward_mode_gated [of "demo_engine 2 3" "(demo_solver 0)\<lparr>check_partials := False\<rparr>"
      "[''u_s'' \<mapsto> [1, 1]]" Map.empty
      "\<lparr>dv_struct = [2, 4], x_s0 = [0, 0, 0], f_s = [6, 8]\<rparr>" "\<lparr>u_s = [0, 2]\<rparr>"
      "[''f_s'' \<mapsto> [0, 0]]"]
    forward_mode_gated [of "demo_engine 2 3" "(demo_solver 0)\<lparr>check_partials := False\<rparr>"
      "[''u_s'' \<mapsto> [1, 1]]" "[''u_s'' \<mapsto> [1, 1]]"
      "\<lparr>dv_struct = [2, 4], x_s0 = [0, 0, 0], f_s = [6, 8]\<rparr>" "\<lparr>u_s = [0, 2]\<rparr>"
      "[''f_s'' \<mapsto> [0, 0]]"]
  by (simp add: demo_solver_def)

text \<open>The claim of C4 fails on the component that \<open>setup\<close> builds: its flag
  \<open>check_partials\<close> is on, and both forward-mode calls return normally, with no derivative
  computed.\<close>

theorem forward_mode_returns_silently:
  "setup_S (demo_engine 2 3)
      \<lparr>design_vars = [2, 4], node_vec = [0, 0, 0], variables = [0, 0]\<rparr> [2, 4] () [2] [3] 0
    = Inr (demo_solver 0, [0, 1, 2], [0, 1]) \<and>
   solve_linear (demo_engine 2 3) (demo_solver 0) [''u_s'' \<mapsto> [1, 1]] Map.empty ''fwd''
    = Inr ((demo_solver 0)\<lparr>stdout := [''solver fwd'']\<rparr>, Map.empty) \<and>
   apply_linear (demo_engine 2 3) (demo_solver 0)
      \<lparr>dv_struct = [2, 4], x_s0 = [0, 0, 0], f_s = [6, 8]\<rparr> \<lparr>u_s = [0, 2]\<rparr>
      [''f_s'' \<mapsto> [0, 0]] [''u_s'' \<mapsto> [1, 1]] [''u_s'' \<mapsto> [1, 1]] ''fwd''
    = Inr ((demo_solver 0)\<lparr>tacs := \<lparr>design_vars = [2, 4], node_vec = [0, 0, 0],
                                       variables = [0, 2]\<rparr>, ans := [0, 2]\<rparr>,
           [''f_s'' \<mapsto> [0, 0]], [''u_s'' \<mapsto> [1, 1]])"
proof (intro conjI)
  show "setup_S (demo_engine 2 3)
      \<lparr>design_vars = [2, 4], node_vec = [0, 0, 0], variables = [0, 0]\<rparr> [2, 4] () [2] [3] 0
    = Inr (demo_solver 0, [0, 1, 2], [0, 1])"
    by (rule setup_S_demo)
  show "solve_linear (demo_engine 2 3) (demo_solver 0) [''u_s'' \<mapsto> [1, 1]] Map.empty ''fwd''
    = Inr ((demo_solver 0)\<lparr>stdout := [''solver fwd'']\<rparr>, Map.empty)"
    by (simp add: solve_linear_def demo_solver_def)
  show "apply_linear (demo_engine 2 3) (demo_solver 0)
      \<lparr>dv_struct = [2, 4], x_s0 = [0, 0, 0], f_s = [6, 8]\<rparr> \<lparr>u_s = [0, 2]\<rparr>
      [''f_s'' \<mapsto> [0, 0]] [''u_s'' \<mapsto> [1, 1]] [''u_s'' \<mapsto> [1, 1]] ''fwd''
    = Inr ((demo_solver 0)\<lparr>tacs := \<lparr>design_vars = [2, 4], node_vec = [0, 0, 0],
                                       variables = [0, 2]\<rparr>, ans := [0, 2]\<rparr>,
           [''f_s'' \<mapsto> [0, 0]], [''u_s'' \<mapsto> [1, 1]])"
    by (simp add: apply_linear_def update_internal_def demo_solver_def demo_engine_def Let_def)
qed

section \<open>Reverse mode of \<open>TacsSolver.apply_linear\<close>\<close>

text \<open>
  C10. In reverse mode, when \<open>d_residuals\<close> has no entry \<open>u_s\<close>, \<open>apply_linear\<close> returns
  \<open>d_inputs\<close> and \<open>d_outputs\<close> as it received them; only the engine is refreshed by
  \<open>_update_internal\<close>.
\<close>

theorem apply_linear_without_state_seed:
  "d_res ''u_s'' = None \<Longrightarrow>
   apply_linear E s i out d_in d_out d_res ''rev'' =
     Inr (update_internal E s i (Some out), d_in, d_out)"
  by (simp add: apply_linear_def Let_def)

theorem apply_linear_without_state_seed_witness:
  "apply_linear (demo_engine 2 3) (demo_solver 0)
      \<lparr>dv_struct = [2, 4], x_s0 = [0, 0, 0], f_s = [6, 8]\<rparr> \<lparr>u_s = [0, 2]\<rparr>
      [''f_s'' \<mapsto> [5, 5], ''dv_struct'' \<mapsto> [7, 7]] [''u_s'' \<mapsto> [1, 1]]
      [''other'' \<mapsto> [1, 1]] ''rev''
    = Inr ((demo_solver 0)\<lparr>tacs := \<lparr>design_vars = [2, 4], node_vec = [0, 0, 0],
                                       variables = [0, 2]\<rparr>, ans := [0, 2]\<rparr>,
           [''f_s'' \<mapsto> [5, 5], ''dv_struct'' \<mapsto> [7, 7]], [''u_s'' \<mapsto> [1, 1]])"
proof -
  have h: "[''other'' \<mapsto> [1, 1 :: real]] ''u_s'' = None" by simp
  show ?thesis
    using apply_linear_without_state_seed [where d_res = "[''other'' \<mapsto> [1, 1]]"
        and E = "demo_engine 2 3" and s = "demo_solver 0"
        and i = "\<lparr>dv_struct = [2, 4], x_s0 = [0, 0, 0], f_s = [6, 8]\<rparr>"
        and out = "\<lparr>u_s = [0, 2]\<rparr>"
        and d_in = "[''f_s'' \<mapsto> [5, 5], ''dv_struct'' \<mapsto> [7, 7]]"
        and d_out = "[''u_s'' \<mapsto> [1, 1]]", OF h]
    by (simp add: update_internal_def demo_solver_def demo_engine_def Let_def)
qed

lemma apply_linear_rank:
  assumes "apply_linear E s i out d_in d_out d_res ''rev'' = Inr (s', d_in', d_out')"
    and "d_res ''u_s'' = Some seed" and "d_in ''dv_struct'' = Some old"
  shows "\<exists>s'' d_in''. apply_linear E (s\<lparr>rank := r\<rparr>) i out d_in d_out d_res ''rev''
            = Inr (s'', d_in'', d_out') \<and>
          d_in'' ''dv_struct'' = Some (if r = 0 then vadd old
     (evalAdjointResProduct E
        ((tacs s)\<lparr>design_vars := dv_struct i, node_vec := x_s0 i,
           variables := (if d_out ''u_s'' = None then applyBCs E (u_s out) else u_s out)\<rparr>)
        seed (length old)) else old)"
  using assms
  by (auto simp add: apply_linear_def rev_d_outputs_def rev_f_s_def rev_x_s0_def
      rev_dv_struct_def update_internal_def Let_def
      split: option.splits sum.splits prod.splits if_splits)

lemma map_upt_head_const:
  assumes "0 < R" "\<And>r. 0 < r \<Longrightarrow> r < R \<Longrightarrow> f r = y"
  shows "map f [0..<R] = f 0 # replicate (R - 1) y"
proof -
  have "[0..<R] = 0 # [1..<R]" using assms(1) by (simp add: upt_conv_Cons)
  moreover have "map f [1..<R] = replicate (R - 1) y"
    using assms(2) by (intro nth_equalityI) auto
  ultimately show ?thesis by simp
qed

text \<open>
  C7. When the reverse-mode call returns and \<open>d_inputs\<close> has the entry \<open>dv_struct\<close>, the
  product \<open>P\<close> that the engine's \<open>evalAdjointResProduct\<close> computes from the state seed is
  added to that entry as it is, without a factor, on rank 0, and the entry is left as it
  was on every other rank: over the ranks \<open>0, ..., R - 1\<close> of a communicator the product
  is added exactly once.
\<close>

theorem design_seed_on_rank_0:
  assumes "apply_linear E s i out d_in d_out d_res ''rev'' = Inr (s', d_in', d_out')"
    and "d_res ''u_s'' = Some seed" and "d_in ''dv_struct'' = Some old"
    and "P = evalAdjointResProduct E
        ((tacs s)\<lparr>design_vars := dv_struct i, node_vec := x_s0 i,
           variables := (if d_out ''u_s'' = None then applyBCs E (u_s out) else u_s out)\<rparr>)
        seed (length old)"
  shows "d_in' ''dv_struct'' = Some (if rank s = 0 then vadd old P else old) \<and>
    (\<forall>r. d_inputs_after (apply_linear E (s\<lparr>rank := r\<rparr>) i out d_in d_out d_res ''rev'')
            ''dv_struct'' = Some (if r = 0 then vadd old P else old)) \<and>
    (0 < R \<longrightarrow>
       map (\<lambda>r. d_inputs_after (apply_linear E (s\<lparr>rank := r\<rparr>) i out d_in d_out d_res ''rev'')
            ''dv_struct'') [0..<R]
       = Some (vadd old P) # replicate (R - 1) (Some old))"
proof -
  have all: "d_inputs_after (apply_linear E (s\<lparr>rank := r\<rparr>) i out d_in d_out d_res ''rev'')
            ''dv_struct'' = Some (if r = 0 then vadd old P else old)" for r
    using apply_linear_rank [OF assms(1-3), of r] assms(4)
    by (auto simp: d_inputs_after_def)
  have "s\<lparr>rank := rank s\<rparr> = s" by simp
  with all [of "rank s"] assms(1)
  have one: "d_in' ''dv_struct'' = Some (if rank s = 0 then vadd old P else old)"
    by (simp add: d_inputs_after_def)
  have many: "map (\<lambda>r. d_inputs_after (apply_linear E (s\<lparr>rank := r\<rparr>) i out d_in d_out d_res ''rev'')
            ''dv_struct'') [0..<R]
       = Some (vadd old P) # replicate (R - 1) (Some old)" if "0 < R"
    using that by (subst map_upt_head_const [where y = "Some old"]) (simp_all add: all)
  from one all many show ?thesis by blast
qed

theorem design_seed_on_rank_0_witness:
  "map (\<lambda>r. d_inputs_after
        (apply_linear (demo_engine 2 3) ((demo_solver 0)\<lparr>rank := r\<rparr>)
           \<lparr>dv_struct = [2, 4], x_s0 = [0, 0, 0], f_s = [6, 8]\<rparr> \<lparr>u_s = [0, 2]\<rparr>
           [''dv_struct'' \<mapsto> [7, 7]] Map.empty [''u_s'' \<mapsto> [1, 1]] ''rev'')
        ''dv_struct'') [0..<3]
   = [Some [9, 9], Some [7, 7], Some [7, 7]]"
proof -
  let ?E = "demo_engine 2 3" and ?s = "demo_solver 0"
  let ?i = "\<lparr>dv_struct = [2, 4], x_s0 = [0, 0, 0], f_s = [6, 8]\<rparr>"
  let ?out = "\<lparr>u_s = [0, 2]\<rparr>"
  let ?d_in = "[''dv_struct'' \<mapsto> [7, 7 :: real]]"
  let ?d_res = "[''u_s'' \<mapsto> [1, 1 :: real]]"
  obtain s' d_in' d_out' where
    call: "apply_linear ?E ?s ?i ?out ?d_in Map.empty ?d_res ''rev'' = Inr (s', d_in', d_out')"
    by (simp add: apply_linear_def rev_d_outputs_def rev_f_s_def rev_x_s0_def
        rev_dv_struct_def update_internal_def demo_solver_def Let_def)
  have seed: "?d_res ''u_s'' = Some [1, 1]" and old: "?d_in ''dv_struct'' = Some [7, 7]"
    by simp_all
  have P: "evalAdjointResProduct ?E
        ((tacs ?s)\<lparr>design_vars := dv_struct ?i, node_vec := x_s0 ?i,
           variables := (if (Map.empty :: dvecs) ''u_s'' = None then applyBCs ?E (u_s ?out)
                         else u_s ?out)\<rparr>)
        [1, 1] (length [7, 7 :: real]) = [2, 2]"
    by (simp add: demo_engine_def numeral_2_eq_2)
  have R: "(0::nat) < 3" by simp
  from design_seed_on_rank_0 [OF call seed old P [symmetric], of 3] R
  have "map (\<lambda>r. d_inputs_after
        (apply_linear ?E (?s\<lparr>rank := r\<rparr>) ?i ?out ?d_in Map.empty ?d_res ''rev'')
        ''dv_struct'') [0..<3]
      = Some (vadd [7, 7] [2, 2]) # replicate (3 - 1) (Some [7, 7])"
    by blast
  also have "\<dots> = [Some [9, 9], Some [7, 7], Some [7, 7]]"
    by (simp add: vadd_def numeral_eq_Suc)
  finally show ?thesis .
qed

section \<open>The load seed of reverse mode\<close>

lemma load_seed_inner_Inr:
  "load_seed_inner nd i seed js b = Inr b' \<Longrightarrow>
   length b' = length b \<and>
   (\<forall>j\<in>set js. 3 * i + j < length seed \<and> nd * i + j < length b) \<and>
   (\<forall>k<length b. b' ! k =
      (if \<exists>j\<in>set js. k = nd * i + j then seed ! (3 * i + (k - nd * i)) else b ! k))"
proof (induction js arbitrary: b)
  case Nil
  then show ?case by simp
next
  case (Cons j js)
  from Cons.prems have inb: "3 * i + j < length seed" "nd * i + j < length b"
    and rest: "load_seed_inner nd i seed js (b[nd * i + j := seed ! (3 * i + j)]) = Inr b'"
    by (auto split: if_splits)
  from Cons.IH [OF rest] inb show ?case
    by (auto simp: nth_list_update)
qed

lemma load_seed_inner_ok:
  "(\<forall>j\<in>set js. 3 * i + j < length seed \<and> nd * i + j < length b) \<Longrightarrow>
   \<exists>b'. load_seed_inner nd i seed js b = Inr b'"
  by (induction js arbitrary: b) auto

lemma load_seed_inner_Inl: "load_seed_inner nd i seed js b = Inl e \<Longrightarrow> e = IndexError"
  by (induction js arbitrary: b) (auto split: if_splits)

lemma load_seed_loop_Inr:
  assumes "load_seed_loop nd seed ns b = Inr b'" "3 \<le> nd"
  shows "length b' = length b \<and>
   (\<forall>i\<in>set ns. \<forall>j<3. 3 * i + j < length seed \<and> nd * i + j < length b) \<and>
   (\<forall>k<length b. b' ! k =
      (if \<exists>i\<in>set ns. \<exists>j<3. k = nd * i + j then seed ! (3 * (k div nd) + k mod nd)
       else b ! k))"
  using assms(1)
proof (induction ns arbitrary: b)
  case Nil
  then show ?case by simp
next
  case (Cons i ns)
  from Cons.prems obtain b1 where
    inner: "load_seed_inner nd i seed [0..<3] b = Inr b1"
    and rest: "load_seed_loop nd seed ns b1 = Inr b'"
    by (auto split: sum.splits)
  note I = load_seed_inner_Inr [OF inner]
  note R = Cons.IH [OF rest]
  from I have len1: "length b1 = length b" by simp
  have b1: "b1 ! k = (if \<exists>j<3. k = nd * i + j then seed ! (3 * (k div nd) + k mod nd) else b ! k)"
    if "k < length b" for k
  proof (cases "\<exists>j<3. k = nd * i + j")
    case True
    then obtain j where j: "j < 3" "k = nd * i + j" by blast
    with I that have "b1 ! k = seed ! (3 * i + (k - nd * i))" by auto
    with j assms(2) show ?thesis by auto
  next
    case False
    with I that show ?thesis by auto
  qed
  show ?case
  proof (intro conjI ballI allI impI)
    show "length b' = length (b)" using R len1 by simp
  next
    fix i' j assume "i' \<in> set (i # ns)" "j < (3::nat)"
    then show "3 * i' + j < length seed" "nd * i' + j < length b"
      using I R len1 by auto
  next
    fix k assume k: "k < length b"
    then have "b' ! k = (if \<exists>i\<in>set ns. \<exists>j<3. k = nd * i + j
        then seed ! (3 * (k div nd) + k mod nd) else b1 ! k)"
      using R len1 by simp
    then show "b' ! k = (if \<exists>i\<in>set (i # ns). \<exists>j<3. k = nd * i + j
        then seed ! (3 * (k div nd) + k mod nd) else b ! k)"
      using b1 [OF k] by auto
  qed
qed

lemma load_seed_loop_ok:
  "(\<forall>i\<in>set ns. \<forall>j<3. 3 * i + j < length seed \<and> nd * i + j < length b) \<Longrightarrow>
   \<exists>b'. load_seed_loop nd seed ns b = Inr b'"
proof (induction ns arbitrary: b)
  case Nil
  then show ?case by simp
next
  case (Cons i ns)
  then have "\<forall>j\<in>set [0..<3]. 3 * i + j < length seed \<and> nd * i + j < length b" by simp
  from load_seed_inner_ok [OF this] obtain b1 where
    inner: "load_seed_inner nd i seed [0..<3] b = Inr b1" by blast
  from load_seed_inner_Inr [OF inner] have "length b1 = length b" by simp
  with Cons.prems have "\<forall>i\<in>set ns. \<forall>j<3. 3 * i + j < length seed \<and> nd * i + j < length b1"
    by simp
  from Cons.IH [OF this] inner show ?case by simp
qed

lemma load_seed_loop_Inl: "load_seed_loop nd seed ns b = Inl e \<Longrightarrow> e = IndexError"
  by (induction ns arbitrary: b) (auto split: sum.splits dest: load_seed_inner_Inl)


lemma node_dof_iff:
  assumes "3 \<le> nd"
  shows "(\<exists>i\<in>set [0..<n]. \<exists>j<3. k = nd * i + j) \<longleftrightarrow> k mod nd < 3 \<and> k div nd < n"
proof
  assume "\<exists>i\<in>set [0..<n]. \<exists>j<3. k = nd * i + j"
  then obtain i j where "i < n" "j < 3" "k = nd * i + j" by auto
  with assms show "k mod nd < 3 \<and> k div nd < n" by simp
next
  assume a: "k mod nd < 3 \<and> k div nd < n"
  have "k = nd * (k div nd) + k mod nd" by simp
  with a show "\<exists>i\<in>set [0..<n]. \<exists>j<3. k = nd * i + j"
    by (metis atLeast0LessThan lessThan_iff set_upt)
qed

lemma load_seed_loop_permute:
  assumes "load_seed_loop nd seed [0..<n] (zeros m) = Inr buf" "3 \<le> nd"
  shows "buf = permute_3_to_ndof nd n m seed"
proof (rule nth_equalityI)
  note L = load_seed_loop_Inr [OF assms]
  show "length buf = length (permute_3_to_ndof nd n m seed)"
    using L by (simp add: permute_3_to_ndof_def zeros_def)
  fix k assume "k < length buf"
  then have k: "k < m" using L by (simp add: zeros_def)
  then have "buf ! k = (if \<exists>i\<in>set [0..<n]. \<exists>j<3. k = nd * i + j
      then seed ! (3 * (k div nd) + k mod nd) else zeros m ! k)"
    using L by (simp add: zeros_def)
  then show "buf ! k = permute_3_to_ndof nd n m seed ! k"
    using k by (simp only: node_dof_iff [OF assms(2)]) (simp add: permute_3_to_ndof_def zeros_def)
qed

lemma apply_linear_f_s:
  assumes "apply_linear E s i out d_in d_out d_res ''rev'' = Inr (s', d_in', d_out')"
    and "d_res ''u_s'' = Some seed" and "d_in ''f_s'' = Some old"
  shows "\<exists>buf. load_seed_loop (ndof s) seed [0..<length (x_s0 i) div 3]
        (zeros (if d_out ''u_s'' = None then length (res s)
                else length (applyBCs E (mat_mult E
                  (assembleJacobian E ((tacs s)\<lparr>design_vars := dv_struct i,
                     node_vec := x_s0 i\<rparr>)) (u_s out))))) = Inr buf \<and>
      d_in' ''f_s'' = Some (vsub old (applyBCs E buf))"
  using assms
  by (auto simp add: apply_linear_def rev_d_outputs_def rev_f_s_def rev_x_s0_def
      rev_dv_struct_def update_internal_def Let_def
      split: option.splits sum.splits prod.splits if_splits)

lemma apply_linear_returns:
  assumes "d_res ''u_s'' = Some seed" and "d_in ''f_s'' = Some old"
    and "load_seed_loop (ndof s) seed [0..<length (x_s0 i) div 3]
        (zeros (if d_out ''u_s'' = None then length (res s)
                else length (applyBCs E (mat_mult E
                  (assembleJacobian E ((tacs s)\<lparr>design_vars := dv_struct i,
                     node_vec := x_s0 i\<rparr>)) (u_s out))))) = Inr buf"
  shows "\<exists>s' d_in' d_out'.
     apply_linear E s i out d_in d_out d_res ''rev'' = Inr (s', d_in', d_out')"
  using assms
  by (auto simp add: apply_linear_def rev_d_outputs_def rev_f_s_def rev_x_s0_def
      rev_dv_struct_def update_internal_def Let_def
      split: option.splits sum.splits prod.splits if_splits)

lemma permute_3_to_ndof_nth:
  assumes "3 \<le> nd" "i < n" "j < 3" "nd * n \<le> m"
  shows "permute_3_to_ndof nd n m seed ! (nd * i + j) = seed ! (3 * i + j)"
proof -
  have "nd * i + j < nd * i + nd" using assms by simp
  also have "\<dots> = nd * Suc i" by simp
  also have "\<dots> \<le> nd * n" using assms(2) by (intro mult_le_mono2) simp
  finally have "nd * i + j < m" using assms(4) by simp
  then show ?thesis using assms by (simp add: permute_3_to_ndof_def)
qed

lemma load_seed_loop_bounds:
  "load_seed_loop nd seed ns b = Inr b' \<Longrightarrow> \<forall>i\<in>set ns. \<forall>j<3. 3 * i + j < length seed"
proof (induction ns arbitrary: b)
  case Nil
  then show ?case by simp
next
  case (Cons i ns)
  from Cons.prems obtain b1 where
    inner: "load_seed_inner nd i seed [0..<3] b = Inr b1"
    and rest: "load_seed_loop nd seed ns b1 = Inr b'"
    by (auto split: sum.splits)
  from load_seed_inner_Inr [OF inner] Cons.IH [OF rest] show ?case by auto
qed

lemma apply_linear_rev_Inl:
  "apply_linear E s i out d_in d_out d_res ''rev'' = Inl e \<Longrightarrow> e = IndexError"
  by (auto simp add: apply_linear_def rev_d_outputs_def rev_f_s_def rev_x_s0_def
      rev_dv_struct_def Let_def
      split: option.splits sum.splits prod.splits if_splits dest: load_seed_loop_Inl)

lemma apply_linear_short_seed_raises:
  assumes "d_res ''u_s'' = Some seed" and "d_in ''f_s'' = Some old"
    and "length seed < 3 * (length (x_s0 i) div 3)"
  shows "apply_linear E s i out d_in d_out d_res ''rev'' = Inl IndexError"
proof (cases "apply_linear E s i out d_in d_out d_res ''rev''")
  case (Inl e)
  then show ?thesis using apply_linear_rev_Inl [of E s i out d_in d_out d_res e] by simp
next
  case (Inr r)
  obtain s' d_in' d_out' where r: "r = (s', d_in', d_out')" by (cases r)
  define n where "n = length (x_s0 i) div 3"
  have "\<exists>buf. load_seed_loop (ndof s) seed [0..<length (x_s0 i) div 3]
        (zeros (if d_out ''u_s'' = None then length (res s)
                else length (applyBCs E (mat_mult E
                  (assembleJacobian E ((tacs s)\<lparr>design_vars := dv_struct i,
                     node_vec := x_s0 i\<rparr>)) (u_s out))))) = Inr buf \<and>
      d_in' ''f_s'' = Some (vsub old (applyBCs E buf))"
    using Inr [unfolded r] assms(1,2) by (rule apply_linear_f_s)
  then obtain buf b0 where "load_seed_loop (ndof s) seed [0..<n] b0 = Inr buf"
    unfolding n_def by blast
  from load_seed_loop_bounds [OF this]
  have b: "\<forall>a<n. \<forall>j<3. 3 * a + j < length seed" by simp
  from assms(3) have "0 < n" by (simp add: n_def)
  then have "n - 1 < n" and "(2::nat) < 3" by simp_all
  with b have "3 * (n - 1) + 2 < length seed" by blast
  moreover have "3 * (n - 1) + 2 = 3 * n - 1" using \<open>0 < n\<close> by simp
  ultimately show ?thesis using assms(3) by (simp add: n_def)
qed

text \<open>
  With at least 3 degrees of freedom per node and arrays of the sizes of \<open>n\<close> nodes, a
  reverse-mode call with a state seed in \<open>d_residuals\<close> and an entry \<open>f_s\<close> in \<open>d_inputs\<close>
  returns, and the entry \<open>f_s\<close> is the old entry minus the buffer after the boundary
  conditions. The buffer, of the size \<open>m\<close> of the residual vector, is the seed carried from
  3 entries per node to \<open>ndof\<close> entries per node: its entry \<open>ndof * a + j\<close> is entry
  \<open>3 * a + j\<close> of the seed for every node \<open>a < n\<close> and \<open>j < 3\<close>, and its other entries are 0.
\<close>

lemma load_seed_permuted_from_3_dofs:
  assumes "d_res ''u_s'' = Some seed" and "d_in ''f_s'' = Some old" and "3 \<le> ndof s"
    and "n = length (x_s0 i) div 3"
    and "m = (if d_out ''u_s'' = None then length (res s)
              else length (applyBCs E (mat_mult E
                (assembleJacobian E ((tacs s)\<lparr>design_vars := dv_struct i,
                   node_vec := x_s0 i\<rparr>)) (u_s out))))"
    and "3 * n \<le> length seed" and "ndof s * n \<le> m"
  shows "(\<exists>s' d_in' d_out'.
            apply_linear E s i out d_in d_out d_res ''rev'' = Inr (s', d_in', d_out')) \<and>
         d_inputs_after (apply_linear E s i out d_in d_out d_res ''rev'') ''f_s''
           = Some (vsub old (applyBCs E (permute_3_to_ndof (ndof s) n m seed))) \<and>
         (\<forall>a<n. \<forall>j<3. permute_3_to_ndof (ndof s) n m seed ! (ndof s * a + j)
                          = seed ! (3 * a + j)) \<and>
         (\<forall>k<m. (\<forall>a<n. \<forall>j<3. k \<noteq> ndof s * a + j) \<longrightarrow>
                  permute_3_to_ndof (ndof s) n m seed ! k = 0) \<and>
         length (permute_3_to_ndof (ndof s) n m seed) = m"
proof -
  have inb: "\<forall>a\<in>set [0..<n]. \<forall>j<3. 3 * a + j < length seed \<and> ndof s * a + j < length (zeros m)"
  proof (intro ballI allI impI)
    fix a j :: nat assume "a \<in> set [0..<n]" "j < 3"
    then have a: "a < n" by simp
    then have "3 * a + j < 3 * Suc a" using \<open>j < 3\<close> by simp
    also have "\<dots> \<le> 3 * n" using a by (intro mult_le_mono2) simp
    finally have 1: "3 * a + j < length seed" using assms(6) by simp
    have "ndof s * a + j < ndof s * a + ndof s" using \<open>j < 3\<close> assms(3) by simp
    also have "\<dots> = ndof s * Suc a" by simp
    also have "\<dots> \<le> ndof s * n" using a by (intro mult_le_mono2) simp
    finally have 2: "ndof s * a + j < length (zeros m)" using assms(7) by (simp add: zeros_def)
    from 1 2 show "3 * a + j < length seed \<and> ndof s * a + j < length (zeros m)" ..
  qed
  from load_seed_loop_ok [OF this] obtain buf where
    loop: "load_seed_loop (ndof s) seed [0..<n] (zeros m) = Inr buf" by blast
  have buf: "buf = permute_3_to_ndof (ndof s) n m seed"
    using loop assms(3) by (rule load_seed_loop_permute)
  note loop' = loop [unfolded assms(4,5)]
  have "\<exists>s' d_in' d_out'.
     apply_linear E s i out d_in d_out d_res ''rev'' = Inr (s', d_in', d_out')"
    using assms(1,2) loop' by (rule apply_linear_returns)
  then obtain s' d_in' d_out' where
    call: "apply_linear E s i out d_in d_out d_res ''rev'' = Inr (s', d_in', d_out')"
    by blast
  have "\<exists>buf. load_seed_loop (ndof s) seed [0..<length (x_s0 i) div 3]
        (zeros (if d_out ''u_s'' = None then length (res s)
                else length (applyBCs E (mat_mult E
                  (assembleJacobian E ((tacs s)\<lparr>design_vars := dv_struct i,
                     node_vec := x_s0 i\<rparr>)) (u_s out))))) = Inr buf \<and>
      d_in' ''f_s'' = Some (vsub old (applyBCs E buf))"
    using call assms(1,2) by (rule apply_linear_f_s)
  with loop' have "d_in' ''f_s'' = Some (vsub old (applyBCs E buf))" by auto
  then have val: "d_inputs_after (apply_linear E s i out d_in d_out d_res ''rev'') ''f_s''
           = Some (vsub old (applyBCs E (permute_3_to_ndof (ndof s) n m seed)))"
    using call buf by (simp add: d_inputs_after_def)
  have ent: "\<forall>a<n. \<forall>j<3. permute_3_to_ndof (ndof s) n m seed ! (ndof s * a + j)
                          = seed ! (3 * a + j)"
    using assms(3,7) by (simp add: permute_3_to_ndof_nth)
  have zero: "\<forall>k<m. (\<forall>a<n. \<forall>j<3. k \<noteq> ndof s * a + j) \<longrightarrow>
                  permute_3_to_ndof (ndof s) n m seed ! k = 0"
  proof (intro allI impI)
    fix k assume k: "k < m" and no: "\<forall>a<n. \<forall>j<3. k \<noteq> ndof s * a + j"
    then have "\<not> (\<exists>a\<in>set [0..<n]. \<exists>j<3. k = ndof s * a + j)" by auto
    then have "\<not> (k mod ndof s < 3 \<and> k div ndof s < n)"
      using node_dof_iff [OF assms(3), of n k] by blast
    then show "permute_3_to_ndof (ndof s) n m seed ! k = 0"
      using k by (auto simp add: permute_3_to_ndof_def)
  qed
  have len: "length (permute_3_to_ndof (ndof s) n m seed) = m"
    by (simp add: permute_3_to_ndof_def)
  from call val ent zero len show ?thesis by blast
qed

lemma load_seed_at_4_dofs:
  "d_inputs_after
     (apply_linear (demo_engine 8 6)
        ((demo_solver 0)\<lparr>ndof := 4, res := [0, 0, 0, 0, 0, 0, 0, 0]\<rparr>)
        \<lparr>dv_struct = [2, 4], x_s0 = [0, 0, 0, 1, 1, 1], f_s = [0, 0, 0, 0, 0, 0, 0, 0]\<rparr>
        \<lparr>u_s = [0, 0, 0, 0, 0, 0, 0, 0]\<rparr>
        [''f_s'' \<mapsto> [10, 10, 10, 10, 10, 10, 10, 10]] Map.empty
        [''u_s'' \<mapsto> [1, 2, 3, 4, 5, 6, 7, 8]] ''rev'') ''f_s''
   = Some [10, 8, 7, 10, 6, 5, 4, 10]"
proof -
  let ?E = "demo_engine 8 6"
  let ?s = "(demo_solver 0)\<lparr>ndof := 4, res := [0, 0, 0, 0, 0, 0, 0, 0]\<rparr>"
  let ?i = "\<lparr>dv_struct = [2, 4], x_s0 = [0, 0, 0, 1, 1, 1], f_s = [0, 0, 0, 0, 0, 0, 0, 0]\<rparr>"
  let ?out = "\<lparr>u_s = [0, 0, 0, 0, 0, 0, 0, 0]\<rparr>"
  let ?d_in = "[''f_s'' \<mapsto> [10, 10, 10, 10, 10, 10, 10, 10 :: real]]"
  let ?d_res = "[''u_s'' \<mapsto> [1, 2, 3, 4, 5, 6, 7, 8 :: real]]"
  have h: "?d_res ''u_s'' = Some [1, 2, 3, 4, 5, 6, 7, 8]"
    "?d_in ''f_s'' = Some [10, 10, 10, 10, 10, 10, 10, 10]"
    "3 \<le> ndof ?s" "(2::nat) = length (x_s0 ?i) div 3"
    "(8::nat) = (if (Map.empty :: dvecs) ''u_s'' = None then length (res ?s)
              else length (applyBCs ?E (mat_mult ?E
                (assembleJacobian ?E ((tacs ?s)\<lparr>design_vars := dv_struct ?i,
                   node_vec := x_s0 ?i\<rparr>)) (u_s ?out))))"
    "3 * (2::nat) \<le> length [1, 2, 3, 4, 5, 6, 7, 8 :: real]" "ndof ?s * 2 \<le> 8"
    by (simp_all add: demo_solver_def)
  have "d_inputs_after (apply_linear ?E ?s ?i ?out ?d_in Map.empty ?d_res ''rev'') ''f_s''
      = Some (vsub [10, 10, 10, 10, 10, 10, 10, 10]
               (applyBCs ?E (permute_3_to_ndof (ndof ?s) 2 8 [1, 2, 3, 4, 5, 6, 7, 8])))"
    using load_seed_permuted_from_3_dofs [where E = ?E and d_out = Map.empty
        and s = ?s and i = ?i and out = ?out and d_in = ?d_in and d_res = ?d_res
        and seed = "[1, 2, 3, 4, 5, 6, 7, 8]" and old = "[10, 10, 10, 10, 10, 10, 10, 10]"
        and n = 2 and m = 8, OF h]
    by blast
  also have "ndof ?s = 4" by (simp add: demo_solver_def)
  also have "permute_3_to_ndof 4 2 8 [1, 2, 3, 4, 5, 6, 7, 8] = [1, 2, 3, 0, 4, 5, 6, 0]"
    by (simp add: permute_3_to_ndof_def upt_rec)
  also have "vsub [10, 10, 10, 10, 10, 10, 10, 10] (applyBCs ?E [1, 2, 3, 0, 4, 5, 6, 0])
      = [10, 8, 7, 10, 6, 5, 4, 10]"
    by (simp add: vsub_def demo_engine_def)
  finally show ?thesis .
qed

text \<open>
  The seed of the state has \<open>ndof\<close> entries per node, as the state has, while the loop
  reads it with 3 entries per node. At 6 degrees of freedom per node and 2 nodes the entry
  \<open>f_s\<close> therefore receives entries 0..5 of the seed, at the places 0, 1, 2 and 6, 7, 8, and
  not the negated seed that the comment \<open>dR/df_s^T = -I\<close> of the source announces (the small
  engine clamps entry 0).
\<close>

lemma load_seed_at_6_dofs:
  "d_inputs_after
     (apply_linear (demo_engine 12 6)
        ((demo_solver 0)\<lparr>ndof := 6, res := [0, 0, 0, 0, 0, 0, 0, 0, 0, 0, 0, 0]\<rparr>)
        \<lparr>dv_struct = [2, 4], x_s0 = [0, 0, 0, 1, 1, 1],
          f_s = [0, 0, 0, 0, 0, 0, 0, 0, 0, 0, 0, 0]\<rparr>
        \<lparr>u_s = [0, 0, 0, 0, 0, 0, 0, 0, 0, 0, 0, 0]\<rparr>
        [''f_s'' \<mapsto> [0, 0, 0, 0, 0, 0, 0, 0, 0, 0, 0, 0]] Map.empty
        [''u_s'' \<mapsto> [1, 2, 3, 4, 5, 6, 7, 8, 9, 10, 11, 12]] ''rev'') ''f_s''
   = Some [0, - 2, - 3, 0, 0, 0, - 4, - 5, - 6, 0, 0, 0]"
proof -
  let ?E = "demo_engine 12 6"
  let ?s = "(demo_solver 0)\<lparr>ndof := 6, res := [0, 0, 0, 0, 0, 0, 0, 0, 0, 0, 0, 0]\<rparr>"
  let ?i = "\<lparr>dv_struct = [2, 4], x_s0 = [0, 0, 0, 1, 1, 1],
          f_s = [0, 0, 0, 0, 0, 0, 0, 0, 0, 0, 0, 0]\<rparr>"
  let ?out = "\<lparr>u_s = [0, 0, 0, 0, 0, 0, 0, 0, 0, 0, 0, 0]\<rparr>"
  let ?d_in = "[''f_s'' \<mapsto> [0, 0, 0, 0, 0, 0, 0, 0, 0, 0, 0, 0 :: real]]"
  let ?d_res = "[''u_s'' \<mapsto> [1, 2, 3, 4, 5, 6, 7, 8, 9, 10, 11, 12 :: real]]"
  have h: "?d_res ''u_s'' = Some [1, 2, 3, 4, 5, 6, 7, 8, 9, 10, 11, 12]"
    "?d_in ''f_s'' = Some [0, 0, 0, 0, 0, 0, 0, 0, 0, 0, 0, 0]"
    "3 \<le> ndof ?s" "(2::nat) = length (x_s0 ?i) div 3"
    "(12::nat) = (if (Map.empty :: dvecs) ''u_s'' = None then length (res ?s)
              else length (applyBCs ?E (mat_mult ?E
                (assembleJacobian ?E ((tacs ?s)\<lparr>design_vars := dv_struct ?i,
                   node_vec := x_s0 ?i\<rparr>)) (u_s ?out))))"
    "3 * (2::nat) \<le> length [1, 2, 3, 4, 5, 6, 7, 8, 9, 10, 11, 12 :: real]"
    "ndof ?s * 2 \<le> 12"
    by (simp_all add: demo_solver_def)
  have "d_inputs_after (apply_linear ?E ?s ?i ?out ?d_in Map.empty ?d_res ''rev'') ''f_s''
      = Some (vsub [0, 0, 0, 0, 0, 0, 0, 0, 0, 0, 0, 0]
               (applyBCs ?E (permute_3_to_ndof (ndof ?s) 2 12
                  [1, 2, 3, 4, 5, 6, 7, 8, 9, 10, 11, 12])))"
    using load_seed_permuted_from_3_dofs [where E = ?E and d_out = Map.empty
        and s = ?s and i = ?i and out = ?out and d_in = ?d_in and d_res = ?d_res
        and seed = "[1, 2, 3, 4, 5, 6, 7, 8, 9, 10, 11, 12]"
        and old = "[0, 0, 0, 0, 0, 0, 0, 0, 0, 0, 0, 0]"
        and n = 2 and m = 12, OF h]
    by blast
  also have "ndof ?s = 6" by (simp add: demo_solver_def)
  also have "permute_3_to_ndof 6 2 12 [1, 2, 3, 4, 5, 6, 7, 8, 9, 10, 11, 12]
      = [1, 2, 3, 0, 0, 0, 4, 5, 6, 0, 0, 0]"
    by (simp add: permute_3_to_ndof_def upt_rec)
  also have "vsub [0, 0, 0, 0, 0, 0, 0, 0, 0, 0, 0, 0]
        (applyBCs ?E [1, 2, 3, 0, 0, 0, 4, 5, 6, 0, 0, 0])
      = [0, - 2, - 3, 0, 0, 0, - 4, - 5, - 6, 0, 0, 0]"
    by (simp add: vsub_def demo_engine_def)
  finally show ?thesis .
qed

lemma setup_S_three_nodes:
  "setup_S (demo_engine 6 9)
      \<lparr>design_vars = [1, 1, 1, 1, 1, 1], node_vec = [0, 0, 0, 0, 0, 0, 0, 0, 0],
        variables = [0, 0, 0, 0, 0, 0]\<rparr> [1, 1, 1, 1, 1, 1] () [6] [9] 0
    = Inr (three_node_solver, [0, 1, 2, 3, 4, 5, 6, 7, 8], [0, 1, 2, 3, 4, 5])"
proof -
  have a: "py_ndof 6 9 = Inr 2" by code_simp
  have c: "src_indices [9] 0 = [0, 1, 2, 3, 4, 5, 6, 7, 8]"
    "src_indices [6] 0 = [0, 1, 2, 3, 4, 5]"
    by (simp_all add: src_indices_def rank_range_def np_sum_def np_arange_def upt_rec)
  have z: "zeros 6 = [0, 0, 0, 0, 0, 0]" "zeros 9 = [0, 0, 0, 0, 0, 0, 0, 0, 0]"
    by (simp_all add: zeros_def eval_nat_numeral)
  show ?thesis
    by (simp add: setup_S_def demo_engine_def three_node_solver_def a c z)
qed

text \<open>
  C6 says that in reverse mode every state seed is carried onto \<open>f_s\<close>, negated, after the
  boundary conditions, and the source says the same in its comment \<open>dR/df_s^T = -I\<close>. The
  code does not do it: on the component that \<open>setup\<close> builds for 3 nodes with 2 degrees of
  freedom per node, with a seed of the size 6 of the state, the call raises \<open>IndexError\<close>.
  The loop reads entry \<open>3 * i + j\<close> of the seed; for the node \<open>i = 2\<close> and \<open>j = 0\<close> that is
  entry 6 of 6 entries. No seed reaches \<open>f_s\<close>.
\<close>

theorem load_seed_raises_at_2_dofs:
  "setup_S (demo_engine 6 9)
      \<lparr>design_vars = [1, 1, 1, 1, 1, 1], node_vec = [0, 0, 0, 0, 0, 0, 0, 0, 0],
        variables = [0, 0, 0, 0, 0, 0]\<rparr> [1, 1, 1, 1, 1, 1] () [6] [9] 0
    = Inr (three_node_solver, [0, 1, 2, 3, 4, 5, 6, 7, 8], [0, 1, 2, 3, 4, 5]) \<and>
   ndof three_node_solver = 2 \<and>
   apply_linear (demo_engine 6 9) three_node_solver
      \<lparr>dv_struct = [1, 1, 1, 1, 1, 1], x_s0 = [0, 0, 0, 0, 0, 0, 0, 0, 0],
        f_s = [0, 0, 0, 0, 0, 0]\<rparr>
      \<lparr>u_s = [0, 0, 0, 0, 0, 0]\<rparr>
      [''f_s'' \<mapsto> [0, 0, 0, 0, 0, 0]] [''u_s'' \<mapsto> [0, 0, 0, 0, 0, 0]]
      [''u_s'' \<mapsto> [1, 2, 3, 4, 5, 6]] ''rev''
    = Inl IndexError \<and>
   load_seed_loop 2 [1, 2, 3, 4, 5, 6] [0..<3] [0, 0, 0, 0, 0, 0] = Inl IndexError"
proof (intro conjI)
  show "setup_S (demo_engine 6 9)
      \<lparr>design_vars = [1, 1, 1, 1, 1, 1], node_vec = [0, 0, 0, 0, 0, 0, 0, 0, 0],
        variables = [0, 0, 0, 0, 0, 0]\<rparr> [1, 1, 1, 1, 1, 1] () [6] [9] 0
    = Inr (three_node_solver, [0, 1, 2, 3, 4, 5, 6, 7, 8], [0, 1, 2, 3, 4, 5])"
    by (rule setup_S_three_nodes)
  show "ndof three_node_solver = 2" by (simp add: three_node_solver_def)
  show "apply_linear (demo_engine 6 9) three_node_solver
      \<lparr>dv_struct = [1, 1, 1, 1, 1, 1], x_s0 = [0, 0, 0, 0, 0, 0, 0, 0, 0],
        f_s = [0, 0, 0, 0, 0, 0]\<rparr>
      \<lparr>u_s = [0, 0, 0, 0, 0, 0]\<rparr>
      [''f_s'' \<mapsto> [0, 0, 0, 0, 0, 0]] [''u_s'' \<mapsto> [0, 0, 0, 0, 0, 0]]
      [''u_s'' \<mapsto> [1, 2, 3, 4, 5, 6]] ''rev''
    = Inl IndexError"
    by (rule apply_linear_short_seed_raises [where seed = "[1, 2, 3, 4, 5, 6]"
          and old = "[0, 0, 0, 0, 0, 0]"]) simp_all
  show "load_seed_loop 2 [1, 2, 3, 4, 5, 6] [0..<3] [0, 0, 0, 0, 0, 0] = Inl IndexError"
    by (simp add: upt_rec)
qed

section \<open>The residual of \<open>TacsSolver\<close>\<close>

lemma tacs_state_all_fields:
  "(t :: tacs_state)\<lparr>design_vars := a, node_vec := b, variables := c\<rparr>
     = \<lparr>design_vars = a, node_vec = b, variables = c\<rparr>"
  by (cases t) simp

lemma apply_nonlinear_residual:
  "snd (apply_nonlinear E s i out r) =
     r(''u_s'' \<mapsto> applyBCs E (vsub
        (assembleRes E \<lparr>design_vars = dv_struct i, node_vec = x_s0 i,
                        variables = applyBCs E (u_s out)\<rparr>) (f_s i)))"
  by (simp add: apply_nonlinear_def update_internal_def Let_def tacs_state_all_fields)

lemma solve_nonlinear_state:
  "u_s (snd (solve_nonlinear E s i out)) =
     gmres_solve E (assembleJacobian E ((tacs s)\<lparr>design_vars := dv_struct i, node_vec := x_s0 i\<rparr>))
       (pc_factor E (assembleJacobian E ((tacs s)\<lparr>design_vars := dv_struct i, node_vec := x_s0 i\<rparr>)))
       (applyBCs E (f_s i))"
  by (simp add: solve_nonlinear_def update_internal_def Let_def)

lemma vsub_self: "vsub xs xs = zeros (length xs)"
  by (induction xs) (simp_all add: vsub_def zeros_def)

text \<open>
  C2, as the code has it. The engine is taken to be linear elastic: its residual is the
  assembled operator times the state variables it holds, and the operator does not depend
  on them. \<open>apply_nonlinear\<close> pushes the state into the engine after the boundary
  conditions were applied to it, so the residual it returns is
  \<open>BCs (K \<cdot> BCs state - load)\<close>: the boundary conditions are applied to the state before
  the multiply and to the residual after the subtraction. \<open>solve_nonlinear\<close> applies them to
  the load before the solve. At a converged solve, where the solver's result \<open>u\<close> satisfies
  \<open>K \<cdot> u = BCs load\<close> and the boundary conditions, the residual evaluated at the result
  is the zero vector; the arithmetic is exact, in place of the tolerance of the solver.
\<close>

theorem residual_contract:
  assumes lin: "\<forall>t. assembleRes E t = mat_mult E (assembleJacobian E t) (variables t)"
    and fixed: "\<forall>t v. assembleJacobian E (t\<lparr>variables := v\<rparr>) = assembleJacobian E t"
    and bc_idem: "\<forall>a. applyBCs E (applyBCs E a) = applyBCs E a"
    and bc_sub: "\<forall>a b. applyBCs E (vsub a b) = vsub (applyBCs E a) (applyBCs E b)"
    and K: "K = assembleJacobian E ((tacs s)\<lparr>design_vars := dv_struct i, node_vec := x_s0 i\<rparr>)"
    and u: "u = gmres_solve E K (pc_factor E K) (applyBCs E (f_s i))"
    and conv: "mat_mult E K u = applyBCs E (f_s i)"
    and bc_u: "applyBCs E u = u"
  shows "snd (apply_nonlinear E s i out r) ''u_s'' =
           Some (applyBCs E (vsub (mat_mult E K (applyBCs E (u_s out))) (f_s i))) \<and>
         snd (solve_nonlinear E s i out) = out\<lparr>u_s := u\<rparr> \<and>
         snd (apply_nonlinear E (fst (solve_nonlinear E s i out)) i
                (snd (solve_nonlinear E s i out)) r) ''u_s''
           = Some (zeros (length (applyBCs E (f_s i))))"
proof -
  have Kt: "assembleJacobian E \<lparr>design_vars = dv_struct i, node_vec = x_s0 i, variables = v\<rparr> = K"
    for v
  proof -
    have "\<lparr>design_vars = dv_struct i, node_vec = x_s0 i, variables = v\<rparr>
        = ((tacs s)\<lparr>design_vars := dv_struct i, node_vec := x_s0 i\<rparr>)\<lparr>variables := v\<rparr>"
      by (simp add: tacs_state_all_fields)
    then show ?thesis using fixed K by (simp only:)
  qed
  have res: "snd (apply_nonlinear E s' i out' r) ''u_s'' =
      Some (applyBCs E (vsub (mat_mult E K (applyBCs E (u_s out'))) (f_s i)))" for s' out'
    using lin Kt by (simp add: apply_nonlinear_residual)
  have sol: "snd (solve_nonlinear E s i out) = out\<lparr>u_s := u\<rparr>"
    using K u by (simp add: solve_nonlinear_def update_internal_def Let_def)
  have "applyBCs E (vsub (mat_mult E K (applyBCs E u)) (f_s i))
      = applyBCs E (vsub (applyBCs E (f_s i)) (f_s i))"
    using conv bc_u by simp
  also have "\<dots> = vsub (applyBCs E (applyBCs E (f_s i))) (applyBCs E (f_s i))"
    using bc_sub by simp
  also have "\<dots> = zeros (length (applyBCs E (f_s i)))"
    using bc_idem by (simp add: vsub_self)
  finally have "snd (apply_nonlinear E (fst (solve_nonlinear E s i out)) i
                (snd (solve_nonlinear E s i out)) r) ''u_s''
           = Some (zeros (length (applyBCs E (f_s i))))"
    using res [of "fst (solve_nonlinear E s i out)" "out\<lparr>u_s := u\<rparr>"] sol by simp
  with res [of s out] sol show ?thesis by blast
qed


lemma clamp_vsub: "(vsub a b)[0 := 0] = vsub (a[0 := 0]) (b[0 := 0])"
  by (cases a; cases b) (simp_all add: vsub_def)

theorem residual_contract_witness:
  "snd (solve_nonlinear coupled_engine coupled_solver
          \<lparr>dv_struct = [1], x_s0 = [0, 0, 0], f_s = [5, 8]\<rparr> \<lparr>u_s = [0, 0]\<rparr>)
     = \<lparr>u_s = [0, 8]\<rparr> \<and>
   snd (apply_nonlinear coupled_engine
          (fst (solve_nonlinear coupled_engine coupled_solver
                  \<lparr>dv_struct = [1], x_s0 = [0, 0, 0], f_s = [5, 8]\<rparr> \<lparr>u_s = [0, 0]\<rparr>))
          \<lparr>dv_struct = [1], x_s0 = [0, 0, 0], f_s = [5, 8]\<rparr>
          (snd (solve_nonlinear coupled_engine coupled_solver
                  \<lparr>dv_struct = [1], x_s0 = [0, 0, 0], f_s = [5, 8]\<rparr> \<lparr>u_s = [0, 0]\<rparr>))
          Map.empty) ''u_s''
     = Some [0, 0]"
proof -
  let ?E = coupled_engine and ?s = coupled_solver
  let ?i = "\<lparr>dv_struct = [1], x_s0 = [0, 0, 0], f_s = [5, 8]\<rparr>"
  let ?out = "\<lparr>u_s = [0, 0]\<rparr>"
  have lin: "\<forall>t. assembleRes ?E t = mat_mult ?E (assembleJacobian ?E t) (variables t)"
    by (simp add: coupled_engine_def)
  have fixed: "\<forall>t v. assembleJacobian ?E (t\<lparr>variables := v\<rparr>) = assembleJacobian ?E t"
    by (simp add: coupled_engine_def)
  have bc_idem: "\<forall>a. applyBCs ?E (applyBCs ?E a) = applyBCs ?E a"
    by (simp add: coupled_engine_def)
  have bc_sub: "\<forall>a b. applyBCs ?E (vsub a b) = vsub (applyBCs ?E a) (applyBCs ?E b)"
    by (simp add: coupled_engine_def clamp_vsub)
  have K: "[[1, 0], [1, 1]]
      = assembleJacobian ?E ((tacs ?s)\<lparr>design_vars := dv_struct ?i, node_vec := x_s0 ?i\<rparr>)"
    by (simp add: coupled_engine_def)
  have u: "[0, 8] = gmres_solve ?E [[1, 0], [1, 1]] (pc_factor ?E [[1, 0], [1, 1]])
      (applyBCs ?E (f_s ?i))"
    by (simp add: coupled_engine_def)
  have conv: "mat_mult ?E [[1, 0], [1, 1]] [0, 8] = applyBCs ?E (f_s ?i)"
    by (simp add: coupled_engine_def)
  have bc_u: "applyBCs ?E [0, 8] = [0, 8]"
    by (simp add: coupled_engine_def)
  have z: "zeros (length (applyBCs ?E (f_s ?i))) = [0, 0]"
    by (simp add: coupled_engine_def zeros_def)
  from residual_contract [where E = ?E and s = ?s and i = ?i and out = ?out
      and r = Map.empty and K = "[[1, 0], [1, 1]]" and u = "[0, 8]",
      OF lin fixed bc_idem bc_sub K u conv bc_u, unfolded z]
  have "snd (solve_nonlinear ?E ?s ?i ?out) = ?out\<lparr>u_s := [0, 8]\<rparr>"
    and "snd (apply_nonlinear ?E (fst (solve_nonlinear ?E ?s ?i ?out)) ?i
          (snd (solve_nonlinear ?E ?s ?i ?out)) Map.empty) ''u_s'' = Some [0, 0]"
    by blast+
  moreover have "?out\<lparr>u_s := [0, 8]\<rparr> = \<lparr>u_s = [0, 8]\<rparr>" by simp
  ultimately show ?thesis by (simp only:)
qed

text \<open>The claim of C2 gives the residual as \<open>BCs (K \<cdot> state - load)\<close>. On the coupled engine,
  at the state \<open>[1, 2]\<close>, which does not satisfy the boundary condition, and the load
  \<open>[5, 8]\<close>, the code returns \<open>[0, -6]\<close>, and that formula, with the operator the call
  assembled, gives \<open>[0, -5]\<close>.\<close>

theorem residual_at_raw_state_differs:
  "snd (apply_nonlinear coupled_engine coupled_solver
          \<lparr>dv_struct = [1], x_s0 = [0, 0, 0], f_s = [5, 8]\<rparr> \<lparr>u_s = [1, 2]\<rparr> Map.empty) ''u_s''
     = Some [0, - 6] \<and>
   mat (fst (apply_nonlinear coupled_engine coupled_solver
          \<lparr>dv_struct = [1], x_s0 = [0, 0, 0], f_s = [5, 8]\<rparr> \<lparr>u_s = [1, 2]\<rparr> Map.empty))
     = [[1, 0], [1, 1]] \<and>
   applyBCs coupled_engine
     (vsub (mat_mult coupled_engine [[1, 0], [1, 1]] [1, 2]) [5, 8]) = [0, - 5]"
  by (simp add: apply_nonlinear_def update_internal_def coupled_engine_def coupled_solver_def
      vsub_def Let_def)

section \<open>Running the update step again\<close>

lemma update_internal_tacs:
  "tacs (update_internal E s i (Some out)) =
     \<lparr>design_vars = dv_struct i, node_vec = x_s0 i, variables = applyBCs E (u_s out)\<rparr>"
  by (simp add: update_internal_def Let_def tacs_state_all_fields)

lemma update_internal_ans:
  "ans (update_internal E s i (Some out)) = applyBCs E (u_s out)"
  by (simp add: update_internal_def Let_def)

lemma update_internal_F_fields:
  "tacs_F (update_internal_F E c iF) =
     \<lparr>design_vars = dv_struct_F iF, node_vec = x_s0_F iF, variables = applyBCs E (u_s_F iF)\<rparr>"
  "ans_F (update_internal_F E c iF) = applyBCs E (u_s_F iF)"
  "func_list (update_internal_F E c iF) = func_list c"
  "check_partials_F (update_internal_F E c iF) = check_partials_F c"
  by (simp_all add: update_internal_F_def Let_def tacs_state_all_fields)

lemma update_internal_F_iterated:
  "tacs_F (((\<lambda>c. update_internal_F E c iF) ^^ Suc k) c) =
     \<lparr>design_vars = dv_struct_F iF, node_vec = x_s0_F iF, variables = applyBCs E (u_s_F iF)\<rparr> \<and>
   func_list (((\<lambda>c. update_internal_F E c iF) ^^ Suc k) c) = func_list c \<and>
   check_partials_F (((\<lambda>c. update_internal_F E c iF) ^^ Suc k) c) = check_partials_F c"
  by (induction k) (simp_all add: update_internal_F_fields)

lemma compute_outputs:
  "snd (compute E c iF outs) =
     (let t = (if check_partials_F c
               then \<lparr>design_vars = dv_struct_F iF, node_vec = x_s0_F iF,
                     variables = applyBCs E (u_s_F iF)\<rparr>
               else tacs_F c);
          o1 = (if ''f_struct'' \<in> dom outs
                then outs(''f_struct'' \<mapsto> evalFunctions E t (func_list c)) else outs)
      in if ''mass'' \<in> dom o1 then o1(''mass'' \<mapsto> evalFunctions E t [StructuralMass]) else o1)"
  by (simp add: compute_def Let_def update_internal_F_fields)

text \<open>
  C9. Running \<open>_update_internal\<close> again with the same design variables, node coordinates
  and state leaves the engine object and the state buffer as the first run left them, so
  the residual that \<open>apply_nonlinear\<close> returns and the outputs that \<open>compute\<close> returns are
  the same after any number of runs. The assembled matrix is the same as well when the
  engine's operator does not depend on the state it holds (it is assembled before the
  state is pushed); then the whole component is unchanged by a second run.
\<close>

theorem update_internal_idempotent:
  "tacs (update_internal E (update_internal E s i (Some out)) i (Some out))
     = tacs (update_internal E s i (Some out)) \<and>
   ans (update_internal E (update_internal E s i (Some out)) i (Some out))
     = ans (update_internal E s i (Some out)) \<and>
   snd (apply_nonlinear E (((\<lambda>s. update_internal E s i (Some out)) ^^ k) s) i out r)
     = snd (apply_nonlinear E s i out r) \<and>
   tacs_F (update_internal_F E (update_internal_F E c iF) iF)
     = tacs_F (update_internal_F E c iF) \<and>
   ans_F (update_internal_F E (update_internal_F E c iF) iF)
     = ans_F (update_internal_F E c iF) \<and>
   snd (compute E (((\<lambda>c. update_internal_F E c iF) ^^ Suc k) c) iF outs)
     = snd (compute E (update_internal_F E c iF) iF outs) \<and>
   ((\<forall>t v. assembleJacobian E (t\<lparr>variables := v\<rparr>) = assembleJacobian E t) \<longrightarrow>
      update_internal E (update_internal E s i (Some out)) i (Some out)
        = update_internal E s i (Some out) \<and>
      update_internal_F E (update_internal_F E c iF) iF = update_internal_F E c iF)"
proof (intro conjI impI)
  show "tacs (update_internal E (update_internal E s i (Some out)) i (Some out))
     = tacs (update_internal E s i (Some out))"
    by (simp only: update_internal_tacs)
  show "ans (update_internal E (update_internal E s i (Some out)) i (Some out))
     = ans (update_internal E s i (Some out))"
    by (simp only: update_internal_ans)
  show "snd (apply_nonlinear E (((\<lambda>s. update_internal E s i (Some out)) ^^ k) s) i out r)
     = snd (apply_nonlinear E s i out r)"
    by (simp only: apply_nonlinear_residual)
  show "tacs_F (update_internal_F E (update_internal_F E c iF) iF)
     = tacs_F (update_internal_F E c iF)"
    by (simp only: update_internal_F_fields)
  show "ans_F (update_internal_F E (update_internal_F E c iF) iF)
     = ans_F (update_internal_F E c iF)"
    by (simp only: update_internal_F_fields)
  show "snd (compute E (((\<lambda>c. update_internal_F E c iF) ^^ Suc k) c) iF outs)
     = snd (compute E (update_internal_F E c iF) iF outs)"
    using update_internal_F_iterated [where E = E and iF = iF and k = k and c = c]
    by (simp only: compute_outputs update_internal_F_fields)
next
  assume fixed: "\<forall>t v. assembleJacobian E (t\<lparr>variables := v\<rparr>) = assembleJacobian E t"
  have J: "assembleJacobian E (t\<lparr>design_vars := a, node_vec := b, variables := v\<rparr>)
      = assembleJacobian E (t\<lparr>design_vars := a, node_vec := b\<rparr>)" for t a b v
    using fixed by simp
  have J': "assembleJacobian E \<lparr>design_vars = a, node_vec = b, variables = v\<rparr>
      = assembleJacobian E (t\<lparr>design_vars := a, node_vec := b\<rparr>)" for t a b v
    using J [where t = t and a = a and b = b and v = v] by (simp add: tacs_state_all_fields)
  show "update_internal E (update_internal E s i (Some out)) i (Some out)
        = update_internal E s i (Some out)"
    by (simp add: update_internal_def Let_def tacs_state_all_fields J' [where t = "tacs s"])
  show "update_internal_F E (update_internal_F E c iF) iF = update_internal_F E c iF"
    by (simp add: update_internal_F_def Let_def tacs_state_all_fields J' [where t = "tacs_F c"])
qed

theorem update_internal_idempotent_witness:
  "update_internal (demo_engine 2 3)
     (update_internal (demo_engine 2 3) (demo_solver 0)
        \<lparr>dv_struct = [2, 4], x_s0 = [1, 1, 1], f_s = [6, 8]\<rparr> (Some \<lparr>u_s = [3, 2]\<rparr>))
     \<lparr>dv_struct = [2, 4], x_s0 = [1, 1, 1], f_s = [6, 8]\<rparr> (Some \<lparr>u_s = [3, 2]\<rparr>)
   = (demo_solver 0)\<lparr>tacs := \<lparr>design_vars = [2, 4], node_vec = [1, 1, 1], variables = [0, 2]\<rparr>,
        ans := [0, 2]\<rparr>"
proof -
  have "\<forall>t v. assembleJacobian (demo_engine 2 3) (t\<lparr>variables := v\<rparr>)
      = assembleJacobian (demo_engine 2 3) t"
    by (simp add: demo_engine_def)
  with update_internal_idempotent [of "demo_engine 2 3" "demo_solver 0"
      "\<lparr>dv_struct = [2, 4], x_s0 = [1, 1, 1], f_s = [6, 8]\<rparr>" "\<lparr>u_s = [3, 2]\<rparr>"]
  have "update_internal (demo_engine 2 3)
     (update_internal (demo_engine 2 3) (demo_solver 0)
        \<lparr>dv_struct = [2, 4], x_s0 = [1, 1, 1], f_s = [6, 8]\<rparr> (Some \<lparr>u_s = [3, 2]\<rparr>))
     \<lparr>dv_struct = [2, 4], x_s0 = [1, 1, 1], f_s = [6, 8]\<rparr> (Some \<lparr>u_s = [3, 2]\<rparr>)
   = update_internal (demo_engine 2 3) (demo_solver 0)
        \<lparr>dv_struct = [2, 4], x_s0 = [1, 1, 1], f_s = [6, 8]\<rparr> (Some \<lparr>u_s = [3, 2]\<rparr>)"
    by blast
  also have "\<dots> = (demo_solver 0)\<lparr>tacs := \<lparr>design_vars = [2, 4], node_vec = [1, 1, 1],
        variables = [0, 2]\<rparr>, ans := [0, 2]\<rparr>"
    by (simp add: update_internal_def demo_engine_def demo_solver_def Let_def)
  finally show ?thesis .
qed

section \<open>The mass output of \<open>TacsFunctions\<close>\<close>

lemma split_mass_result:
  "split_mass fs m acc =
     (m \<or> StructuralMass \<in> set fs, acc @ filter (\<lambda>f. f \<noteq> StructuralMass) fs)"
  by (induction fs m acc rule: split_mass.induct) (auto split: func.splits)

lemma demo_functions_setup:
  "setup_F (demo_engine 2 3)
      \<lparr>design_vars = [2, 4], node_vec = [0, 0, 0], variables = [0, 0]\<rparr> [2, 4] ()
      [StructuralMass, OtherFunction 0]
   = (\<lparr>tacs_F = \<lparr>design_vars = [2, 4], node_vec = [0, 0, 0], variables = [0, 0]\<rparr>,
       mat_F = [2, 4], pc_F = (), ans_F = [0, 0], xpt_sens_F = [0, 0, 0],
       mass = True, func_list = [OtherFunction 0], check_partials_F = True\<rparr>,
      [''mass'' \<mapsto> [0], ''f_struct'' \<mapsto> [0]])"
proof -
  have z: "zeros 2 = [0, 0]" "zeros 3 = [0, 0, 0]" "zeros (Suc 0) = [0]"
    by (simp_all add: zeros_def numeral_2_eq_2 numeral_3_eq_3)
  show ?thesis by (simp add: setup_F_def demo_engine_def z)
qed

lemma rev_mass_frame:
  "k \<noteq> ''dv_struct'' \<Longrightarrow> k \<noteq> ''x_s0'' \<Longrightarrow> snd (rev_mass E c d_in d_out) k = d_in k"
  by (auto simp: rev_mass_def Let_def split: option.splits)

text \<open>
  C5. The engine's mass function is taken not to depend on the state variables the engine
  holds, as the comment in \<open>setup\<close> says. Then two calls of \<open>compute\<close> whose inputs differ
  only in \<open>u_s\<close> give the same output \<open>mass\<close>, while the output \<open>f_struct\<close> can differ (it
  does on the small engine above). \<open>setup\<close> takes every mass function out of the function
  list. In reverse mode the block for \<open>mass\<close> writes only the entries \<open>dv_struct\<close> and
  \<open>x_s0\<close> of \<open>d_inputs\<close>: with a seed on \<open>mass\<close> alone, every other entry, \<open>u_s\<close> among them,
  is returned as it was.
\<close>

theorem mass_independent_of_state:
  assumes "\<forall>t v. evalFunctions E (t\<lparr>variables := v\<rparr>) [StructuralMass]
                 = evalFunctions E t [StructuralMass]"
    and "dv_struct_F i1 = dv_struct_F i2" and "x_s0_F i1 = x_s0_F i2"
  shows "snd (compute E c i1 outs) ''mass'' = snd (compute E c i2 outs) ''mass'' \<and>
    func_list (fst (setup_F E t0 m0 p0 funcs)) = filter (\<lambda>f. f \<noteq> StructuralMass) funcs \<and>
    (\<forall>k. k \<noteq> ''dv_struct'' \<and> k \<noteq> ''x_s0'' \<longrightarrow>
       snd (rev_mass E c d_in d_out) k = d_in k) \<and>
    (d_out ''f_struct'' = None \<longrightarrow>
       (\<forall>k. k \<noteq> ''dv_struct'' \<and> k \<noteq> ''x_s0'' \<longrightarrow>
          d_inputs_after_F (compute_jacvec_product E c i1 d_in d_out ''rev'') k = d_in k)) \<and>
    (\<exists>(E' :: (vec, unit) engine) c' j1 j2 outs'.
       dv_struct_F j1 = dv_struct_F j2 \<and> x_s0_F j1 = x_s0_F j2 \<and>
       snd (compute E' c' j1 outs') ''mass'' = snd (compute E' c' j2 outs') ''mass'' \<and>
       snd (compute E' c' j1 outs') ''f_struct'' \<noteq> snd (compute E' c' j2 outs') ''f_struct'')"
proof (intro conjI allI impI)
  have m: "evalFunctions E \<lparr>design_vars = a, node_vec = b, variables = v\<rparr> [StructuralMass]
      = evalFunctions E \<lparr>design_vars = a, node_vec = b, variables = w\<rparr> [StructuralMass]"
    for a b v w
  proof -
    have "evalFunctions E (\<lparr>design_vars = a, node_vec = b, variables = w\<rparr>\<lparr>variables := v\<rparr>)
        [StructuralMass]
      = evalFunctions E \<lparr>design_vars = a, node_vec = b, variables = w\<rparr> [StructuralMass]"
      using assms(1) by blast
    then show ?thesis by simp
  qed
  show "snd (compute E c i1 outs) ''mass'' = snd (compute E c i2 outs) ''mass''"
    using assms(2,3) m [of "dv_struct_F i2" "x_s0_F i2" "applyBCs E (u_s_F i1)"
        "applyBCs E (u_s_F i2)"]
    by (auto simp add: compute_outputs Let_def)
  show "func_list (fst (setup_F E t0 m0 p0 funcs)) = filter (\<lambda>f. f \<noteq> StructuralMass) funcs"
    by (simp add: setup_F_def split_mass_result Let_def)
next
  fix k assume "k \<noteq> ''dv_struct'' \<and> k \<noteq> ''x_s0''"
  then show "snd (rev_mass E c d_in d_out) k = d_in k"
    by (simp add: rev_mass_frame)
next
  fix k assume "d_out ''f_struct'' = None" and k: "k \<noteq> ''dv_struct'' \<and> k \<noteq> ''x_s0''"
  then show "d_inputs_after_F (compute_jacvec_product E c i1 d_in d_out ''rev'') k = d_in k"
    using rev_mass_frame [of k E "update_internal_F E c i1" d_in d_out]
      rev_mass_frame [of k E c d_in d_out]
    by (cases "rev_mass E (update_internal_F E c i1) d_in d_out";
        cases "rev_mass E c d_in d_out")
      (simp add: compute_jacvec_product_def d_inputs_after_F_def Let_def)
next
  let ?c = "fst (setup_F (demo_engine 2 3)
      \<lparr>design_vars = [2, 4], node_vec = [0, 0, 0], variables = [0, 0]\<rparr> [2, 4] ()
      [StructuralMass, OtherFunction 0])"
  let ?o = "snd (setup_F (demo_engine 2 3)
      \<lparr>design_vars = [2, 4], node_vec = [0, 0, 0], variables = [0, 0]\<rparr> [2, 4] ()
      [StructuralMass, OtherFunction 0])"
  let ?j1 = "\<lparr>dv_struct_F = [2, 4], x_s0_F = [0, 0, 0], u_s_F = [0, 1]\<rparr>"
  let ?j2 = "\<lparr>dv_struct_F = [2, 4], x_s0_F = [0, 0, 0], u_s_F = [0, 2]\<rparr>"
  have "dv_struct_F ?j1 = dv_struct_F ?j2 \<and> x_s0_F ?j1 = x_s0_F ?j2 \<and>
       snd (compute (demo_engine 2 3) ?c ?j1 ?o) ''mass''
         = snd (compute (demo_engine 2 3) ?c ?j2 ?o) ''mass'' \<and>
       snd (compute (demo_engine 2 3) ?c ?j1 ?o) ''f_struct''
         \<noteq> snd (compute (demo_engine 2 3) ?c ?j2 ?o) ''f_struct''"
    by (simp only: demo_functions_setup fst_conv snd_conv)
      (simp add: compute_outputs demo_engine_def Let_def)
  then show "\<exists>(E' :: (vec, unit) engine) c' j1 j2 outs'.
       dv_struct_F j1 = dv_struct_F j2 \<and> x_s0_F j1 = x_s0_F j2 \<and>
       snd (compute E' c' j1 outs') ''mass'' = snd (compute E' c' j2 outs') ''mass'' \<and>
       snd (compute E' c' j1 outs') ''f_struct'' \<noteq> snd (compute E' c' j2 outs') ''f_struct''"
    by blast
qed

theorem mass_independent_of_state_witness:
  "snd (compute (demo_engine 2 3)
          (fst (setup_F (demo_engine 2 3)
                 \<lparr>design_vars = [2, 4], node_vec = [0, 0, 0], variables = [0, 0]\<rparr> [2, 4] ()
                 [StructuralMass, OtherFunction 0]))
          \<lparr>dv_struct_F = [2, 4], x_s0_F = [0, 0, 0], u_s_F = [0, 1]\<rparr>
          [''mass'' \<mapsto> [0], ''f_struct'' \<mapsto> [0]]) ''mass''
     = Some [6]"
proof -
  let ?E = "demo_engine 2 3"
  let ?c = "fst (setup_F ?E
      \<lparr>design_vars = [2, 4], node_vec = [0, 0, 0], variables = [0, 0]\<rparr> [2, 4] ()
      [StructuralMass, OtherFunction 0])"
  let ?j1 = "\<lparr>dv_struct_F = [2, 4], x_s0_F = [0, 0, 0], u_s_F = [0, 1]\<rparr>"
  let ?j2 = "\<lparr>dv_struct_F = [2, 4], x_s0_F = [0, 0, 0], u_s_F = [0, 2]\<rparr>"
  let ?o = "[''mass'' \<mapsto> [0 :: real], ''f_struct'' \<mapsto> [0]]"
  have h: "\<forall>t v. evalFunctions ?E (t\<lparr>variables := v\<rparr>) [StructuralMass]
                 = evalFunctions ?E t [StructuralMass]"
    "dv_struct_F ?j1 = dv_struct_F ?j2" "x_s0_F ?j1 = x_s0_F ?j2"
    by (simp_all add: demo_engine_def)
  have "snd (compute ?E ?c ?j1 ?o) ''mass'' = snd (compute ?E ?c ?j2 ?o) ''mass''"
    using mass_independent_of_state [where E = ?E and ?i1.0 = ?j1 and ?i2.0 = ?j2
        and c = ?c and outs = ?o, OF h]
    by blast
  also have "\<dots> = Some [6]"
    by (simp only: demo_functions_setup fst_conv snd_conv)
      (simp add: compute_outputs demo_engine_def Let_def)
  finally show ?thesis .
qed

section \<open>Accumulation of the seeds in reverse mode\<close>

subsection \<open>Elementwise sums\<close>

lemma vadd_right_commute: "vadd (vadd x a) b = vadd (vadd x b) a"
  unfolding vadd_def
proof (induction x arbitrary: a b)
  case Nil
  then show ?case by simp
next
  case (Cons x xs)
  then show ?case by (cases a; cases b) simp_all
qed

lemma vsub_right_commute: "vsub (vsub x a) b = vsub (vsub x b) a"
  unfolding vsub_def
proof (induction x arbitrary: a b)
  case Nil
  then show ?case by simp
next
  case (Cons x xs)
  then show ?case by (cases a; cases b) simp_all
qed

lemma vsub_vadd_commute: "vsub (vadd x w) b = vadd (vsub x b) w"
  unfolding vsub_def vadd_def
proof (induction x arbitrary: w b)
  case Nil
  then show ?case by simp
next
  case (Cons x xs)
  then show ?case by (cases w; cases b) simp_all
qed

lemma length_vadd [simp]: "length (vadd x a) = min (length x) (length a)"
  by (simp add: vadd_def)

lemma length_vsub [simp]: "length (vsub x a) = min (length x) (length a)"
  by (simp add: vsub_def)

lemma vsub_uminus: "vsub old b = vadd old (map uminus b)"
  unfolding vsub_def vadd_def
proof (induction old arbitrary: b)
  case Nil
  then show ?case by simp
next
  case (Cons x xs)
  then show ?case by (cases b) simp_all
qed

lemma length_scale [simp]: "length (scale xs c) = length xs"
  by (simp add: scale_def)

lemma length_np_mul_1: "length a = 1 \<Longrightarrow> length (np_mul xs a) = length xs"
  by (simp add: np_mul_def)

subsection \<open>Adding contributions\<close>

lemma add_contrib_None [simp]: "add_contrib C d k = None \<longleftrightarrow> d k = None"
  by (simp add: add_contrib_def)

lemma shaped_dv: "shaped C \<Longrightarrow> C ''dv_struct'' n = Some c \<Longrightarrow> length c = n"
  unfolding shaped_def by blast

lemma shaped_indep: "shaped C \<Longrightarrow> k \<noteq> ''dv_struct'' \<Longrightarrow> C k n = C k 0"
  unfolding shaped_def by blast

lemma shaped_length:
  assumes "shaped C"
  shows "length (case C ''dv_struct'' (length old) of None \<Rightarrow> old | Some c \<Rightarrow> vadd old c)
       = length old"
proof (cases "C ''dv_struct'' (length old)")
  case None
  then show ?thesis by simp
next
  case (Some c)
  from shaped_dv [OF assms Some] Some show ?thesis by simp
qed

lemma shaped_same:
  assumes "shaped C" "shaped C'"
  shows "C k (length (case C' k (length old) of None \<Rightarrow> old | Some c \<Rightarrow> vadd old c))
       = C k (length old)"
proof (cases "k = ''dv_struct''")
  case True
  have "length (case C' ''dv_struct'' (length old) of None \<Rightarrow> old | Some c \<Rightarrow> vadd old c)
      = length old" using assms(2) by (rule shaped_length)
  then show ?thesis unfolding True by (simp only:)
next
  case False
  have i: "C k n = C k 0" for n using assms(1) False by (rule shaped_indep)
  show ?thesis by (simp only: i [of "length old"]) (rule i)
qed

lemma add1_commute: "add1 (add1 old a) b = add1 (add1 old b) a"
  by (cases a; cases b) (simp_all add: add1_def vadd_right_commute)

lemma add_contrib_add1:
  "add_contrib C d k = map_option (\<lambda>old. add1 old (C k (length old))) (d k)"
  by (simp add: add_contrib_def add1_def)

lemma shaped_same1:
  assumes "shaped C" "shaped C'"
  shows "C k (length (add1 old (C' k (length old)))) = C k (length old)"
  using shaped_same [OF assms, of k old] by (simp only: add1_def)

lemma add_contrib_commute:
  assumes "shaped C1" "shaped C2"
  shows "add_contrib C1 (add_contrib C2 d) = add_contrib C2 (add_contrib C1 d)"
proof (rule ext)
  fix k
  show "add_contrib C1 (add_contrib C2 d) k = add_contrib C2 (add_contrib C1 d) k"
  proof (cases "d k")
    case None
    then show ?thesis by (simp add: add_contrib_add1)
  next
    case (Some old)
    have "add_contrib C1 (add_contrib C2 d) k
        = Some (add1 (add1 old (C2 k (length old))) (C1 k (length old)))"
      using Some by (simp add: add_contrib_add1 shaped_same1 [OF assms(1) assms(2)])
    moreover have "add_contrib C2 (add_contrib C1 d) k
        = Some (add1 (add1 old (C1 k (length old))) (C2 k (length old)))"
      using Some by (simp add: add_contrib_add1 shaped_same1 [OF assms(2) assms(1)])
    ultimately show ?thesis by (simp only: add1_commute)
  qed
qed

lemma fits_add_contrib:
  assumes "shaped C" "fits d z"
  shows "fits (add_contrib C d) z"
  unfolding fits_def
proof (intro allI impI)
  fix old' w
  assume a: "add_contrib C d ''dv_struct'' = Some old' \<and> z ''dv_struct'' = Some w"
  then obtain old where o: "d ''dv_struct'' = Some old"
    and o': "old' = (case C ''dv_struct'' (length old) of None \<Rightarrow> old | Some c \<Rightarrow> vadd old c)"
    by (auto simp: add_contrib_def)
  have "length old' = length old" unfolding o' using assms(1) by (rule shaped_length)
  moreover have "length old \<le> length w" using assms(2) o a by (auto simp: fits_def)
  ultimately show "length old' \<le> length w" by simp
qed

lemma with_partial_seed_None [simp]: "with_partial_seed d z k = None \<longleftrightarrow> d k = None"
  by (simp add: with_partial_seed_def add_partial_seed_def split: option.splits)

lemma add_contrib_shift:
  assumes "shaped C" "fits d z"
  shows "add_contrib C (with_partial_seed d z) = with_partial_seed (add_contrib C d) z"
proof (rule ext)
  fix k
  show "add_contrib C (with_partial_seed d z) k = with_partial_seed (add_contrib C d) z k"
  proof (cases "d k")
    case None
    then show ?thesis by (simp add: add_contrib_def with_partial_seed_def add_partial_seed_def)
  next
    case (Some old)
    show ?thesis
    proof (cases "z k")
      case None
      with Some show ?thesis
        by (simp add: add_contrib_def with_partial_seed_def add_partial_seed_def)
    next
      case w: (Some w)
      have c: "C k (length (vadd old w)) = C k (length old)"
      proof (cases "k = ''dv_struct''")
        case True
        with assms(2) Some w have "length old \<le> length w" by (auto simp: fits_def)
        then have "length (vadd old w) = length old" by (simp add: min_def)
        then show ?thesis by (simp only:)
      next
        case False
        have i: "C k n = C k 0" for n using assms(1) False by (rule shaped_indep)
        show ?thesis by (simp only: i [of "length old"]) (rule i)
      qed
      have "add_contrib C (with_partial_seed d z) k
          = Some (add1 (add1 old (Some w)) (C k (length old)))"
        using Some w
        by (simp only: add_contrib_add1 with_partial_seed_def add_partial_seed_def
            option.case option.map add1_def c)
      moreover have "with_partial_seed (add_contrib C d) z k
          = Some (add1 (add1 old (C k (length old))) (Some w))"
        using Some w
        by (simp only: add_contrib_add1 with_partial_seed_def add_partial_seed_def
            option.case option.map add1_def)
      ultimately show ?thesis by (simp only: add1_commute)
    qed
  qed
qed

lemma fold_add_contrib_None [simp]: "fold add_contrib Cs d k = None \<longleftrightarrow> d k = None"
  by (induction Cs arbitrary: d) simp_all

lemma fold_add_contrib_commute:
  assumes "\<forall>C\<in>set Cs. shaped C" "shaped C'"
  shows "add_contrib C' (fold add_contrib Cs d) = fold add_contrib Cs (add_contrib C' d)"
  using assms(1)
proof (induction Cs arbitrary: d)
  case Nil
  then show ?case by simp
next
  case (Cons C Cs)
  then have "add_contrib C' (fold add_contrib Cs (add_contrib C d))
      = fold add_contrib Cs (add_contrib C' (add_contrib C d))" by simp
  also have "add_contrib C' (add_contrib C d) = add_contrib C (add_contrib C' d)"
    using assms(2) Cons.prems by (intro add_contrib_commute) simp_all
  finally show ?case by simp
qed

lemma fold_add_contrib_swap:
  assumes "\<forall>C\<in>set Cs1. shaped C" "\<forall>C\<in>set Cs2. shaped C"
  shows "fold add_contrib Cs2 (fold add_contrib Cs1 d)
       = fold add_contrib Cs1 (fold add_contrib Cs2 d)"
  using assms(2)
proof (induction Cs2 arbitrary: d)
  case Nil
  then show ?case by simp
next
  case (Cons C Cs2)
  have "fold add_contrib (C # Cs2) (fold add_contrib Cs1 d)
      = fold add_contrib Cs2 (add_contrib C (fold add_contrib Cs1 d))" by simp
  also have "add_contrib C (fold add_contrib Cs1 d) = fold add_contrib Cs1 (add_contrib C d)"
    using assms(1) Cons.prems by (intro fold_add_contrib_commute) simp_all
  also have "fold add_contrib Cs2 (fold add_contrib Cs1 (add_contrib C d))
      = fold add_contrib Cs1 (fold add_contrib Cs2 (add_contrib C d))"
    using Cons.prems by (intro Cons.IH) simp
  finally show ?case by simp
qed

lemma fold_add_contrib_shift:
  assumes "\<forall>C\<in>set Cs. shaped C" "fits d z"
  shows "fold add_contrib Cs (with_partial_seed d z) = with_partial_seed (fold add_contrib Cs d) z"
  using assms
proof (induction Cs arbitrary: d)
  case Nil
  then show ?case by simp
next
  case (Cons C Cs)
  then have s: "shaped C" and f: "fits (add_contrib C d) z"
    by (simp_all add: fits_add_contrib)
  have "fold add_contrib (C # Cs) (with_partial_seed d z)
      = fold add_contrib Cs (add_contrib C (with_partial_seed d z))" by simp
  also have "add_contrib C (with_partial_seed d z) = with_partial_seed (add_contrib C d) z"
    using s Cons.prems(2) by (rule add_contrib_shift)
  also have "fold add_contrib Cs (with_partial_seed (add_contrib C d) z)
      = with_partial_seed (fold add_contrib Cs (add_contrib C d)) z"
    using Cons.prems(1) f by (intro Cons.IH) simp_all
  finally show ?case by simp
qed

lemma fits_sizes:
  "\<forall>k old w. d k = Some old \<and> z k = Some w \<longrightarrow> length w = length old \<Longrightarrow> fits d z"
  unfolding fits_def by (metis order_refl)

lemma add_contrib_at:
  "add_contrib (contrib_at key v) d =
     (case d key of None \<Rightarrow> d | Some old \<Rightarrow> d(key \<mapsto> vadd old (v (length old))))"
proof (rule ext)
  fix k
  show "add_contrib (contrib_at key v) d k =
     (case d key of None \<Rightarrow> d | Some old \<Rightarrow> d(key \<mapsto> vadd old (v (length old)))) k"
  proof (cases "k = key")
    case True
    then show ?thesis by (cases "d key") (simp_all add: add_contrib_def contrib_at_def)
  next
    case False
    then show ?thesis
      by (cases "d key"; cases "d k") (simp_all add: add_contrib_def contrib_at_def)
  qed
qed

lemma shaped_contrib_at_dv:
  "\<forall>L. length (v L) = L \<Longrightarrow> shaped (contrib_at ''dv_struct'' v)"
  unfolding shaped_def contrib_at_def by simp

lemma shaped_contrib_at_const:
  "key \<noteq> ''dv_struct'' \<Longrightarrow> shaped (contrib_at key (\<lambda>L. c))"
  unfolding shaped_def contrib_at_def by simp

subsection \<open>One call of \<open>apply_linear\<close>\<close>

lemma rev_d_outputs_fields:
  "snd (rev_d_outputs E s out d_out) =
     (\<lambda>k. if k = ''u_s''
          then map_option (\<lambda>old. vadd old (applyBCs E (mat_mult E (mat s) (u_s out)))) (d_out k)
          else d_out k)"
  "ndof (fst (rev_d_outputs E s out d_out)) = ndof s"
  "rank (fst (rev_d_outputs E s out d_out)) = rank s"
  "tacs (fst (rev_d_outputs E s out d_out)) =
     (if d_out ''u_s'' = None then tacs s else (tacs s)\<lparr>variables := u_s out\<rparr>)"
  "length (res (fst (rev_d_outputs E s out d_out))) =
     (if d_out ''u_s'' = None then length (res s)
      else length (applyBCs E (mat_mult E (mat s) (u_s out))))"
  by (auto simp add: rev_d_outputs_def Let_def fun_eq_iff split: option.splits)

lemma rev_f_s_Inr:
  assumes "rev_f_s E s i seed d = Inr (s2, d2)"
  shows "\<exists>buf. (d ''f_s'' \<noteq> None \<longrightarrow>
            load_seed_loop (ndof s) seed [0..<length (x_s0 i) div 3]
              (zeros (length (res s))) = Inr buf) \<and>
          d2 = (\<lambda>k. if k = ''f_s'' then map_option (\<lambda>old. vsub old (applyBCs E buf)) (d k)
                   else d k) \<and>
          ndof s2 = ndof s \<and> rank s2 = rank s \<and> tacs s2 = tacs s \<and>
          length (res s2) = (if d ''f_s'' = None then length (res s)
                             else length (applyBCs E buf))"
proof (cases "d ''f_s''")
  case None
  with assms have "s2 = s" "d2 = d" by (simp_all add: rev_f_s_def)
  moreover have "d = (\<lambda>k. if k = ''f_s'' then map_option (\<lambda>old. vsub old (applyBCs E [])) (d k)
                   else d k)"
    using None by (auto simp: fun_eq_iff)
  ultimately show ?thesis using None by auto
next
  case (Some old)
  with assms obtain buf where
    loop: "load_seed_loop (ndof s) seed [0..<length (x_s0 i) div 3]
              (zeros (length (res s))) = Inr buf"
    and s2: "s2 = s\<lparr>res := applyBCs E buf\<rparr>"
    and d2: "d2 = d(''f_s'' \<mapsto> vsub old (applyBCs E buf))"
    by (auto simp add: rev_f_s_def Let_def split: sum.splits)
  have "d(''f_s'' \<mapsto> vsub old (applyBCs E buf))
      = (\<lambda>k. if k = ''f_s'' then map_option (\<lambda>old. vsub old (applyBCs E buf)) (d k)
                   else d k)"
    using Some by (auto simp: fun_eq_iff)
  with loop s2 d2 Some show ?thesis by auto
qed

lemma rev_f_s_Inl: "rev_f_s E s i seed d = Inl e \<Longrightarrow> e = IndexError"
  by (auto simp add: rev_f_s_def Let_def split: option.splits sum.splits
      dest: load_seed_loop_Inl)

lemma rev_x_s0_fields:
  "snd (rev_x_s0 E s seed d) =
     (\<lambda>k. if k = ''x_s0''
          then map_option (\<lambda>old. vadd old (evalAdjointResXptSensProduct E (tacs s) seed)) (d k)
          else d k)"
  "ndof (fst (rev_x_s0 E s seed d)) = ndof s"
  "rank (fst (rev_x_s0 E s seed d)) = rank s"
  "tacs (fst (rev_x_s0 E s seed d)) = tacs s"
  "res (fst (rev_x_s0 E s seed d)) = res s"
  by (auto simp add: rev_x_s0_def Let_def fun_eq_iff split: option.splits)

lemma rev_dv_struct_fields:
  "snd (rev_dv_struct E s seed d) =
     (\<lambda>k. if k = ''dv_struct''
          then map_option (\<lambda>old. if rank s = 0
                 then vadd old (evalAdjointResProduct E (tacs s) seed (length old)) else old) (d k)
          else d k)"
  "ndof (fst (rev_dv_struct E s seed d)) = ndof s"
  "rank (fst (rev_dv_struct E s seed d)) = rank s"
  "tacs (fst (rev_dv_struct E s seed d)) = tacs s"
  "res (fst (rev_dv_struct E s seed d)) = res s"
  by (auto simp add: rev_dv_struct_def Let_def fun_eq_iff split: option.splits)

lemma update_internal_fields:
  "ndof (update_internal E s i (Some out)) = ndof s"
  "rank (update_internal E s i (Some out)) = rank s"
  "res (update_internal E s i (Some out)) = res s"
  "mat (update_internal E s i (Some out)) =
     assembleJacobian E ((tacs s)\<lparr>design_vars := dv_struct i, node_vec := x_s0 i\<rparr>)"
  by (simp_all add: update_internal_def Let_def)

lemma T_of_tacs:
  "(if d_out ''u_s'' = None then tacs (update_internal E s i (Some out))
    else (tacs (update_internal E s i (Some out)))\<lparr>variables := u_s out\<rparr>)
   = T_of E i out d_out"
  by (simp add: T_of_def update_internal_tacs)

lemma apply_linear_rev_unfold:
  assumes "d_res ''u_s'' = Some seed"
  shows "apply_linear E s i out d_in d_out d_res ''rev'' =
     (case rev_f_s E (fst (rev_d_outputs E (update_internal E s i (Some out)) out d_out))
             i seed d_in of
        Inl e \<Rightarrow> Inl e
      | Inr (s2, d2) \<Rightarrow>
          Inr (fst (rev_dv_struct E (fst (rev_x_s0 E s2 seed d2)) seed
                      (snd (rev_x_s0 E s2 seed d2))),
               snd (rev_dv_struct E (fst (rev_x_s0 E s2 seed d2)) seed
                      (snd (rev_x_s0 E s2 seed d2))),
               snd (rev_d_outputs E (update_internal E s i (Some out)) out d_out)))"
  using assms
  by (simp add: apply_linear_def Let_def split_beta split: sum.splits prod.splits)

lemma apply_linear_rev_Inr:
  assumes call: "apply_linear E s i out d_in d_out d_res ''rev'' = Inr (s', d_in', d_out')"
    and seed: "d_res ''u_s'' = Some seed"
  shows "\<exists>buf. (d_in ''f_s'' \<noteq> None \<longrightarrow>
            load_seed_loop (ndof s) seed [0..<length (x_s0 i) div 3]
              (zeros (m_of E s i out d_out)) = Inr buf) \<and>
          d_in' = seed_update E (T_of E i out d_out) (rank s) buf seed d_in \<and>
          d_out' = d_out_update E s i out d_out \<and>
          ndof s' = ndof s \<and> rank s' = rank s \<and>
          length (res s') = (if d_in ''f_s'' = None then m_of E s i out d_out
                             else length (applyBCs E buf))"
proof -
  have unf: "apply_linear E s i out d_in d_out d_res ''rev'' =
     (case rev_f_s E (fst (rev_d_outputs E (update_internal E s i (Some out)) out d_out))
             i seed d_in of
        Inl e \<Rightarrow> Inl e
      | Inr (s2, d2) \<Rightarrow>
          Inr (fst (rev_dv_struct E (fst (rev_x_s0 E s2 seed d2)) seed
                      (snd (rev_x_s0 E s2 seed d2))),
               snd (rev_dv_struct E (fst (rev_x_s0 E s2 seed d2)) seed
                      (snd (rev_x_s0 E s2 seed d2))),
               snd (rev_d_outputs E (update_internal E s i (Some out)) out d_out)))"
    using seed by (rule apply_linear_rev_unfold)
  define s1 where "s1 = fst (rev_d_outputs E (update_internal E s i (Some out)) out d_out)"
  have s1: "ndof s1 = ndof s" "rank s1 = rank s" "tacs s1 = T_of E i out d_out"
    "length (res s1) = m_of E s i out d_out"
    by (simp_all add: s1_def rev_d_outputs_fields update_internal_fields T_of_tacs m_of_def)
  from call obtain s2 d2 where
    b2: "rev_f_s E s1 i seed d_in = Inr (s2, d2)"
    and s': "s' = fst (rev_dv_struct E (fst (rev_x_s0 E s2 seed d2)) seed
                      (snd (rev_x_s0 E s2 seed d2)))"
    and d': "d_in' = snd (rev_dv_struct E (fst (rev_x_s0 E s2 seed d2)) seed
                      (snd (rev_x_s0 E s2 seed d2)))"
    and o': "d_out' = snd (rev_d_outputs E (update_internal E s i (Some out)) out d_out)"
    unfolding unf s1_def [symmetric]
    by (auto split: sum.splits)
  from rev_f_s_Inr [OF b2] obtain buf where
    loop: "d_in ''f_s'' \<noteq> None \<longrightarrow>
            load_seed_loop (ndof s1) seed [0..<length (x_s0 i) div 3]
              (zeros (length (res s1))) = Inr buf"
    and d2: "d2 = (\<lambda>k. if k = ''f_s'' then map_option (\<lambda>old. vsub old (applyBCs E buf)) (d_in k)
                   else d_in k)"
    and s2: "ndof s2 = ndof s1" "rank s2 = rank s1" "tacs s2 = tacs s1"
      "length (res s2) = (if d_in ''f_s'' = None then length (res s1)
                             else length (applyBCs E buf))"
    by blast
  have "d_in' = seed_update E (T_of E i out d_out) (rank s) buf seed d_in"
    unfolding d' rev_dv_struct_fields rev_x_s0_fields s2 s1 d2 seed_update_def
    by (auto simp: fun_eq_iff)
  moreover have "d_out' = d_out_update E s i out d_out"
    unfolding o' rev_d_outputs_fields update_internal_fields d_out_update_def ..
  moreover have "ndof s' = ndof s" "rank s' = rank s"
    "length (res s') = (if d_in ''f_s'' = None then m_of E s i out d_out
                             else length (applyBCs E buf))"
    unfolding s' rev_dv_struct_fields rev_x_s0_fields s2 s1 by simp_all
  ultimately show ?thesis using loop s1 by auto
qed

lemma apply_linear_rev_returns:
  assumes seed: "d_res ''u_s'' = Some seed"
    and ok: "d_in ''f_s'' = None \<or>
       (\<exists>buf. load_seed_loop (ndof s) seed [0..<length (x_s0 i) div 3]
              (zeros (m_of E s i out d_out)) = Inr buf)"
  shows "\<exists>s' d_in' d_out'.
     apply_linear E s i out d_in d_out d_res ''rev'' = Inr (s', d_in', d_out')"
proof -
  have unf: "apply_linear E s i out d_in d_out d_res ''rev'' =
     (case rev_f_s E (fst (rev_d_outputs E (update_internal E s i (Some out)) out d_out))
             i seed d_in of
        Inl e \<Rightarrow> Inl e
      | Inr (s2, d2) \<Rightarrow>
          Inr (fst (rev_dv_struct E (fst (rev_x_s0 E s2 seed d2)) seed
                      (snd (rev_x_s0 E s2 seed d2))),
               snd (rev_dv_struct E (fst (rev_x_s0 E s2 seed d2)) seed
                      (snd (rev_x_s0 E s2 seed d2))),
               snd (rev_d_outputs E (update_internal E s i (Some out)) out d_out)))"
    using seed by (rule apply_linear_rev_unfold)
  define s1 where "s1 = fst (rev_d_outputs E (update_internal E s i (Some out)) out d_out)"
  have s1: "ndof s1 = ndof s" "length (res s1) = m_of E s i out d_out"
    by (simp_all add: s1_def rev_d_outputs_fields update_internal_fields m_of_def)
  from ok have "\<exists>s2 d2. rev_f_s E s1 i seed d_in = Inr (s2, d2)"
    by (auto simp add: rev_f_s_def s1 Let_def split: option.splits)
  then show ?thesis
    unfolding unf s1_def [symmetric] by auto
qed

lemma load_seed_loop_length:
  "load_seed_loop nd seed ns b = Inr b' \<Longrightarrow> length b' = length b"
proof (induction ns arbitrary: b)
  case Nil
  then show ?case by simp
next
  case (Cons i ns)
  from Cons.prems obtain b1 where
    inner: "load_seed_inner nd i seed [0..<3] b = Inr b1"
    and rest: "load_seed_loop nd seed ns b1 = Inr b'"
    by (auto split: sum.splits)
  from load_seed_inner_Inr [OF inner] Cons.IH [OF rest] show ?case by simp
qed

lemma apply_linear_rev_None:
  "d_res ''u_s'' = None \<Longrightarrow>
   apply_linear E s i out d_in d_out d_res ''rev'' =
     Inr (update_internal E s i (Some out), d_in, d_out)"
  by (simp add: apply_linear_def Let_def)

lemma jacobian_fixed:
  assumes "\<forall>t v. assembleJacobian E (t\<lparr>variables := v\<rparr>) = assembleJacobian E t"
  shows "assembleJacobian E (t'\<lparr>design_vars := a, node_vec := b\<rparr>)
       = assembleJacobian E (t\<lparr>design_vars := a, node_vec := b\<rparr>)"
proof -
  have "t'\<lparr>design_vars := a, node_vec := b\<rparr>
      = (t\<lparr>design_vars := a, node_vec := b\<rparr>)\<lparr>variables := variables t'\<rparr>"
    by (cases t; cases t') simp
  then have "assembleJacobian E (t'\<lparr>design_vars := a, node_vec := b\<rparr>)
      = assembleJacobian E ((t\<lparr>design_vars := a, node_vec := b\<rparr>)\<lparr>variables := variables t'\<rparr>)"
    by (simp only:)
  also have "\<dots> = assembleJacobian E (t\<lparr>design_vars := a, node_vec := b\<rparr>)"
    using assms by blast
  finally show ?thesis .
qed

lemma m_of_fixed:
  assumes "\<forall>t v. assembleJacobian E (t\<lparr>variables := v\<rparr>) = assembleJacobian E t"
    and "d_out' ''u_s'' = None \<longleftrightarrow> d_out ''u_s'' = None"
    and "d_out ''u_s'' = None \<longrightarrow> length (res s') = length (res s)"
  shows "m_of E s' i out d_out' = m_of E s i out d_out"
proof -
  have "assembleJacobian E ((tacs s')\<lparr>design_vars := dv_struct i, node_vec := x_s0 i\<rparr>)
      = assembleJacobian E ((tacs s)\<lparr>design_vars := dv_struct i, node_vec := x_s0 i\<rparr>)"
    using assms(1) by (rule jacobian_fixed)
  then have "length (applyBCs E (mat_mult E
        (assembleJacobian E ((tacs s')\<lparr>design_vars := dv_struct i, node_vec := x_s0 i\<rparr>))
        (u_s out)))
      = length (applyBCs E (mat_mult E
        (assembleJacobian E ((tacs s)\<lparr>design_vars := dv_struct i, node_vec := x_s0 i\<rparr>))
        (u_s out)))"
    by (simp only:)
  then show ?thesis using assms(2,3) unfolding m_of_def by (cases "d_out ''u_s''") auto
qed

lemma d_out_update_key: "d_out_update E s i out d ''u_s'' = None \<longleftrightarrow> d ''u_s'' = None"
  by (simp add: d_out_update_def)

lemma T_of_cong: "(d' ''u_s'' = None \<longleftrightarrow> d ''u_s'' = None) \<Longrightarrow> T_of E i out d' = T_of E i out d"
  by (simp add: T_of_def)

lemma shaped_solver_contrib:
  assumes "\<forall>t psi n. length (evalAdjointResProduct E t psi n) = n"
  shows "shaped (solver_contrib E T rk nd n m seed)"
  unfolding shaped_def
proof (intro conjI allI impI)
  fix L c assume "solver_contrib E T rk nd n m seed ''dv_struct'' L = Some c"
  then have "c = evalAdjointResProduct E T seed L"
    by (simp add: solver_contrib_def split: if_splits)
  then show "length c = L" using assms by simp
next
  fix k :: string and L assume "k \<noteq> ''dv_struct''"
  then show "solver_contrib E T rk nd n m seed k L = solver_contrib E T rk nd n m seed k 0"
    by (simp add: solver_contrib_def)
qed

lemma shaped_solver_contribs:
  assumes "\<forall>t psi n. length (evalAdjointResProduct E t psi n) = n"
  shows "\<forall>C\<in>set (solver_contribs E T rk nd n m r). shaped C"
proof (cases "r ''u_s''")
  case None
  then show ?thesis by (simp add: solver_contribs_def)
next
  case (Some seed)
  then show ?thesis using shaped_solver_contrib [OF assms, of T rk nd n m seed]
    by (simp add: solver_contribs_def)
qed

lemma seed_update_contrib:
  assumes "d ''f_s'' \<noteq> None \<longrightarrow> load_seed_loop nd seed [0..<n] (zeros m) = Inr buf"
  shows "seed_update E T rk buf seed d = add_contrib (solver_contrib E T rk nd n m seed) d"
proof (rule ext)
  fix k
  consider "k = ''f_s''" | "k = ''x_s0''" | "k = ''dv_struct''"
    | "k \<noteq> ''f_s''" "k \<noteq> ''x_s0''" "k \<noteq> ''dv_struct''" by blast
  then show "seed_update E T rk buf seed d k
      = add_contrib (solver_contrib E T rk nd n m seed) d k"
  proof cases
    case 1
    show ?thesis
    proof (cases "d ''f_s''")
      case None
      then show ?thesis unfolding 1 by (simp add: seed_update_def add_contrib_def)
    next
      case (Some old)
      with assms have "load_seed_loop nd seed [0..<n] (zeros m) = Inr buf" by simp
      with Some show ?thesis unfolding 1
        by (simp add: seed_update_def add_contrib_def solver_contrib_def vsub_uminus)
    qed
  next
    case 2
    show ?thesis unfolding 2
      by (cases "d ''x_s0''") (simp_all add: seed_update_def add_contrib_def solver_contrib_def)
  next
    case 3
    show ?thesis unfolding 3
      by (cases "d ''dv_struct''")
        (simp_all add: seed_update_def add_contrib_def solver_contrib_def)
  next
    case 4
    then show ?thesis
      by (cases "d k") (simp_all add: seed_update_def add_contrib_def solver_contrib_def)
  qed
qed

lemma apply_linear_rev_bad:
  assumes "apply_linear E s i out d_in d_out r ''rev'' = Inl e"
  shows "solver_bad (ndof s) (length (x_s0 i) div 3) (m_of E s i out d_out) r d_in"
proof (cases "r ''u_s''")
  case None
  then show ?thesis using assms by (simp add: apply_linear_rev_None)
next
  case (Some seed)
  show ?thesis
  proof (rule ccontr)
    assume "\<not> ?thesis"
    then have "d_in ''f_s'' = None \<or>
       (\<exists>buf. load_seed_loop (ndof s) seed [0..<length (x_s0 i) div 3]
              (zeros (m_of E s i out d_out)) = Inr buf)"
      using Some
      by (cases "load_seed_loop (ndof s) seed [0..<length (x_s0 i) div 3]
              (zeros (m_of E s i out d_out))") (auto simp: solver_bad_def)
    with Some have "\<exists>s' d_in' d_out'.
       apply_linear E s i out d_in d_out r ''rev'' = Inr (s', d_in', d_out')"
      by (rule apply_linear_rev_returns)
    with assms show False by simp
  qed
qed

lemma apply_linear_rev_good:
  assumes call: "apply_linear E s i out d_in d_out r ''rev'' = Inr (s', d', o')"
    and bc: "\<forall>v. length (applyBCs E v) = length v"
  shows "\<not> solver_bad (ndof s) (length (x_s0 i) div 3) (m_of E s i out d_out) r d_in \<and>
     d' = fold add_contrib (solver_contribs E (T_of E i out d_out) (rank s) (ndof s)
            (length (x_s0 i) div 3) (m_of E s i out d_out) r) d_in \<and>
     ndof s' = ndof s \<and> rank s' = rank s \<and>
     (o' ''u_s'' = None \<longleftrightarrow> d_out ''u_s'' = None) \<and>
     (d_out ''u_s'' = None \<longrightarrow> length (res s') = length (res s))"
proof (cases "r ''u_s''")
  case None
  with call have "s' = update_internal E s i (Some out)" "d' = d_in" "o' = d_out"
    by (simp_all add: apply_linear_rev_None)
  with None show ?thesis
    by (simp add: solver_bad_def solver_contribs_def update_internal_fields)
next
  case (Some seed)
  from apply_linear_rev_Inr [OF call Some] obtain buf where
    loop: "d_in ''f_s'' \<noteq> None \<longrightarrow>
            load_seed_loop (ndof s) seed [0..<length (x_s0 i) div 3]
              (zeros (m_of E s i out d_out)) = Inr buf"
    and d': "d' = seed_update E (T_of E i out d_out) (rank s) buf seed d_in"
    and o': "o' = d_out_update E s i out d_out"
    and s': "ndof s' = ndof s" "rank s' = rank s"
      "length (res s') = (if d_in ''f_s'' = None then m_of E s i out d_out
                             else length (applyBCs E buf))"
    by blast
  have nb: "\<not> solver_bad (ndof s) (length (x_s0 i) div 3) (m_of E s i out d_out) r d_in"
    using Some loop by (auto simp: solver_bad_def)
  have eff: "d' = fold add_contrib (solver_contribs E (T_of E i out d_out) (rank s) (ndof s)
            (length (x_s0 i) div 3) (m_of E s i out d_out) r) d_in"
    unfolding d' using Some
      seed_update_contrib [where d = d_in and nd = "ndof s" and seed = seed
        and n = "length (x_s0 i) div 3" and m = "m_of E s i out d_out" and buf = buf
        and E = E and T = "T_of E i out d_out" and rk = "rank s"] loop
    by (simp add: solver_contribs_def)
  have key: "o' ''u_s'' = None \<longleftrightarrow> d_out ''u_s'' = None"
    unfolding o' by (rule d_out_update_key)
  have len: "length (res s') = length (res s)" if n: "d_out ''u_s'' = None"
  proof (cases "d_in ''f_s''")
    case None
    with s' n show ?thesis by (simp add: m_of_def)
  next
    case (Some old)
    with loop have "load_seed_loop (ndof s) seed [0..<length (x_s0 i) div 3]
              (zeros (m_of E s i out d_out)) = Inr buf" by simp
    from load_seed_loop_length [OF this] have "length buf = m_of E s i out d_out"
      by (simp add: zeros_def)
    with s' Some bc n show ?thesis by (simp add: m_of_def)
  qed
  from nb eff s' key len show ?thesis by blast
qed

lemma solver_bad_cong:
  "(d' ''f_s'' = None \<longleftrightarrow> d ''f_s'' = None) \<Longrightarrow> solver_bad nd n m r d' = solver_bad nd n m r d"
  by (simp add: solver_bad_def split: option.splits)

lemma apply_linear_effect:
  assumes bc: "\<forall>v. length (applyBCs E v) = length v"
  shows "d_inputs_after (apply_linear E s i out d_in d_out r ''rev'') k =
     (if solver_bad (ndof s) (length (x_s0 i) div 3) (m_of E s i out d_out) r d_in then None
      else fold add_contrib (solver_contribs E (T_of E i out d_out) (rank s) (ndof s)
             (length (x_s0 i) div 3) (m_of E s i out d_out) r) d_in k)"
proof (cases "apply_linear E s i out d_in d_out r ''rev''")
  case (Inl e)
  from apply_linear_rev_bad [OF Inl] Inl show ?thesis by (simp add: d_inputs_after_def)
next
  case (Inr x)
  obtain s' d' o' where x: "x = (s', d', o')" by (cases x)
  from apply_linear_rev_good [OF Inr [unfolded x] bc] Inr x show ?thesis
    by (simp add: d_inputs_after_def)
qed

subsection \<open>Two calls of \<open>apply_linear\<close>\<close>

lemma apply_linear_twice_effect:
  assumes bc: "\<forall>v. length (applyBCs E v) = length v"
    and jac: "\<forall>t v. assembleJacobian E (t\<lparr>variables := v\<rparr>) = assembleJacobian E t"
  shows "d_inputs_after (apply_linear_twice E s i out d_in d_out r1 r2) k =
     (if solver_bad (ndof s) (length (x_s0 i) div 3) (m_of E s i out d_out) r1 d_in \<or>
         solver_bad (ndof s) (length (x_s0 i) div 3) (m_of E s i out d_out) r2 d_in then None
      else fold add_contrib
             (solver_contribs E (T_of E i out d_out) (rank s) (ndof s)
                (length (x_s0 i) div 3) (m_of E s i out d_out) r1 @
              solver_contribs E (T_of E i out d_out) (rank s) (ndof s)
                (length (x_s0 i) div 3) (m_of E s i out d_out) r2) d_in k)"
proof (cases "apply_linear E s i out d_in d_out r1 ''rev''")
  case (Inl e)
  from apply_linear_rev_bad [OF Inl] Inl show ?thesis
    by (simp add: apply_linear_twice_def d_inputs_after_def)
next
  case (Inr x)
  obtain s1 d1 o1 where x: "x = (s1, d1, o1)" by (cases x)
  note c = apply_linear_rev_good [OF Inr [unfolded x] bc]
  from c have nb: "\<not> solver_bad (ndof s) (length (x_s0 i) div 3) (m_of E s i out d_out) r1 d_in"
    and d1: "d1 = fold add_contrib (solver_contribs E (T_of E i out d_out) (rank s) (ndof s)
            (length (x_s0 i) div 3) (m_of E s i out d_out) r1) d_in"
    and s1: "ndof s1 = ndof s" "rank s1 = rank s"
    and key: "o1 ''u_s'' = None \<longleftrightarrow> d_out ''u_s'' = None"
    and len: "d_out ''u_s'' = None \<longrightarrow> length (res s1) = length (res s)"
    by blast+
  have T: "T_of E i out o1 = T_of E i out d_out" using key by (rule T_of_cong)
  have m: "m_of E s1 i out o1 = m_of E s i out d_out" using jac key len by (rule m_of_fixed)
  have f: "d1 ''f_s'' = None \<longleftrightarrow> d_in ''f_s'' = None" unfolding d1 by simp
  have b: "solver_bad (ndof s) (length (x_s0 i) div 3) (m_of E s i out d_out) r2 d1
      = solver_bad (ndof s) (length (x_s0 i) div 3) (m_of E s i out d_out) r2 d_in"
    using f by (rule solver_bad_cong)
  have "d_inputs_after (apply_linear_twice E s i out d_in d_out r1 r2) k
      = d_inputs_after (apply_linear E s1 i out d1 o1 r2 ''rev'') k"
    using Inr x by (simp add: apply_linear_twice_def)
  also have "\<dots> = (if solver_bad (ndof s) (length (x_s0 i) div 3) (m_of E s i out d_out) r2 d1
      then None
      else fold add_contrib (solver_contribs E (T_of E i out d_out) (rank s) (ndof s)
             (length (x_s0 i) div 3) (m_of E s i out d_out) r2) d1 k)"
    using apply_linear_effect [OF bc, of s1 i out d1 o1 r2 k] by (simp only: T m s1)
  finally show ?thesis using nb
    by (simp only: b [unfolded d1] d1 fold_append comp_apply if_False simp_thms)
qed

lemma apply_linear_commutes:
  assumes sh: "engine_shapes E"
    and jac: "\<forall>t v. assembleJacobian E (t\<lparr>variables := v\<rparr>) = assembleJacobian E t"
  shows "d_inputs_after (apply_linear_twice E s i out d_in d_out r1 r2) k
       = d_inputs_after (apply_linear_twice E s i out d_in d_out r2 r1) k"
proof -
  from sh have bc: "\<forall>v. length (applyBCs E v) = length v"
    and ap: "\<forall>t psi n. length (evalAdjointResProduct E t psi n) = n"
    by (simp_all add: engine_shapes_def)
  let ?C1 = "solver_contribs E (T_of E i out d_out) (rank s) (ndof s)
                (length (x_s0 i) div 3) (m_of E s i out d_out) r1"
  let ?C2 = "solver_contribs E (T_of E i out d_out) (rank s) (ndof s)
                (length (x_s0 i) div 3) (m_of E s i out d_out) r2"
  have "fold add_contrib ?C2 (fold add_contrib ?C1 d_in)
      = fold add_contrib ?C1 (fold add_contrib ?C2 d_in)"
    using shaped_solver_contribs [OF ap] shaped_solver_contribs [OF ap]
    by (rule fold_add_contrib_swap)
  then have "fold add_contrib (?C1 @ ?C2) d_in = fold add_contrib (?C2 @ ?C1) d_in"
    by (simp only: fold_append comp_apply)
  then show ?thesis
    unfolding apply_linear_twice_effect [OF bc jac] by (simp only: disj_commute)
qed

lemma apply_linear_shift:
  assumes sh: "engine_shapes E"
    and fit: "fits d_in z"
  shows "d_inputs_after
           (apply_linear E s i out (with_partial_seed d_in z) d_out r ''rev'') k
       = add_partial_seed (d_inputs_after (apply_linear E s i out d_in d_out r ''rev'') k) (z k)"
proof -
  from sh have bc: "\<forall>v. length (applyBCs E v) = length v"
    and ap: "\<forall>t psi n. length (evalAdjointResProduct E t psi n) = n"
    by (simp_all add: engine_shapes_def)
  let ?C = "solver_contribs E (T_of E i out d_out) (rank s) (ndof s)
                (length (x_s0 i) div 3) (m_of E s i out d_out) r"
  have b: "solver_bad (ndof s) (length (x_s0 i) div 3) (m_of E s i out d_out) r
             (with_partial_seed d_in z)
      = solver_bad (ndof s) (length (x_s0 i) div 3) (m_of E s i out d_out) r d_in"
    by (rule solver_bad_cong) simp
  have f: "fold add_contrib ?C (with_partial_seed d_in z)
      = with_partial_seed (fold add_contrib ?C d_in) z"
    using shaped_solver_contribs [OF ap] fit by (rule fold_add_contrib_shift)
  show ?thesis
    unfolding apply_linear_effect [OF bc] b f
    by (simp add: with_partial_seed_def add_partial_seed_def)
qed

subsection \<open>One call of \<open>compute_jacvec_product\<close>\<close>

lemma shaped_step_contribs:
  assumes "\<forall>t f n. length (evalDVSens E t f n) = n"
  shows "\<forall>C\<in>set (step_contribs E T c f). shaped C"
  using assms
  by (simp add: step_contribs_def shaped_contrib_at_dv shaped_contrib_at_const)

lemma shaped_loop_contribs:
  assumes "\<forall>t f n. length (evalDVSens E t f n) = n"
  shows "\<forall>C\<in>set (loop_contribs E T seed fs). shaped C"
  using shaped_step_contribs [OF assms]
  by (auto simp add: loop_contribs_def)

lemma shaped_mass_contribs:
  assumes "\<forall>t f n. length (evalDVSens E t f n) = n"
    and "\<forall>a. d_out ''mass'' = Some a \<longrightarrow> length a = 1"
  shows "\<forall>C\<in>set (mass_contribs E T d_out). shaped C"
proof (cases "d_out ''mass''")
  case None
  then show ?thesis by (simp add: mass_contribs_def)
next
  case (Some a)
  with assms(2) have "length a = 1" by simp
  then have "\<forall>L. length (np_mul (evalDVSens E T StructuralMass L) a) = L"
    using assms(1) by (simp add: length_np_mul_1)
  then show ?thesis using Some
    by (simp add: mass_contribs_def shaped_contrib_at_dv shaped_contrib_at_const)
qed

lemma rev_mass_effect:
  "snd (rev_mass E c d d_out) = fold add_contrib (mass_contribs E (tacs_F c) d_out) d"
  "tacs_F (fst (rev_mass E c d d_out)) = tacs_F c"
  "func_list (fst (rev_mass E c d d_out)) = func_list c"
  "check_partials_F (fst (rev_mass E c d d_out)) = check_partials_F c"
  by (cases "d_out ''mass''"; cases "d ''dv_struct''"; cases "d ''x_s0''";
      simp add: rev_mass_def mass_contribs_def add_contrib_at Let_def)+

lemma has_keys_fold [simp]: "has_keys (fold add_contrib Cs d) = has_keys d"
  by (simp add: has_keys_def)

lemma rev_func_step_effect:
  "\<exists>c'. tacs_F c' = tacs_F c \<and> func_list c' = func_list c \<and>
        check_partials_F c' = check_partials_F c \<and>
     rev_func_step E seed i f (c, d) =
       (if has_keys d \<and> \<not> i < length seed then Inl IndexError
        else Inr (c', fold add_contrib (step_contribs E (tacs_F c) (seed ! i) f) d))"
  by (cases "d ''dv_struct''"; cases "d ''x_s0''"; cases "d ''u_s''"; cases "i < length seed";
      simp add: rev_func_step_def rev_func_dv_def rev_func_x_def rev_func_u_def getitem_def
        step_contribs_def add_contrib_at has_keys_def Let_def; blast?)

lemma rev_func_loop_effect:
  "\<exists>c'. tacs_F c' = tacs_F c \<and> func_list c' = func_list c \<and>
        check_partials_F c' = check_partials_F c \<and>
     rev_func_loop E seed fs (c, d) =
       (if loop_bad seed fs d then Inl IndexError
        else Inr (c', fold add_contrib (loop_contribs E (tacs_F c) seed fs) d))"
proof (induction fs arbitrary: c d)
  case Nil
  show ?case by (simp add: loop_bad_def loop_contribs_def)
next
  case (Cons p fs)
  obtain i f where p: "p = (i, f)" by (cases p)
  from rev_func_step_effect [of c E seed i f d] obtain c1 where
    c1: "tacs_F c1 = tacs_F c" "func_list c1 = func_list c"
      "check_partials_F c1 = check_partials_F c"
    and st: "rev_func_step E seed i f (c, d) =
       (if has_keys d \<and> \<not> i < length seed then Inl IndexError
        else Inr (c1, fold add_contrib (step_contribs E (tacs_F c) (seed ! i) f) d))"
    by blast
  show ?case
  proof (cases "has_keys d \<and> \<not> i < length seed")
    case True
    then show ?thesis unfolding p using st by (auto simp add: loop_bad_def)
  next
    case False
    define d1 where "d1 = fold add_contrib (step_contribs E (tacs_F c) (seed ! i) f) d"
    from Cons.IH [of c1 d1] obtain c2 where
      c2: "tacs_F c2 = tacs_F c1" "func_list c2 = func_list c1"
        "check_partials_F c2 = check_partials_F c1"
      and lp: "rev_func_loop E seed fs (c1, d1) =
         (if loop_bad seed fs d1 then Inl IndexError
          else Inr (c2, fold add_contrib (loop_contribs E (tacs_F c1) seed fs) d1))"
      by blast
    have b: "loop_bad seed (p # fs) d = loop_bad seed fs d1"
      unfolding p d1_def using False by (auto simp add: loop_bad_def)
    have f: "fold add_contrib (loop_contribs E (tacs_F c) seed (p # fs)) d
        = fold add_contrib (loop_contribs E (tacs_F c) seed fs) d1"
      unfolding p d1_def by (simp add: loop_contribs_def)
    have "rev_func_loop E seed (p # fs) (c, d) = rev_func_loop E seed fs (c1, d1)"
      unfolding p using st False by (simp add: d1_def)
    with lp b f c1 c2 show ?thesis by auto
  qed
qed

lemma loop_bad_fold [simp]: "loop_bad seed fs (fold add_contrib Cs d) = loop_bad seed fs d"
  by (simp add: loop_bad_def)

lemma functions_bad_cong:
  "has_keys d' = has_keys d \<Longrightarrow> functions_bad fns d_out d' = functions_bad fns d_out d"
  by (simp add: functions_bad_def loop_bad_def split: option.splits)

lemma has_keys_with_partial_seed [simp]: "has_keys (with_partial_seed d z) = has_keys d"
  by (simp add: has_keys_def)

lemma shaped_functions_contribs:
  assumes "\<forall>t f n. length (evalDVSens E t f n) = n"
    and "\<forall>a. d_out ''mass'' = Some a \<longrightarrow> length a = 1"
  shows "\<forall>C\<in>set (functions_contribs E T fns d_out). shaped C"
proof -
  have 1: "\<forall>C\<in>set (mass_contribs E T d_out). shaped C"
    using assms by (rule shaped_mass_contribs)
  have 2: "\<forall>C\<in>set (loop_contribs E T seed fs). shaped C" for seed fs
    using assms(1) by (rule shaped_loop_contribs)
  show ?thesis using 1 2
    by (cases "d_out ''f_struct''") (auto simp add: functions_contribs_def)
qed

lemma compute_jacvec_product_effect:
  "\<exists>c'. tacs_F c' = TF_of E c iF \<and> func_list c' = func_list c \<and>
        check_partials_F c' = check_partials_F c \<and>
     compute_jacvec_product E c iF d d_out ''rev'' =
       (if functions_bad (func_list c) d_out d then Inl IndexError
        else Inr (c', fold add_contrib
                        (functions_contribs E (TF_of E c iF) (func_list c) d_out) d))"
proof -
  define s1 where "s1 = (if check_partials_F c then update_internal_F E c iF else c)"
  have s1: "tacs_F s1 = TF_of E c iF" "func_list s1 = func_list c"
    "check_partials_F s1 = check_partials_F c"
    by (simp_all add: s1_def TF_of_def update_internal_F_fields)
  define s2 where "s2 = fst (rev_mass E s1 d d_out)"
  define d2 where "d2 = snd (rev_mass E s1 d d_out)"
  have s2: "tacs_F s2 = TF_of E c iF" "func_list s2 = func_list c"
    "check_partials_F s2 = check_partials_F c"
    by (simp_all add: s2_def rev_mass_effect s1)
  have d2: "d2 = fold add_contrib (mass_contribs E (TF_of E c iF) d_out) d"
    by (simp add: d2_def rev_mass_effect s1)
  have pr: "rev_mass E s1 d d_out = (s2, d2)" by (simp add: s2_def d2_def)
  have unf: "compute_jacvec_product E c iF d d_out ''rev'' =
      (case d_out ''f_struct'' of
         None \<Rightarrow> Inr (s2, d2)
       | Some seed \<Rightarrow> rev_func_loop E seed (enumerate 0 (func_list c)) (s2, d2))"
    by (cases "d_out ''f_struct''")
      (simp_all add: compute_jacvec_product_def Let_def s1_def [symmetric] pr s2)
  show ?thesis
  proof (cases "d_out ''f_struct''")
    case None
    then show ?thesis using s2 unfolding unf
      by (auto simp add: functions_bad_def functions_contribs_def d2)
  next
    case (Some seed)
    from rev_func_loop_effect [of s2 E seed "enumerate 0 (func_list c)" d2] obtain c' where
      c': "tacs_F c' = tacs_F s2" "func_list c' = func_list s2"
        "check_partials_F c' = check_partials_F s2"
      and lp: "rev_func_loop E seed (enumerate 0 (func_list c)) (s2, d2) =
         (if loop_bad seed (enumerate 0 (func_list c)) d2 then Inl IndexError
          else Inr (c', fold add_contrib
                 (loop_contribs E (tacs_F s2) seed (enumerate 0 (func_list c))) d2))"
      by blast
    have "compute_jacvec_product E c iF d d_out ''rev'' =
       (if functions_bad (func_list c) d_out d then Inl IndexError
        else Inr (c', fold add_contrib
                        (functions_contribs E (TF_of E c iF) (func_list c) d_out) d))"
      unfolding unf using Some lp
      by (simp add: functions_bad_def functions_contribs_def d2 s2)
    with c' s2 show ?thesis by auto
  qed
qed

lemma compute_jacvec_product_after:
  "d_inputs_after_F (compute_jacvec_product E c iF d d_out ''rev'') k =
     (if functions_bad (func_list c) d_out d then None
      else fold add_contrib (functions_contribs E (TF_of E c iF) (func_list c) d_out) d k)"
  using compute_jacvec_product_effect [of E c iF d d_out]
  by (auto simp add: d_inputs_after_F_def)

lemma TF_of_cong:
  assumes "tacs_F c' = TF_of E c iF" "check_partials_F c' = check_partials_F c"
  shows "TF_of E c' iF = TF_of E c iF"
  using assms by (simp add: TF_of_def)

subsection \<open>Two calls of \<open>compute_jacvec_product\<close>\<close>

lemma compute_jacvec_product_twice_after:
  "d_inputs_after_F (compute_jacvec_product_twice E c iF d o1 o2) k =
     (if functions_bad (func_list c) o1 d \<or> functions_bad (func_list c) o2 d then None
      else fold add_contrib
             (functions_contribs E (TF_of E c iF) (func_list c) o1 @
              functions_contribs E (TF_of E c iF) (func_list c) o2) d k)"
proof -
  from compute_jacvec_product_effect [of E c iF d o1] obtain c' where
    c': "tacs_F c' = TF_of E c iF" "func_list c' = func_list c"
      "check_partials_F c' = check_partials_F c"
    and call: "compute_jacvec_product E c iF d o1 ''rev'' =
       (if functions_bad (func_list c) o1 d then Inl IndexError
        else Inr (c', fold add_contrib
                        (functions_contribs E (TF_of E c iF) (func_list c) o1) d))"
    by blast
  show ?thesis
  proof (cases "functions_bad (func_list c) o1 d")
    case True
    with call show ?thesis
      by (simp add: compute_jacvec_product_twice_def d_inputs_after_F_def)
  next
    case False
    define d1 where "d1 = fold add_contrib
        (functions_contribs E (TF_of E c iF) (func_list c) o1) d"
    have T: "TF_of E c' iF = TF_of E c iF" using c'(1,3) by (rule TF_of_cong)
    have b: "functions_bad (func_list c) o2 d1 = functions_bad (func_list c) o2 d"
      unfolding d1_def by (rule functions_bad_cong) simp
    have "d_inputs_after_F (compute_jacvec_product_twice E c iF d o1 o2) k
        = d_inputs_after_F (compute_jacvec_product E c' iF d1 o2 ''rev'') k"
      using call False by (simp add: compute_jacvec_product_twice_def d1_def)
    also have "\<dots> = (if functions_bad (func_list c) o2 d then None
        else fold add_contrib (functions_contribs E (TF_of E c iF) (func_list c) o2) d1 k)"
      unfolding compute_jacvec_product_after T c' b ..
    finally show ?thesis using False unfolding d1_def by simp
  qed
qed

lemma compute_jacvec_product_commutes:
  assumes sh: "engine_shapes E"
    and m1: "\<forall>a. o1 ''mass'' = Some a \<longrightarrow> length a = 1"
    and m2: "\<forall>a. o2 ''mass'' = Some a \<longrightarrow> length a = 1"
  shows "d_inputs_after_F (compute_jacvec_product_twice E c iF d o1 o2) k
       = d_inputs_after_F (compute_jacvec_product_twice E c iF d o2 o1) k"
proof -
  from sh have dv: "\<forall>t f n. length (evalDVSens E t f n) = n"
    by (simp add: engine_shapes_def)
  let ?C1 = "functions_contribs E (TF_of E c iF) (func_list c) o1"
  let ?C2 = "functions_contribs E (TF_of E c iF) (func_list c) o2"
  have "fold add_contrib ?C2 (fold add_contrib ?C1 d)
      = fold add_contrib ?C1 (fold add_contrib ?C2 d)"
  proof (rule fold_add_contrib_swap)
    show "\<forall>C\<in>set ?C1. shaped C" using dv m1 by (rule shaped_functions_contribs)
    show "\<forall>C\<in>set ?C2. shaped C" using dv m2 by (rule shaped_functions_contribs)
  qed
  then have "fold add_contrib (?C1 @ ?C2) d = fold add_contrib (?C2 @ ?C1) d"
    by (simp only: fold_append comp_apply)
  then show ?thesis
    unfolding compute_jacvec_product_twice_after by (simp only: disj_commute)
qed

lemma compute_jacvec_product_shift:
  assumes sh: "engine_shapes E"
    and m: "\<forall>a. d_out ''mass'' = Some a \<longrightarrow> length a = 1"
    and fit: "fits d z"
  shows "d_inputs_after_F
           (compute_jacvec_product E c iF (with_partial_seed d z) d_out ''rev'') k
       = add_partial_seed
           (d_inputs_after_F (compute_jacvec_product E c iF d d_out ''rev'') k) (z k)"
proof -
  from sh have dv: "\<forall>t f n. length (evalDVSens E t f n) = n"
    by (simp add: engine_shapes_def)
  let ?C = "functions_contribs E (TF_of E c iF) (func_list c) d_out"
  have b: "functions_bad (func_list c) d_out (with_partial_seed d z)
      = functions_bad (func_list c) d_out d"
    by (rule functions_bad_cong) simp
  have f: "fold add_contrib ?C (with_partial_seed d z)
      = with_partial_seed (fold add_contrib ?C d) z"
  proof (rule fold_add_contrib_shift)
    show "\<forall>C\<in>set ?C. shaped C" using dv m by (rule shaped_functions_contribs)
    show "fits d z" by (rule fit)
  qed
  show ?thesis
    unfolding compute_jacvec_product_after b f
    by (simp add: with_partial_seed_def add_partial_seed_def)
qed

lemma engine_shapes_demo: "engine_shapes (demo_engine a b)"
  by (simp add: engine_shapes_def demo_engine_def split: func.splits)

text \<open>
  C8. Reverse mode adds to the entries of \<open>d_inputs\<close>, and the order of two calls does not
  matter. For \<open>apply_linear\<close> and for \<open>compute_jacvec_product\<close>: a partial seed \<open>z\<close> that is
  in \<open>d_inputs\<close> when the call starts is still there when it returns, added to what the
  call adds (the call on \<open>d_inputs\<close> with \<open>z\<close> added gives the result of the call on
  \<open>d_inputs\<close>, with \<open>z\<close> added); and two calls in a row, one for each of two seeds, leave
  the same \<open>d_inputs\<close> in either order. A call that raises leaves no result, in either
  order. The arrays hold real numbers, so the sums are exact: the rounding of a sum,
  which depends on the order of the additions, is the tolerance that the claim allows.
  The hypotheses say that the engine's products have the sizes of the buffers that the
  adapter passes, that its matrix does not depend on the state it holds, that the partial
  seed has the sizes of the entries, and that the seed of \<open>mass\<close> has size 1, as \<open>setup\<close>
  declares it. The third reverse-mode method, \<open>solve_linear\<close>, has no \<open>d_inputs\<close>: it solves
  for \<open>d_residuals\<close> from \<open>d_outputs\<close>.
\<close>

theorem reverse_seeds_accumulate:
  assumes "engine_shapes E"
    and "\<forall>t v. assembleJacobian E (t\<lparr>variables := v\<rparr>) = assembleJacobian E t"
    and "\<forall>k old w. d_in k = Some old \<and> z k = Some w \<longrightarrow> length w = length old"
    and "\<forall>a. o1 ''mass'' = Some a \<longrightarrow> length a = 1"
    and "\<forall>a. o2 ''mass'' = Some a \<longrightarrow> length a = 1"
  shows "d_inputs_after
           (apply_linear E s i out (with_partial_seed d_in z) d_out r1 ''rev'') k
         = add_partial_seed
             (d_inputs_after (apply_linear E s i out d_in d_out r1 ''rev'') k) (z k) \<and>
       d_inputs_after (apply_linear_twice E s i out d_in d_out r1 r2) k
         = d_inputs_after (apply_linear_twice E s i out d_in d_out r2 r1) k \<and>
       d_inputs_after_F
           (compute_jacvec_product E c iF (with_partial_seed d_in z) o1 ''rev'') k
         = add_partial_seed
             (d_inputs_after_F (compute_jacvec_product E c iF d_in o1 ''rev'') k) (z k) \<and>
       d_inputs_after_F (compute_jacvec_product_twice E c iF d_in o1 o2) k
         = d_inputs_after_F (compute_jacvec_product_twice E c iF d_in o2 o1) k"
proof (intro conjI)
  have fit: "fits d_in z" using assms(3) by (rule fits_sizes)
  show "d_inputs_after
           (apply_linear E s i out (with_partial_seed d_in z) d_out r1 ''rev'') k
         = add_partial_seed
             (d_inputs_after (apply_linear E s i out d_in d_out r1 ''rev'') k) (z k)"
    using assms(1) fit by (rule apply_linear_shift)
  show "d_inputs_after (apply_linear_twice E s i out d_in d_out r1 r2) k
         = d_inputs_after (apply_linear_twice E s i out d_in d_out r2 r1) k"
    using assms(1,2) by (rule apply_linear_commutes)
  show "d_inputs_after_F
           (compute_jacvec_product E c iF (with_partial_seed d_in z) o1 ''rev'') k
         = add_partial_seed
             (d_inputs_after_F (compute_jacvec_product E c iF d_in o1 ''rev'') k) (z k)"
    using assms(1,4) fit by (rule compute_jacvec_product_shift)
  show "d_inputs_after_F (compute_jacvec_product_twice E c iF d_in o1 o2) k
         = d_inputs_after_F (compute_jacvec_product_twice E c iF d_in o2 o1) k"
    using assms(1,4,5) by (rule compute_jacvec_product_commutes)
qed

theorem reverse_seeds_accumulate_witness:
  "d_inputs_after
     (apply_linear_twice (demo_engine 3 3)
        ((demo_solver 0)\<lparr>ndof := 3, res := [0, 0, 0]\<rparr>)
        \<lparr>dv_struct = [2, 4, 8], x_s0 = [0, 0, 0], f_s = [0, 0, 0]\<rparr> \<lparr>u_s = [0, 2, 1]\<rparr>
        [''f_s'' \<mapsto> [0, 0, 0], ''dv_struct'' \<mapsto> [1, 1, 1]] Map.empty
        [''u_s'' \<mapsto> [1, 2, 3]] [''u_s'' \<mapsto> [10, 20, 30]]) ''f_s''
   = Some [0, - 22, - 33] \<and>
   d_inputs_after_F
     (compute_jacvec_product_twice (demo_engine 2 3)
        \<lparr>tacs_F = \<lparr>design_vars = [2, 4], node_vec = [0, 0, 0], variables = [0, 0]\<rparr>,
          mat_F = [2, 4], pc_F = (), ans_F = [0, 0], xpt_sens_F = [0, 0, 0],
          mass = True, func_list = [OtherFunction 0], check_partials_F = True\<rparr>
        \<lparr>dv_struct_F = [2, 4], x_s0_F = [0, 0, 0], u_s_F = [0, 1]\<rparr>
        [''dv_struct'' \<mapsto> [1, 1], ''u_s'' \<mapsto> [0, 0]]
        [''mass'' \<mapsto> [3]] [''f_struct'' \<mapsto> [5]]) ''dv_struct''
   = Some [4, 4] \<and>
   d_inputs_after_F
     (compute_jacvec_product (demo_engine 2 3)
        \<lparr>tacs_F = \<lparr>design_vars = [2, 4], node_vec = [0, 0, 0], variables = [0, 0]\<rparr>,
          mat_F = [2, 4], pc_F = (), ans_F = [0, 0], xpt_sens_F = [0, 0, 0],
          mass = True, func_list = [OtherFunction 0], check_partials_F = True\<rparr>
        \<lparr>dv_struct_F = [2, 4], x_s0_F = [0, 0, 0], u_s_F = [0, 1]\<rparr>
        (with_partial_seed [''dv_struct'' \<mapsto> [1, 1], ''u_s'' \<mapsto> [0, 0]]
           [''dv_struct'' \<mapsto> [10, 10]])
        [''mass'' \<mapsto> [3]] ''rev'') ''dv_struct''
   = Some [14, 14]"
proof (intro conjI)
  let ?E = "demo_engine 3 3"
  let ?s = "(demo_solver 0)\<lparr>ndof := 3, res := [0, 0, 0]\<rparr>"
  let ?i = "\<lparr>dv_struct = [2, 4, 8], x_s0 = [0, 0, 0], f_s = [0, 0, 0]\<rparr>"
  let ?out = "\<lparr>u_s = [0, 2, 1]\<rparr>"
  let ?d_in = "[''f_s'' \<mapsto> [0, 0, 0 :: real], ''dv_struct'' \<mapsto> [1, 1, 1]]"
  let ?r1 = "[''u_s'' \<mapsto> [1, 2, 3 :: real]]"
  let ?r2 = "[''u_s'' \<mapsto> [10, 20, 30 :: real]]"
  have h: "engine_shapes ?E"
    "\<forall>t v. assembleJacobian ?E (t\<lparr>variables := v\<rparr>) = assembleJacobian ?E t"
    "\<forall>k old w. ?d_in k = Some old \<and> (Map.empty :: dvecs) k = Some w
       \<longrightarrow> length w = length old"
    "\<forall>a. (Map.empty :: dvecs) ''mass'' = Some a \<longrightarrow> length a = 1"
    "\<forall>a. (Map.empty :: dvecs) ''mass'' = Some a \<longrightarrow> length a = 1"
    by (simp_all add: engine_shapes_demo) (simp add: demo_engine_def)
  have u: "[0..<3] = [0, 1, 2 :: nat]" by (simp add: upt_rec)
  have "d_inputs_after (apply_linear_twice ?E ?s ?i ?out ?d_in Map.empty ?r1 ?r2) ''f_s''
      = d_inputs_after (apply_linear_twice ?E ?s ?i ?out ?d_in Map.empty ?r2 ?r1) ''f_s''"
    using reverse_seeds_accumulate [where E = ?E and d_in = ?d_in and z = Map.empty
        and ?o1.0 = Map.empty and ?o2.0 = Map.empty and s = ?s and i = ?i and out = ?out
        and d_out = Map.empty and ?r1.0 = ?r1 and ?r2.0 = ?r2 and k = "''f_s''", OF h]
    by blast
  also have "\<dots> = Some [0, - 22, - 33]"
    by (simp add: u apply_linear_twice_def apply_linear_def rev_d_outputs_def rev_f_s_def
        rev_x_s0_def rev_dv_struct_def update_internal_def demo_solver_def Let_def
        d_inputs_after_def zeros_def vsub_def vadd_def demo_engine_def)
  finally show "d_inputs_after
      (apply_linear_twice ?E ?s ?i ?out ?d_in Map.empty ?r1 ?r2) ''f_s''
    = Some [0, - 22, - 33]" .
next
  let ?E = "demo_engine 2 3"
  let ?c = "\<lparr>tacs_F = \<lparr>design_vars = [2, 4], node_vec = [0, 0, 0], variables = [0, 0]\<rparr>,
          mat_F = [2, 4], pc_F = (), ans_F = [0, 0], xpt_sens_F = [0, 0, 0],
          mass = True, func_list = [OtherFunction 0], check_partials_F = True\<rparr>"
  let ?iF = "\<lparr>dv_struct_F = [2, 4], x_s0_F = [0, 0, 0], u_s_F = [0, 1]\<rparr>"
  let ?d_in = "[''dv_struct'' \<mapsto> [1, 1 :: real], ''u_s'' \<mapsto> [0, 0]]"
  let ?o1 = "[''mass'' \<mapsto> [3 :: real]]"
  let ?o2 = "[''f_struct'' \<mapsto> [5 :: real]]"
  have h: "engine_shapes ?E"
    "\<forall>t v. assembleJacobian ?E (t\<lparr>variables := v\<rparr>) = assembleJacobian ?E t"
    "\<forall>k old w. ?d_in k = Some old \<and> (Map.empty :: dvecs) k = Some w
       \<longrightarrow> length w = length old"
    "\<forall>a. ?o1 ''mass'' = Some a \<longrightarrow> length a = 1"
    "\<forall>a. ?o2 ''mass'' = Some a \<longrightarrow> length a = 1"
    by (simp_all add: engine_shapes_demo) (simp add: demo_engine_def)
  have "d_inputs_after_F (compute_jacvec_product_twice ?E ?c ?iF ?d_in ?o1 ?o2) ''dv_struct''
      = d_inputs_after_F (compute_jacvec_product_twice ?E ?c ?iF ?d_in ?o2 ?o1) ''dv_struct''"
    using reverse_seeds_accumulate [where E = ?E and d_in = ?d_in and z = Map.empty
        and ?o1.0 = ?o1 and ?o2.0 = ?o2 and c = ?c and iF = ?iF
        and k = "''dv_struct''", OF h]
    by blast
  also have "\<dots> = Some [4, 4]"
    by (simp add: compute_jacvec_product_twice_def compute_jacvec_product_def rev_mass_def
        rev_func_step_def rev_func_dv_def rev_func_x_def rev_func_u_def getitem_def
        update_internal_F_def Let_def d_inputs_after_F_def demo_engine_def np_mul_def
        scale_def vadd_def enumerate_eq_zip)
  finally show "d_inputs_after_F
      (compute_jacvec_product_twice ?E ?c ?iF ?d_in ?o1 ?o2) ''dv_struct''
    = Some [4, 4]" .
next
  let ?E = "demo_engine 2 3"
  let ?c = "\<lparr>tacs_F = \<lparr>design_vars = [2, 4], node_vec = [0, 0, 0], variables = [0, 0]\<rparr>,
          mat_F = [2, 4], pc_F = (), ans_F = [0, 0], xpt_sens_F = [0, 0, 0],
          mass = True, func_list = [OtherFunction 0], check_partials_F = True\<rparr>"
  let ?iF = "\<lparr>dv_struct_F = [2, 4], x_s0_F = [0, 0, 0], u_s_F = [0, 1]\<rparr>"
  let ?d_in = "[''dv_struct'' \<mapsto> [1, 1 :: real], ''u_s'' \<mapsto> [0, 0]]"
  let ?z = "[''dv_struct'' \<mapsto> [10, 10 :: real]]"
  let ?o1 = "[''mass'' \<mapsto> [3 :: real]]"
  let ?o2 = "[''f_struct'' \<mapsto> [5 :: real]]"
  have h: "engine_shapes ?E"
    "\<forall>t v. assembleJacobian ?E (t\<lparr>variables := v\<rparr>) = assembleJacobian ?E t"
    "\<forall>k old w. ?d_in k = Some old \<and> ?z k = Some w \<longrightarrow> length w = length old"
    "\<forall>a. ?o1 ''mass'' = Some a \<longrightarrow> length a = 1"
    "\<forall>a. ?o2 ''mass'' = Some a \<longrightarrow> length a = 1"
    by (simp_all add: engine_shapes_demo) (simp add: demo_engine_def)
  have "d_inputs_after_F
      (compute_jacvec_product ?E ?c ?iF (with_partial_seed ?d_in ?z) ?o1 ''rev'') ''dv_struct''
    = add_partial_seed
        (d_inputs_after_F (compute_jacvec_product ?E ?c ?iF ?d_in ?o1 ''rev'') ''dv_struct'')
        (?z ''dv_struct'')"
    using reverse_seeds_accumulate [where E = ?E and d_in = ?d_in and z = ?z
        and ?o1.0 = ?o1 and ?o2.0 = ?o2 and c = ?c and iF = ?iF
        and k = "''dv_struct''", OF h]
    by blast
  also have "\<dots> = Some [14, 14]"
    by (simp add: compute_jacvec_product_def rev_mass_def
        update_internal_F_def Let_def d_inputs_after_F_def demo_engine_def np_mul_def
        vadd_def add_partial_seed_def)
  finally show "d_inputs_after_F
      (compute_jacvec_product ?E ?c ?iF (with_partial_seed ?d_in ?z) ?o1 ''rev'') ''dv_struct''
    = Some [14, 14]" .
qed

end
